(* ===== verification/Go_Prelude.thy ===== *)
theory Go_Prelude
  imports Main "HOL-Library.Word"
begin

section \<open>Go values, strings and slices\<close>

text \<open>
  The part of Go and of its standard library that the supervisor's sources use everywhere:
  64-bit \<^verbatim>\<open>int\<close> arithmetic, the functions of packages \<^verbatim>\<open>strings\<close> and \<^verbatim>\<open>strconv\<close>, and the
  slice idioms the components share (keeping the newest entries of a log, appending without
  duplicates). A Go string is a sequence of bytes and a \<open>string\<close> of HOL is a list of 8-bit
  characters, so indices and \<^verbatim>\<open>len\<close> agree. \<^verbatim>\<open>strings.TrimSpace\<close> removes the UTF-8 encodings
  of every Unicode white space character; the case mappings \<^verbatim>\<open>ToLower\<close>, \<^verbatim>\<open>ToUpper\<close> and
  \<^verbatim>\<open>EqualFold\<close> are those of ASCII letters and leave the bytes of other letters alone (the
  sources compare the results with ASCII words only).
\<close>

named_theorems go_str "evaluation rules for the string functions"
named_theorems go_bounds "length bounds of the capped slices"

subsection \<open>64-bit integers\<close>

definition i64 :: "int \<Rightarrow> int" where
  \<comment> \<open>the value a Go \<^verbatim>\<open>int\<close> holds after an operation with mathematical result \<open>x\<close>\<close>
  "i64 x = (x + 2 ^ 63) mod 2 ^ 64 - 2 ^ 63"

lemma i64_id: "- (2 ^ 63) \<le> x \<Longrightarrow> x < 2 ^ 63 \<Longrightarrow> i64 x = x"
  by (simp add: i64_def)

lemma i64_range: "- (2 ^ 63) \<le> i64 x \<and> i64 x < 2 ^ 63"
proof -
  have "0 \<le> (x + 2 ^ 63) mod 2 ^ 64 \<and> (x + 2 ^ 63) mod 2 ^ 64 < (2 ^ 64 :: int)"
    by simp
  then show ?thesis by (simp add: i64_def)
qed

definition quot64 :: "int \<Rightarrow> int \<Rightarrow> int" where
  \<comment> \<open>Go's integer division truncates towards zero\<close>
  "quot64 a b = sgn a * sgn b * (\<bar>a\<bar> div \<bar>b\<bar>)"

lemma quot64_nonneg: "0 \<le> a \<Longrightarrow> 0 < b \<Longrightarrow> quot64 a b = a div b"
  by (cases "a = 0") (auto simp: quot64_def)

subsection \<open>Slices\<close>

definition keep_last :: "nat \<Rightarrow> 'a list \<Rightarrow> 'a list" where
  \<comment> \<open>\<^verbatim>\<open>if len(xs) > n { xs = xs[len(xs)-n:] }\<close>\<close>
  "keep_last n xs = drop (length xs - n) xs"

lemma keep_last_short [simp]: "length xs \<le> n \<Longrightarrow> keep_last n xs = xs"
  by (simp add: keep_last_def)

lemma length_keep_last [simp]: "length (keep_last n xs) = min n (length xs)"
  by (simp add: keep_last_def)

lemma length_keep_last_le [go_bounds]: "length (keep_last n xs) \<le> n"
  by simp

lemma set_keep_last: "set (keep_last n xs) \<subseteq> set xs"
  by (simp add: keep_last_def set_drop_subset)

lemma keep_last_snoc: "0 < n \<Longrightarrow> \<exists>ys. keep_last n (xs @ [x]) = ys @ [x]"
proof -
  assume "0 < n"
  then have "length (xs @ [x]) - n \<le> length xs" by simp
  then have "keep_last n (xs @ [x]) = drop (length (xs @ [x]) - n) xs @ [x]"
    by (simp add: keep_last_def)
  then show ?thesis by blast
qed

lemma keep_last_keep_last: "keep_last n (keep_last n xs @ ys) = keep_last n (xs @ ys)"
proof (cases "length xs \<le> n")
  case False
  then have "length xs - n + (n + length ys - n) = length xs + length ys - n" by simp
  with False show ?thesis by (simp add: keep_last_def drop_append add.commute)
qed simp

lemma last_keep_last: "0 < n \<Longrightarrow> xs \<noteq> [] \<Longrightarrow> last (keep_last n xs) = last xs"
  by (simp add: keep_last_def last_drop)

fun add_new :: "'a list \<Rightarrow> 'a list \<Rightarrow> 'a list" where
  \<comment> \<open>append the values of the second list that are not there yet, in order\<close>
  "add_new acc [] = acc"
| "add_new acc (x # xs) = add_new (if x \<in> set acc then acc else acc @ [x]) xs"

lemma set_add_new [simp]: "set (add_new acc xs) = set acc \<union> set xs"
  by (induction acc xs rule: add_new.induct) auto

lemma distinct_add_new: "distinct acc \<Longrightarrow> distinct (add_new acc xs)"
  by (induction acc xs rule: add_new.induct) auto

lemma add_new_prefix: "\<exists>zs. add_new acc xs = acc @ zs"
proof (induction acc xs rule: add_new.induct)
  case (2 acc x xs)
  then show ?case by (cases "x \<in> set acc") auto
qed simp

subsection \<open>Prefixes, suffixes and substrings\<close>

definition has_prefix :: "string \<Rightarrow> string \<Rightarrow> bool" where
  "has_prefix s p \<longleftrightarrow> take (length p) s = p"

definition has_suffix :: "string \<Rightarrow> string \<Rightarrow> bool" where
  "has_suffix s p \<longleftrightarrow> length p \<le> length s \<and> drop (length s - length p) s = p"

fun contains :: "string \<Rightarrow> string \<Rightarrow> bool" where
  "contains [] p \<longleftrightarrow> p = []"
| "contains (c # s) p \<longleftrightarrow> has_prefix (c # s) p \<or> contains s p"

definition trim_prefix :: "string \<Rightarrow> string \<Rightarrow> string" where
  "trim_prefix s p = (if has_prefix s p then drop (length p) s else s)"

definition trim_suffix :: "string \<Rightarrow> string \<Rightarrow> string" where
  "trim_suffix s p = (if has_suffix s p then take (length s - length p) s else s)"

definition contains_any :: "string \<Rightarrow> string \<Rightarrow> bool" where
  "contains_any s chars \<longleftrightarrow> list_ex (\<lambda>c. c \<in> set chars) s"

lemmas prefix_defs [go_str] = has_prefix_def has_suffix_def trim_prefix_def trim_suffix_def
  contains_any_def

lemma has_prefix_append [simp]: "has_prefix (p @ s) p"
  by (simp add: has_prefix_def)

lemma has_prefix_iff: "has_prefix s p \<longleftrightarrow> (\<exists>r. s = p @ r)"
  by (metis append_eq_conv_conj append_take_drop_id has_prefix_def)

lemma has_suffix_append [simp]: "has_suffix (s @ p) p"
  by (simp add: has_suffix_def)

lemma has_suffix_iff: "has_suffix s p \<longleftrightarrow> (\<exists>r. s = r @ p)"
proof
  assume h: "has_suffix s p"
  have "s = take (length s - length p) s @ drop (length s - length p) s" by simp
  with h show "\<exists>r. s = r @ p" unfolding has_suffix_def by metis
qed auto

lemma trim_prefix_append [simp]: "trim_prefix (p @ s) p = s"
  by (simp add: trim_prefix_def)

lemma trim_suffix_append [simp]: "trim_suffix (s @ p) p = s"
  by (simp add: trim_suffix_def)

lemma has_prefix_contains: "has_prefix s p \<Longrightarrow> contains s p"
  by (cases s) (auto simp: has_prefix_def)

lemma contains_append: "contains (a @ p @ b) p"
  by (induction a) (simp_all add: has_prefix_contains)

subsection \<open>White space\<close>

definition byte_char :: "nat \<Rightarrow> char" where
  "byte_char n = char_of n"

definition space_encodings :: "string list" where
  \<comment> \<open>the UTF-8 encodings of the characters \<^verbatim>\<open>unicode.IsSpace\<close> accepts\<close>
  "space_encodings =
     [[CHR '' ''], [CHR 0x09], [CHR 0x0A], [CHR 0x0B], [CHR 0x0C], [CHR 0x0D],
      [CHR 0xC2, CHR 0x85], [CHR 0xC2, CHR 0xA0], [CHR 0xE1, CHR 0x9A, CHR 0x80]] @
     map (\<lambda>c. [CHR 0xE2, CHR 0x80, c])
       [CHR 0x80, CHR 0x81, CHR 0x82, CHR 0x83, CHR 0x84, CHR 0x85, CHR 0x86, CHR 0x87,
        CHR 0x88, CHR 0x89, CHR 0x8A, CHR 0xA8, CHR 0xA9, CHR 0xAF] @
     [[CHR 0xE2, CHR 0x81, CHR 0x9F], [CHR 0xE3, CHR 0x80, CHR 0x80]]"

function strip :: "'a list list \<Rightarrow> 'a list \<Rightarrow> 'a list" where
  \<comment> \<open>remove leading words of \<open>ws\<close> as long as there is one\<close>
  "strip ws s =
     (case find (\<lambda>w. w \<noteq> [] \<and> take (length w) s = w) ws of
        None \<Rightarrow> s
      | Some w \<Rightarrow> strip ws (drop (length w) s))"
  by pat_completeness auto
termination
proof (relation "measure (\<lambda>(ws, s). length s)", goal_cases)
  case (2 ws s w)
  from find_Some_iff [THEN iffD1, OF 2] have "w \<noteq> []" "take (length w) s = w" by auto
  then have "s \<noteq> []" by auto
  with \<open>w \<noteq> []\<close> show ?case by simp
qed simp

declare strip.simps [simp del]

definition trim_left_space :: "string \<Rightarrow> string" where
  "trim_left_space s = strip space_encodings s"

definition trim_right_space :: "string \<Rightarrow> string" where
  "trim_right_space s = rev (strip (map rev space_encodings) (rev s))"

definition trim_space :: "string \<Rightarrow> string" where
  "trim_space s = trim_right_space (trim_left_space s)"

definition trim_left_set :: "string \<Rightarrow> string \<Rightarrow> string" where
  \<comment> \<open>\<^verbatim>\<open>strings.TrimLeft\<close> with a cut set of ASCII characters\<close>
  "trim_left_set s cs = dropWhile (\<lambda>c. c \<in> set cs) s"

definition trim_right_set :: "string \<Rightarrow> string \<Rightarrow> string" where
  "trim_right_set s cs = rev (dropWhile (\<lambda>c. c \<in> set cs) (rev s))"

definition trim_set :: "string \<Rightarrow> string \<Rightarrow> string" where
  "trim_set s cs = trim_right_set (trim_left_set s cs) cs"

lemma strip_None: "(\<And>w. w \<in> set ws \<Longrightarrow> w \<noteq> [] \<Longrightarrow> take (length w) s \<noteq> w) \<Longrightarrow> strip ws s = s"
  by (subst strip.simps) (auto simp: find_None_iff split: option.splits dest!: find_Some_iff [THEN iffD1])

lemma strip_done: "w \<in> set ws \<Longrightarrow> w \<noteq> [] \<Longrightarrow> take (length w) (strip ws s) \<noteq> w"
proof (induction ws s rule: strip.induct)
  case (1 ws s)
  show ?case
  proof (cases "find (\<lambda>w. w \<noteq> [] \<and> take (length w) s = w) ws")
    case None
    then have "strip ws s = s" by (simp add: strip.simps [of ws s])
    with None "1.prems" show ?thesis by (auto simp: find_None_iff)
  next
    case (Some v)
    with "1.IH" [OF Some] "1.prems" show ?thesis by (simp add: strip.simps [of ws s])
  qed
qed

lemma strip_suffix: "\<exists>p. s = p @ strip ws s"
proof (induction ws s rule: strip.induct)
  case (1 ws s)
  show ?case
  proof (cases "find (\<lambda>w. w \<noteq> [] \<and> take (length w) s = w) ws")
    case None
    then show ?thesis by (simp add: strip.simps [of ws s])
  next
    case (Some v)
    from "1.IH" [OF Some] obtain p where "drop (length v) s = p @ strip ws (drop (length v) s)" ..
    then have "s = (take (length v) s @ p) @ strip ws (drop (length v) s)"
      by (metis append.assoc append_take_drop_id)
    moreover have "strip ws s = strip ws (drop (length v) s)"
      using Some by (subst strip.simps) simp
    ultimately show ?thesis by metis
  qed
qed

lemma strip_idem [simp]: "strip ws (strip ws s) = strip ws s"
  by (rule strip_None) (rule strip_done)

lemma trim_right_space_prefix: "\<exists>r. s = trim_right_space s @ r"
proof -
  obtain p where "rev s = p @ strip (map rev space_encodings) (rev s)" using strip_suffix by blast
  then have "s = rev (strip (map rev space_encodings) (rev s)) @ rev p"
    by (metis rev_append rev_rev_ident)
  then show ?thesis unfolding trim_right_space_def by blast
qed

lemma trim_right_left_space:
  "trim_left_space s = s \<Longrightarrow> trim_left_space (trim_right_space s) = trim_right_space s"
proof -
  assume s: "trim_left_space s = s"
  obtain r where r: "s = trim_right_space s @ r" using trim_right_space_prefix by blast
  show ?thesis unfolding trim_left_space_def
  proof (rule strip_None)
    fix w assume w: "w \<in> set space_encodings" "w \<noteq> []"
    show "take (length w) (trim_right_space s) \<noteq> w"
    proof
      assume t: "take (length w) (trim_right_space s) = w"
      obtain q where "trim_right_space s = w @ q" using t by (metis append_take_drop_id)
      then have "s = w @ q @ r" using r by simp
      then have "take (length w) s = w" by (metis append_eq_conv_conj)
      moreover have "take (length w) s \<noteq> w"
        using strip_done [OF w, of s] s by (simp add: trim_left_space_def)
      ultimately show False by simp
    qed
  qed
qed

lemma trim_space_idem [simp]: "trim_space (trim_space s) = trim_space s"
proof -
  have "trim_left_space (trim_left_space s) = trim_left_space s"
    by (simp add: trim_left_space_def)
  then have "trim_left_space (trim_space s) = trim_space s"
    unfolding trim_space_def by (rule trim_right_left_space)
  then show ?thesis
    by (simp add: trim_space_def trim_right_space_def)
qed

lemma trim_space_Nil [simp]: "trim_space [] = []"
  by (metis append_is_Nil_conv strip_suffix trim_left_space_def trim_right_space_prefix trim_space_def)


subsection \<open>Case mapping\<close>

definition upper_letters :: string where
  "upper_letters = ''ABCDEFGHIJKLMNOPQRSTUVWXYZ''"

definition lower_letters :: string where
  "lower_letters = ''abcdefghijklmnopqrstuvwxyz''"

definition lower_char :: "char \<Rightarrow> char" where
  "lower_char c = (case map_of (zip upper_letters lower_letters) c of Some d \<Rightarrow> d | None \<Rightarrow> c)"

definition upper_char :: "char \<Rightarrow> char" where
  "upper_char c = (case map_of (zip lower_letters upper_letters) c of Some d \<Rightarrow> d | None \<Rightarrow> c)"

definition to_lower :: "string \<Rightarrow> string" where
  "to_lower s = map lower_char s"

definition to_upper :: "string \<Rightarrow> string" where
  "to_upper s = map upper_char s"

definition equal_fold :: "string \<Rightarrow> string \<Rightarrow> bool" where
  "equal_fold a b \<longleftrightarrow> to_lower a = to_lower b"

lemmas case_defs [go_str] = to_lower_def to_upper_def lower_char_def upper_char_def
  upper_letters_def lower_letters_def equal_fold_def

lemma lower_char_idem [simp]: "lower_char (lower_char c) = lower_char c"
proof (cases "map_of (zip upper_letters lower_letters) c")
  case None
  then show ?thesis by (simp add: lower_char_def)
next
  case (Some d)
  then have "d \<in> set lower_letters"
    by (metis map_of_SomeD set_zip_rightD)
  moreover have "list_all (\<lambda>d. map_of (zip upper_letters lower_letters) d = None) lower_letters"
    by code_simp
  ultimately have "map_of (zip upper_letters lower_letters) d = None"
    by (auto simp: list_all_iff)
  with Some show ?thesis by (simp add: lower_char_def)
qed

lemma to_lower_idem [simp]: "to_lower (to_lower s) = to_lower s"
  by (simp add: to_lower_def)

lemma length_to_lower [simp]: "length (to_lower s) = length s"
  by (simp add: to_lower_def)

lemma equal_fold_refl [simp]: "equal_fold a a"
  by (simp add: equal_fold_def)

lemma equal_fold_sym: "equal_fold a b \<longleftrightarrow> equal_fold b a"
  by (auto simp: equal_fold_def)

lemma equal_fold_trans: "equal_fold a b \<Longrightarrow> equal_fold b c \<Longrightarrow> equal_fold a c"
  by (simp add: equal_fold_def)

subsection \<open>Splitting and joining\<close>

fun split_at :: "char \<Rightarrow> string \<Rightarrow> string list" where
  \<comment> \<open>\<^verbatim>\<open>strings.Split\<close> with a separator of one byte\<close>
  "split_at c [] = [[]]"
| "split_at c (d # s) =
     (if d = c then [] # split_at c s
      else case split_at c s of [] \<Rightarrow> [[d]] | w # ws \<Rightarrow> (d # w) # ws)"

fun join :: "string \<Rightarrow> string list \<Rightarrow> string" where
  "join sep [] = []"
| "join sep [s] = s"
| "join sep (s # t # ss) = s @ sep @ join sep (t # ss)"

lemma split_at_nonempty [simp]: "split_at c s \<noteq> []"
  by (induction s) (auto split: list.splits)

lemma join_split_at: "join [c] (split_at c s) = s"
proof (induction s)
  case (Cons d s)
  obtain w ws where "split_at c s = w # ws" by (cases "split_at c s") auto
  with Cons show ?case by (cases ws) auto
qed simp

lemma split_at_parts: "p \<in> set (split_at c s) \<Longrightarrow> c \<notin> set p"
  by (induction s arbitrary: p) (auto split: list.splits if_splits)

subsection \<open>Decimal numbers\<close>

definition digits :: string where
  "digits = ''0123456789''"

definition digit_val :: "char \<Rightarrow> nat option" where
  "digit_val c = map_of (zip digits [0..<10]) c"

definition digit_char :: "nat \<Rightarrow> char" where
  "digit_char d = digits ! d"

fun nat_to_dec :: "nat \<Rightarrow> string" where
  "nat_to_dec n = (if n < 10 then [digit_char n] else nat_to_dec (n div 10) @ [digit_char (n mod 10)])"

declare nat_to_dec.simps [simp del]

definition itoa :: "int \<Rightarrow> string" where
  \<comment> \<open>\<^verbatim>\<open>strconv.Itoa\<close> and the verb \<^verbatim>\<open>%d\<close>\<close>
  "itoa i = (if i < 0 then ''-'' @ nat_to_dec (nat (- i)) else nat_to_dec (nat i))"

fun dec_val :: "int \<Rightarrow> string \<Rightarrow> int option" where
  "dec_val acc [] = Some acc"
| "dec_val acc (c # s) =
     (case digit_val c of None \<Rightarrow> None | Some d \<Rightarrow> dec_val (10 * acc + int d) s)"

definition atoi :: "string \<Rightarrow> int option" where
  \<comment> \<open>\<^verbatim>\<open>strconv.Atoi\<close>: an optional sign, then digits; \<open>None\<close> for a syntax or range error\<close>
  "atoi s =
     (let neg = (s \<noteq> [] \<and> hd s = CHR ''-'');
          body = (if s \<noteq> [] \<and> (hd s = CHR ''-'' \<or> hd s = CHR ''+'') then tl s else s)
      in if body = [] then None
         else case dec_val 0 body of
           None \<Rightarrow> None
         | Some n \<Rightarrow>
             (let v = (if neg then - n else n)
              in if - (2 ^ 63) \<le> v \<and> v < 2 ^ 63 then Some v else None))"

definition atoi_or_zero :: "string \<Rightarrow> int" where
  \<comment> \<open>the value \<^verbatim>\<open>Atoi\<close> returns next to its error: zero for a syntax error, the nearest
    representable number for a range error\<close>
  "atoi_or_zero s =
     (let neg = (s \<noteq> [] \<and> hd s = CHR ''-'');
          body = (if s \<noteq> [] \<and> (hd s = CHR ''-'' \<or> hd s = CHR ''+'') then tl s else s)
      in if body = [] then 0
         else case dec_val 0 body of
           None \<Rightarrow> 0
         | Some n \<Rightarrow> max (- (2 ^ 63)) (min (2 ^ 63 - 1) (if neg then - n else n)))"

lemmas num_defs [go_str] = atoi_def atoi_or_zero_def digit_val_def digits_def itoa_def digit_char_def

lemma atoi_range: "atoi s = Some v \<Longrightarrow> - (2 ^ 63) \<le> v \<and> v < 2 ^ 63"
  by (auto simp: atoi_def Let_def split: if_splits option.splits)

lemma atoi_or_zero_atoi: "atoi s = Some v \<Longrightarrow> atoi_or_zero s = v"
  by (auto simp: atoi_def atoi_or_zero_def Let_def split: if_splits option.splits)

lemma digit_char_props:
  "d < 10 \<Longrightarrow> digit_val (digit_char d) = Some d \<and> digit_char d \<in> set digits"
proof -
  have "list_all (\<lambda>d. digit_val (digit_char d) = Some d \<and> digit_char d \<in> set digits) [0..<10]"
    by code_simp
  then show "d < 10 \<Longrightarrow> digit_val (digit_char d) = Some d \<and> digit_char d \<in> set digits"
    by (auto simp: list_all_iff)
qed

lemma digit_val_digit_char: "d < 10 \<Longrightarrow> digit_val (digit_char d) = Some d"
  by (simp add: digit_char_props)

lemma nat_to_dec_nonempty [simp]: "nat_to_dec n \<noteq> []"
  by (subst nat_to_dec.simps) simp

lemma dec_val_append: "dec_val acc (s @ t) = Option.bind (dec_val acc s) (\<lambda>v. dec_val v t)"
  by (induction acc s rule: dec_val.induct) (auto split: option.splits)

lemma dec_val_nat_to_dec: "dec_val 0 (nat_to_dec n) = Some (int n)"
proof (induction n rule: nat_to_dec.induct)
  case (1 n)
  show ?case
  proof (cases "n < 10")
    case True
    then show ?thesis by (simp add: nat_to_dec.simps [of n] digit_val_digit_char)
  next
    case False
    with 1 have "dec_val 0 (nat_to_dec (n div 10)) = Some (int (n div 10))" by simp
    with False show ?thesis
      by (simp add: nat_to_dec.simps [of n] dec_val_append digit_val_digit_char) presburger
  qed
qed

lemma nat_to_dec_inj: "nat_to_dec m = nat_to_dec n \<Longrightarrow> m = n"
  by (metis dec_val_nat_to_dec of_nat_eq_iff option.inject)

lemma nat_to_dec_digits: "set (nat_to_dec n) \<subseteq> set digits"
proof (induction n rule: nat_to_dec.induct)
  case (1 n)
  show ?case
  proof (cases "n < 10")
    case True
    then have "nat_to_dec n = [digit_char n]" by (subst nat_to_dec.simps) simp
    with True show ?thesis by (simp add: digit_char_props)
  next
    case False
    then have "nat_to_dec n = nat_to_dec (n div 10) @ [digit_char (n mod 10)]"
      by (subst nat_to_dec.simps) simp
    with False 1 show ?thesis by (simp add: digit_char_props)
  qed
qed

lemma atoi_itoa: "- (2 ^ 63) \<le> i \<Longrightarrow> i < 2 ^ 63 \<Longrightarrow> atoi (itoa i) = Some i"
proof -
  assume r: "- (2 ^ 63) \<le> i" "i < 2 ^ 63"
  have ns: "hd (nat_to_dec n) \<noteq> CHR ''-'' \<and> hd (nat_to_dec n) \<noteq> CHR ''+''" for n
  proof -
    have "hd (nat_to_dec n) \<in> set digits" using nat_to_dec_digits [of n] by (meson hd_in_set nat_to_dec_nonempty subsetD)
    then show ?thesis by (auto simp: digits_def)
  qed
  show ?thesis
  proof (cases "i < 0")
    case True
    with r show ?thesis by (simp add: atoi_def itoa_def Let_def dec_val_nat_to_dec)
  next
    case False
    with r ns [of "nat i"] show ?thesis by (simp add: atoi_def itoa_def Let_def dec_val_nat_to_dec)
  qed
qed

lemma trim_set_Nil [simp]: "trim_set [] cs = []"
  by (simp add: trim_set_def trim_left_set_def trim_right_set_def)

end
