(* ===== verification/Mqtt_Packet.thy ===== *)
theory Mqtt_Packet
  imports Go_Prelude
begin

section \<open>MQTT control packets\<close>

text \<open>
  \<^verbatim>\<open>internal/mqttclient/packet.go\<close>: the framing of control packets, the variable length
  encoding of their size, and the payloads of CONNECT, PUBLISH, SUBSCRIBE and CONNACK for
  protocol 3.1.1 and 5.0. Bytes are 8-bit words and lengths wrap to 16 bits where the source
  converts them. A connection's input is a list of events: a byte that arrives, or the moment the
  read deadline expires; its end is the end of the stream. \<^verbatim>\<open>io.ReadFull\<close> on it gives the bytes or
  an error, and like the library's it consumes what it read before the error.
\<close>

unbundle bit_operations_syntax

type_synonym byte = "8 word"
type_synonym bytes = "8 word list"

definition bytes_of :: "string \<Rightarrow> bytes" where
  "bytes_of s = map (\<lambda>c. word_of_nat (of_char c)) s"

definition string_of :: "bytes \<Rightarrow> string" where
  "string_of bs = map (\<lambda>b. char_of (unat b)) bs"

lemma length_bytes_of [simp]: "length (bytes_of s) = length s"
  by (simp add: bytes_of_def)

lemma string_of_bytes_of [simp]: "string_of (bytes_of s) = s"
proof -
  have "unat (word_of_nat (of_char c) :: byte) = of_char c" for c
  proof -
    have "of_char c < (256 :: nat)" by simp
    then show ?thesis by (simp only: unat_of_nat) simp
  qed
  then show ?thesis by (simp add: string_of_def bytes_of_def comp_def)
qed

lemma string_of_append: "string_of (a @ b) = string_of a @ string_of b"
  by (simp add: string_of_def)

subsection \<open>The input of a connection\<close>

datatype read_error = EOF | UnexpectedEOF | DeadlineExceeded

datatype input_event = Byte byte | Deadline

type_synonym input = "input_event list"

definition arrived :: "bytes \<Rightarrow> input" where
  "arrived bs = map Byte bs"

fun read_more :: "bytes \<Rightarrow> nat \<Rightarrow> input \<Rightarrow> (read_error + bytes) \<times> input" where
  "read_more acc 0 inp = (Inr (rev acc), inp)"
| "read_more acc (Suc n) [] = (Inl (if acc = [] then EOF else UnexpectedEOF), [])"
| "read_more acc (Suc n) (Deadline # inp) = (Inl DeadlineExceeded, inp)"
| "read_more acc (Suc n) (Byte b # inp) = read_more (b # acc) n inp"

definition read_full :: "nat \<Rightarrow> input \<Rightarrow> (read_error + bytes) \<times> input" where
  "read_full n inp = read_more [] n inp"

lemma arrived_simps [simp]:
  "arrived [] = []" "arrived (b # bs) = Byte b # arrived bs" "arrived (a @ c) = arrived a @ arrived c"
  by (simp_all add: arrived_def)

lemma read_more_arrived:
  "read_more acc (length bs) (arrived bs @ rest) = (Inr (rev acc @ bs), rest)"
  by (induction bs arbitrary: acc) auto

lemma read_full_arrived [simp]: "read_full (length bs) (arrived bs @ rest) = (Inr bs, rest)"
  by (simp add: read_full_def read_more_arrived)

lemma read_full_1 [simp]: "read_full (Suc 0) (Byte b # rest) = (Inr [b], rest)"
  by (simp add: read_full_def)

lemma read_full_0 [simp]: "read_full 0 inp = (Inr [], inp)"
  by (simp add: read_full_def)

lemma read_more_Inr:
  "read_more acc n inp = (Inr bs, inp') \<Longrightarrow>
   \<exists>new. bs = rev acc @ new \<and> length new = n \<and> inp = arrived new @ inp'"
proof (induction acc n inp rule: read_more.induct)
  case (4 acc n b inp)
  then obtain new where "bs = rev (b # acc) @ new" "length new = n" "inp = arrived new @ inp'" by auto
  then show ?case by (intro exI [of _ "b # new"]) simp
qed auto

lemma read_full_Inr:
  "read_full n inp = (Inr bs, inp') \<Longrightarrow> length bs = n \<and> inp = arrived bs @ inp'"
  by (auto simp: read_full_def dest: read_more_Inr)

lemma read_more_length: "read_more acc n inp = (r, inp') \<Longrightarrow> length inp' \<le> length inp"
  by (induction acc n inp rule: read_more.induct) auto

lemma read_full_length: "read_full n inp = (r, inp') \<Longrightarrow> length inp' \<le> length inp"
  by (auto simp: read_full_def dest: read_more_length)

lemma read_full_1_length:
  assumes "read_full (Suc 0) inp = (Inr bs, inp')"
  shows "length inp' < length inp"
proof -
  from read_full_Inr [OF assms] have "length bs = 1" "inp = arrived bs @ inp'" by auto
  then show ?thesis by (simp add: arrived_def)
qed

subsection \<open>Packet types\<close>

definition packetConnect :: byte where "packetConnect = 1"
definition packetConnAck :: byte where "packetConnAck = 2"
definition packetPublish :: byte where "packetPublish = 3"
definition packetSubscribe :: byte where "packetSubscribe = 8"
definition packetSubAck :: byte where "packetSubAck = 9"
definition packetPingReq :: byte where "packetPingReq = 12"
definition packetPingResp :: byte where "packetPingResp = 13"
definition packetDisconnect :: byte where "packetDisconnect = 14"

lemmas packet_types = packetConnect_def packetConnAck_def packetPublish_def packetSubscribe_def
  packetSubAck_def packetPingReq_def packetPingResp_def packetDisconnect_def

datatype mqtt_error =
    ReadError read_error
  | MalformedLength
  | PacketTooLarge nat nat
  | ShortPublish
  | ShortPublishTopic
  | ShortPublishProperties

definition protocolLevel :: "string \<Rightarrow> nat" where
  "protocolLevel version = (if version = ''5.0'' \<or> version = ''5'' then 5 else 4)"

subsection \<open>The remaining length\<close>

fun encodeRemainingLength :: "nat \<Rightarrow> bytes" where
  "encodeRemainingLength n =
     (let encoded = word_of_nat (n mod 128); n' = n div 128
      in if n' = 0 then [encoded] else (encoded OR 128) # encodeRemainingLength n')"

declare encodeRemainingLength.simps [simp del]

fun decodeRemainingLength_from :: "nat \<Rightarrow> nat \<Rightarrow> nat \<Rightarrow> input \<Rightarrow> (mqtt_error + nat) \<times> input" where
  \<comment> \<open>the loop, with the rounds left, the multiplier and the value so far\<close>
  "decodeRemainingLength_from 0 multiplier value inp = (Inl MalformedLength, inp)"
| "decodeRemainingLength_from (Suc k) multiplier value inp =
     (case read_full 1 inp of
        (Inl e, inp') \<Rightarrow> (Inl (ReadError e), inp')
      | (Inr bs, inp') \<Rightarrow>
          (let b = hd bs; value' = value + unat (b AND 127) * multiplier
           in if b AND 128 = 0 then (Inr value', inp')
              else decodeRemainingLength_from k (multiplier * 128) value' inp'))"

definition decodeRemainingLength :: "input \<Rightarrow> (mqtt_error + nat) \<times> input" where
  "decodeRemainingLength inp = decodeRemainingLength_from 4 1 0 inp"

fun decodeRemainingLengthBytes_from :: "nat \<Rightarrow> nat \<Rightarrow> nat \<Rightarrow> nat \<Rightarrow> bytes \<Rightarrow> mqtt_error + nat \<times> nat" where
  "decodeRemainingLengthBytes_from 0 i multiplier value data = Inl MalformedLength"
| "decodeRemainingLengthBytes_from (Suc k) i multiplier value data =
     (case data of
        [] \<Rightarrow> Inl MalformedLength
      | b # data' \<Rightarrow>
          (let value' = value + unat (b AND 127) * multiplier
           in if b AND 128 = 0 then Inr (value', i + 1)
              else decodeRemainingLengthBytes_from k (i + 1) (multiplier * 128) value' data'))"

definition decodeRemainingLengthBytes :: "bytes \<Rightarrow> mqtt_error + nat \<times> nat" where
  "decodeRemainingLengthBytes data = decodeRemainingLengthBytes_from 4 0 1 0 data"

text \<open>The low seven bits and the continuation bit of an encoded byte.\<close>

lemma enc_byte:
  assumes "k < 128"
  shows "unat ((word_of_nat k :: byte) AND 127) = k"
    and "(word_of_nat k :: byte) AND 128 = 0"
    and "unat (((word_of_nat k :: byte) OR 128) AND 127) = k"
    and "((word_of_nat k :: byte) OR 128) AND 128 \<noteq> 0"
proof -
  have "list_all (\<lambda>k. unat ((word_of_nat k :: byte) AND 127) = k \<and> (word_of_nat k :: byte) AND 128 = 0 \<and>
      unat (((word_of_nat k :: byte) OR 128) AND 127) = k \<and>
      ((word_of_nat k :: byte) OR 128) AND 128 \<noteq> 0) [0..<128]"
    by code_simp
  then show "unat ((word_of_nat k :: byte) AND 127) = k"
    and "(word_of_nat k :: byte) AND 128 = 0"
    and "unat (((word_of_nat k :: byte) OR 128) AND 127) = k"
    and "((word_of_nat k :: byte) OR 128) AND 128 \<noteq> 0"
    using assms by (simp_all add: list_all_iff)
qed

lemma decodeRemainingLength_from_encode:
  "n < 128 ^ k \<Longrightarrow> 0 < k \<Longrightarrow>
   decodeRemainingLength_from k m v (arrived (encodeRemainingLength n) @ rest) = (Inr (v + n * m), rest)"
proof (induction k arbitrary: n m v)
  case (Suc k)
  show ?case
  proof (cases "n div 128 = 0")
    case True
    then have "n < 128" by (simp add: div_eq_0_iff)
    then show ?thesis
      by (simp add: encodeRemainingLength.simps [of n] True enc_byte)
  next
    case False
    with Suc.prems have k: "0 < k" by (cases k) (auto simp: div_eq_0_iff)
    from Suc.prems have "n div 128 < 128 ^ k" by (simp add: less_mult_imp_div_less mult.commute)
    note IH = Suc.IH [OF this k]
    have "n mod 128 * m + n div 128 * (m * 128) = (n mod 128 + n div 128 * 128) * m"
      by (simp only: algebra_simps)
    also have "\<dots> = n * m" by simp
    finally show ?thesis
      by (simp add: encodeRemainingLength.simps [of n] False enc_byte IH)
  qed
qed simp

lemma decodeRemainingLength_encode:
  "n < 2 ^ 28 \<Longrightarrow>
   decodeRemainingLength (arrived (encodeRemainingLength n) @ rest) = (Inr n, rest)"
  using decodeRemainingLength_from_encode [of n 4 1 0 rest]
  by (simp add: decodeRemainingLength_def)

lemma decodeRemainingLengthBytes_from_agrees:
  "decodeRemainingLengthBytes_from k i m v (bs @ rest) = Inr (n, j) \<Longrightarrow>
   \<exists>bs'. length bs' = j - i \<and> i \<le> j \<and> (\<exists>rest'. bs @ rest = bs' @ rest' \<and>
      decodeRemainingLength_from k m v (arrived (bs @ rest)) = (Inr n, arrived rest'))"
proof (induction k arbitrary: i m v bs rest)
  case (Suc k)
  from Suc.prems obtain b data where d: "bs @ rest = b # data" by (cases "bs @ rest") auto
  show ?case
  proof (cases "b AND 128 = 0")
    case True
    with Suc.prems d show ?thesis
      by (intro exI [of _ "[b]"]) (auto simp: Let_def simp del: append_is_Nil_conv)
  next
    case False
    with Suc.prems d have "decodeRemainingLengthBytes_from k (i + 1) (m * 128)
        (v + unat (b AND 127) * m) ([] @ data) = Inr (n, j)" by (simp add: Let_def)
    from Suc.IH [OF this] obtain bs' rest' where
      "length bs' = j - (i + 1)" "i + 1 \<le> j" "data = bs' @ rest'"
      "decodeRemainingLength_from k (m * 128) (v + unat (b AND 127) * m) (arrived data) = (Inr n, arrived rest')"
      by auto
    then show ?thesis using False d
      by (intro exI [of _ "b # bs'"]) (auto simp: Let_def simp del: append_is_Nil_conv arrived_simps(3))
  qed
qed simp

lemma length_encodeRemainingLength_pos [simp]: "encodeRemainingLength n \<noteq> []"
  by (subst encodeRemainingLength.simps) (simp add: Let_def)

lemma decodeRemainingLength_from_overlong:
  "128 ^ k \<le> n \<Longrightarrow>
   fst (decodeRemainingLength_from k m v (arrived (encodeRemainingLength n) @ rest)) = Inl MalformedLength"
proof (induction k arbitrary: n m v)
  case (Suc k)
  then have g: "128 ^ k \<le> n div 128"
    by (simp add: less_eq_div_iff_mult_less_eq mult.commute)
  then have "n div 128 \<noteq> 0" by (metis le_zero_eq power_eq_0_iff zero_neq_numeral)
  with Suc.IH [OF g] show ?case
    by (simp add: encodeRemainingLength.simps [of n] enc_byte)
qed simp

subsection \<open>Framing\<close>

text \<open>
  The writer is a parameter: a function from its state and the bytes of one \<^verbatim>\<open>Write\<close> to the new
  state and an error, if any. \<open>buffer_write\<close> is the writer that never fails.
\<close>

definition packet_header :: "byte \<Rightarrow> byte \<Rightarrow> bytes \<Rightarrow> bytes" where
  "packet_header packetType flags payload =
     (push_bit 4 packetType OR flags) # encodeRemainingLength (length payload)"

definition writePacket ::
  "('w \<Rightarrow> bytes \<Rightarrow> 'w \<times> 'e option) \<Rightarrow> 'w \<Rightarrow> byte \<Rightarrow> byte \<Rightarrow> bytes \<Rightarrow> 'w \<times> 'e option" where
  "writePacket write w packetType flags payload =
     (case write w (packet_header packetType flags payload) of
        (w', Some e) \<Rightarrow> (w', Some e)
      | (w', None) \<Rightarrow> write w' payload)"

definition buffer_write :: "bytes \<Rightarrow> bytes \<Rightarrow> bytes \<times> unit option" where
  "buffer_write w bs = (w @ bs, None)"

definition packet_bytes :: "byte \<Rightarrow> byte \<Rightarrow> bytes \<Rightarrow> bytes" where
  "packet_bytes packetType flags payload = packet_header packetType flags payload @ payload"

lemma writePacket_buffer:
  "writePacket buffer_write w t f p = (w @ packet_bytes t f p, None)"
  by (simp add: writePacket_def buffer_write_def packet_bytes_def)

definition default_limit :: nat where
  "default_limit = 2 ^ 20"

definition readPacketLimit :: "int \<Rightarrow> input \<Rightarrow> (mqtt_error + byte \<times> bytes) \<times> input" where
  "readPacketLimit maximum inp =
     (case read_full 1 inp of
        (Inl e, inp') \<Rightarrow> (Inl (ReadError e), inp')
      | (Inr first, inp') \<Rightarrow>
         (case decodeRemainingLength inp' of
            (Inl e, inp'') \<Rightarrow> (Inl e, inp'')
          | (Inr remaining, inp'') \<Rightarrow>
             (let limit = (if maximum \<le> 0 then default_limit else nat maximum)
              in if limit < remaining then (Inl (PacketTooLarge remaining limit), inp'')
                 else case read_full remaining inp'' of
                     (Inl e, inp3) \<Rightarrow> (Inl (ReadError e), inp3)
                   | (Inr payload, inp3) \<Rightarrow> (Inr (drop_bit 4 (hd first), payload), inp3))))"

definition readPacket :: "input \<Rightarrow> (mqtt_error + byte \<times> bytes) \<times> input" where
  "readPacket inp = readPacketLimit (2 ^ 20) inp"

definition effective_limit :: "int \<Rightarrow> nat" where
  \<comment> \<open>the limit \<^verbatim>\<open>readPacketLimit\<close> applies\<close>
  "effective_limit maximum = (if maximum \<le> 0 then default_limit else nat maximum)"

lemma header_nibble:
  assumes "t < 16" "f < 16"
  shows "drop_bit 4 (push_bit 4 t OR f) = (t :: byte)"
proof -
  have "list_all (\<lambda>i. list_all (\<lambda>j. drop_bit 4 (push_bit 4 (word_of_nat i) OR word_of_nat j) =
      (word_of_nat i :: byte)) [0..<16]) [0..<16]"
    by code_simp
  moreover have "unat t < 16" "unat f < 16"
    using assms by (simp_all add: word_less_nat_alt)
  ultimately have "drop_bit 4 (push_bit 4 (word_of_nat (unat t)) OR word_of_nat (unat f)) =
      (word_of_nat (unat t) :: byte)"
    unfolding list_all_iff by (metis atLeastLessThan_iff le0 set_upt)
  then show ?thesis by simp
qed

lemma readPacketLimit_packet_bytes:
  assumes "t < 16" "f < 16" "length p < 2 ^ 28" "length p \<le> effective_limit m"
  shows "readPacketLimit m (arrived (packet_bytes t f p) @ rest) = (Inr (t, p), rest)"
proof -
  have "decodeRemainingLength (arrived (encodeRemainingLength (length p)) @ arrived p @ rest) =
      (Inr (length p), arrived p @ rest)"
    using assms(3) by (rule decodeRemainingLength_encode)
  moreover note header_nibble [OF assms(1,2), unfolded drop_bit_or]
  ultimately show ?thesis using assms(4)
    by (simp add: readPacketLimit_def packet_bytes_def packet_header_def effective_limit_def Let_def)
qed

lemma decodeRemainingLength_from_shrinks:
  "decodeRemainingLength_from k m v inp = (r, inp') \<Longrightarrow> length inp' \<le> length inp"
proof (induction k m v inp arbitrary: inp' rule: decodeRemainingLength_from.induct)
  case (2 k m v inp)
  show ?case
  proof (cases "read_full 1 inp")
    case (Pair a b)
    then have "length b \<le> length inp" by (rule read_full_length)
    with 2 Pair show ?thesis
      by (fastforce simp: Let_def split: sum.splits if_splits)
  qed
qed simp

lemma read_full_deadline:
  "read_full n inp = (Inl DeadlineExceeded, inp') \<Longrightarrow> length inp' < length inp"
proof -
  have "read_more acc n inp = (Inl DeadlineExceeded, inp') \<Longrightarrow> length inp' < length inp" for acc
    by (induction acc n inp rule: read_more.induct) (auto split: if_splits)
  then show "read_full n inp = (Inl DeadlineExceeded, inp') \<Longrightarrow> length inp' < length inp"
    by (simp add: read_full_def)
qed

lemma decodeRemainingLength_from_deadline:
  "decodeRemainingLength_from k m v inp = (Inl (ReadError DeadlineExceeded), inp') \<Longrightarrow> length inp' < length inp"
proof (induction k m v inp arbitrary: inp' rule: decodeRemainingLength_from.induct)
  case (2 k m v inp)
  show ?case
  proof (cases "read_full 1 inp")
    case (Pair a b)
    then have "length b \<le> length inp" by (rule read_full_length)
    with 2 Pair show ?thesis
      by (fastforce simp: Let_def split: sum.splits if_splits dest: read_full_deadline)
  qed
qed simp

lemma readPacketLimit_deadline:
  "readPacketLimit m inp = (Inl (ReadError DeadlineExceeded), inp') \<Longrightarrow> length inp' < length inp"
  unfolding readPacketLimit_def decodeRemainingLength_def
  by (auto simp: Let_def split: prod.splits sum.splits if_splits
      dest!: read_full_1_length decodeRemainingLength_from_deadline read_full_deadline
      dest: read_full_length decodeRemainingLength_from_shrinks)

lemma readPacketLimit_le:
  "readPacketLimit m inp = (r, inp') \<Longrightarrow> length inp' \<le> length inp"
  unfolding readPacketLimit_def decodeRemainingLength_def
  by (auto simp: Let_def split: prod.splits sum.splits if_splits
      dest!: read_full_length decodeRemainingLength_from_shrinks)

lemma readPacketLimit_shrinks:
  "readPacketLimit m inp = (Inr x, inp') \<Longrightarrow> length inp' < length inp"
  unfolding readPacketLimit_def decodeRemainingLength_def
  by (auto simp: Let_def split: prod.splits sum.splits if_splits
      dest!: read_full_1_length decodeRemainingLength_from_shrinks dest: read_full_length)

subsection \<open>Reading a sequence of frames\<close>

text \<open>
  What a reader on a stream relies on: a value that was encoded is read back, whatever follows
  it. From this alone a sequence of encoded values is read back in order, and the encodings are
  prefix free.
\<close>

fun read_many :: "(input \<Rightarrow> ('e + 'b) \<times> input) \<Rightarrow> nat \<Rightarrow> input \<Rightarrow> ('e + 'b list) \<times> input" where
  "read_many rd 0 inp = (Inr [], inp)"
| "read_many rd (Suc n) inp =
     (case rd inp of
        (Inl e, inp') \<Rightarrow> (Inl e, inp')
      | (Inr x, inp') \<Rightarrow>
          (case read_many rd n inp' of
             (Inl e, inp'') \<Rightarrow> (Inl e, inp'')
           | (Inr xs, inp'') \<Rightarrow> (Inr (x # xs), inp'')))"

locale framing =
  fixes enc :: "'a \<Rightarrow> bytes"
    and seen :: "'a \<Rightarrow> 'b"
    and rd :: "input \<Rightarrow> ('e + 'b) \<times> input"
    and ok :: "'a \<Rightarrow> bool"
  assumes rd_enc: "ok x \<Longrightarrow> rd (arrived (enc x) @ rest) = (Inr (seen x), rest)"
begin

lemma read_sequence:
  "list_all ok xs \<Longrightarrow>
   read_many rd (length xs) (arrived (concat (map enc xs)) @ rest) = (Inr (map seen xs), rest)"
  by (induction xs) (simp_all add: rd_enc)

lemma prefix_free:
  assumes "ok x" "ok y" "enc x @ r = enc y @ s"
  shows "seen x = seen y \<and> r = s"
proof -
  have "rd (arrived (enc x) @ arrived r) = rd (arrived (enc y) @ arrived s)"
    using assms(3) by (metis arrived_simps(3))
  then have "seen x = seen y" "arrived r = arrived s" using assms(1,2) by (simp_all add: rd_enc)
  moreover have "arrived r = arrived s \<Longrightarrow> r = s"
    unfolding arrived_def by (rule map_injective) (auto intro: injI)
  ultimately show ?thesis by simp
qed

end

type_synonym packet = "byte \<times> byte \<times> bytes"

definition packet_ok :: "int \<Rightarrow> packet \<Rightarrow> bool" where
  "packet_ok m = (\<lambda>(t, f, p). t < 16 \<and> f < 16 \<and> length p < 2 ^ 28 \<and> length p \<le> effective_limit m)"

definition enc_packet :: "packet \<Rightarrow> bytes" where
  "enc_packet = (\<lambda>(t, f, p). packet_bytes t f p)"

definition seen_packet :: "packet \<Rightarrow> byte \<times> bytes" where
  "seen_packet = (\<lambda>(t, f, p). (t, p))"

lemmas packet_defs = packet_ok_def enc_packet_def seen_packet_def

interpretation length_frames: framing encodeRemainingLength "\<lambda>n. n" decodeRemainingLength "\<lambda>n. n < 2 ^ 28"
  by unfold_locales (rule decodeRemainingLength_encode)

interpretation packet_frames: framing enc_packet seen_packet "readPacketLimit m" "packet_ok m"
  by unfold_locales (auto simp: packet_defs readPacketLimit_packet_bytes)

end
