(* ===== verification/Mqtt_Payload.thy ===== *)
theory Mqtt_Payload
  imports Mqtt_Packet
begin

section \<open>Payloads of MQTT packets\<close>

text \<open>
  The second half of \<^verbatim>\<open>internal/mqttclient/packet.go\<close>: length-prefixed strings, the payloads the
  client builds (CONNECT, PUBLISH, SUBSCRIBE) and the ones it parses (PUBLISH, CONNACK). The
  readings \<open>broker_connect\<close> and \<open>broker_subscribe\<close> are the layouts of the MQTT standards, written
  independently of the builders, as the specification of what a broker understands.
\<close>

subsection \<open>Strings\<close>

definition be16 :: "16 word \<Rightarrow> bytes" where
  \<comment> \<open>\<^verbatim>\<open>binary.Write(buf, binary.BigEndian, v)\<close>\<close>
  "be16 v = [ucast (drop_bit 8 v), ucast v]"

definition uint16 :: "byte \<Rightarrow> byte \<Rightarrow> nat" where
  \<comment> \<open>\<^verbatim>\<open>int(binary.BigEndian.Uint16(b))\<close>\<close>
  "uint16 hi lo = 256 * unat hi + unat lo"

definition mqttString :: "string \<Rightarrow> bytes" where
  "mqttString value = be16 (word_of_nat (length value)) @ bytes_of value"

lemma unat_low_byte: "unat (ucast (v :: 16 word) :: byte) = unat v mod 256"
  by (simp add: unsigned_ucast_eq take_bit_eq_mod)

lemma unat_high_byte: "unat (ucast (drop_bit 8 (v :: 16 word)) :: byte) = unat v div 256"
proof -
  have v: "unat v < 65536" using unsigned_less [of v] by simp
  then have "unat v div 256 < 256" by (simp add: less_mult_imp_div_less)
  moreover have "unat (drop_bit 8 v) = unat v div 256"
    by (rule trans [OF unat_drop_bit_eq]) (simp add: drop_bit_eq_div)
  ultimately have "unat (drop_bit 8 v) mod 256 = unat v div 256" by simp
  then show ?thesis by (simp only: unsigned_ucast_eq take_bit_eq_mod) simp
qed

lemma be16_Cons: "\<exists>hi lo. be16 v = [hi, lo] \<and> uint16 hi lo = unat v"
proof -
  have "uint16 (ucast (drop_bit 8 v)) (ucast v) = unat v"
    unfolding uint16_def unat_high_byte by (simp add: unat_low_byte)
  then show ?thesis unfolding be16_def by blast
qed

lemma length_be16 [simp]: "length (be16 v) = 2"
  by (simp add: be16_def)

lemma length_mqttString [simp]: "length (mqttString s) = 2 + length s"
  by (simp add: mqttString_def)

lemma mqttString_split:
  "\<exists>hi lo. mqttString s = hi # lo # bytes_of s \<and> uint16 hi lo = length s mod 65536"
proof -
  obtain hi lo where "be16 (word_of_nat (length s)) = [hi, lo]"
      "uint16 hi lo = unat (word_of_nat (length s) :: 16 word)"
    using be16_Cons by blast
  then show ?thesis by (simp add: mqttString_def unat_of_nat)
qed

subsection \<open>Packets the client builds\<close>

record Will =
  Topic :: string
  Payload :: bytes
  Retain :: bool

definition active_will :: "Will option \<Rightarrow> Will option" where
  \<comment> \<open>\<^verbatim>\<open>will != nil && will.Topic != ""\<close>\<close>
  "active_will will = (case will of Some w \<Rightarrow> if Topic w \<noteq> '''' then Some w else None | None \<Rightarrow> None)"

definition connect_flags :: "string \<Rightarrow> string \<Rightarrow> Will option \<Rightarrow> byte" where
  "connect_flags username password will =
     0x02 OR
     (case active_will will of None \<Rightarrow> 0 | Some w \<Rightarrow> 0x04 OR (if Retain w then 0x20 else 0)) OR
     (if username \<noteq> '''' then 0x80 else 0) OR
     (if password \<noteq> '''' then 0x40 else 0)"

definition connectPayload ::
  "string \<Rightarrow> string \<Rightarrow> string \<Rightarrow> 16 word \<Rightarrow> string \<Rightarrow> Will option \<Rightarrow> bytes" where
  "connectPayload clientID username password keepAlive version will =
     mqttString ''MQTT'' @
     (if protocolLevel version = 5 then [5] else [4]) @
     [connect_flags username password will] @
     be16 keepAlive @
     (if protocolLevel version = 5 then [0] else []) @
     mqttString clientID @
     (case active_will will of
        None \<Rightarrow> []
      | Some w \<Rightarrow>
          (if protocolLevel version = 5 then [0] else []) @
          mqttString (Topic w) @
          be16 (word_of_nat (length (Payload w))) @ Payload w) @
     (if username \<noteq> '''' then mqttString username else []) @
     (if password \<noteq> '''' then mqttString password else [])"

definition publishPayload :: "string \<Rightarrow> bytes \<Rightarrow> string \<Rightarrow> bytes" where
  "publishPayload topic payload version =
     mqttString topic @ (if protocolLevel version = 5 then [0] else []) @ payload"

definition subscribePayload :: "16 word \<Rightarrow> string list \<Rightarrow> string \<Rightarrow> bytes" where
  "subscribePayload packet_id topics version =
     be16 packet_id @ (if protocolLevel version = 5 then [0] else []) @
     concat (map (\<lambda>topic. mqttString topic @ [0]) topics)"

subsection \<open>Packets the client parses\<close>

definition parsePublish :: "bytes \<Rightarrow> string \<Rightarrow> mqtt_error + string \<times> bytes" where
  "parsePublish payload version =
     (case payload of
        hi # lo # rest \<Rightarrow>
          (let size = uint16 hi lo in
           if length rest < size then Inl ShortPublishTopic
           else
             (let topic = string_of (take size rest); body = drop size rest in
              if protocolLevel version = 5 then
                (case decodeRemainingLengthBytes body of
                   Inl e \<Rightarrow> Inl e
                 | Inr (propertyLength, used) \<Rightarrow>
                     if length body < used + propertyLength then Inl ShortPublishProperties
                     else Inr (topic, drop (used + propertyLength) body))
              else Inr (topic, body)))
      | _ \<Rightarrow> Inl ShortPublish)"

datatype connack_error =
    UnexpectedPacket byte bytes
  | ShortConnAck bytes
  | Refused5 string byte bytes
  | Refused311 string byte bytes

definition reason_table :: "(byte \<times> string) list" where
  "reason_table =
     [(0x80, ''unspecified error''), (0x81, ''malformed packet''), (0x82, ''protocol error''),
      (0x83, ''implementation specific error''), (0x84, ''unsupported protocol version''),
      (0x85, ''client identifier not valid''), (0x86, ''bad username or password''),
      (0x87, ''not authorized''), (0x88, ''server unavailable''), (0x89, ''server busy''),
      (0x8a, ''banned''), (0x8c, ''bad authentication method''), (0x95, ''packet too large''),
      (0x97, ''quota exceeded''), (0x9c, ''use another server''), (0x9d, ''server moved''),
      (0x9f, ''connection rate exceeded'')]"

definition mqtt5Reason :: "byte \<Rightarrow> string" where
  "mqtt5Reason code = (case map_of reason_table code of Some r \<Rightarrow> r | None \<Rightarrow> ''unknown reason code'')"

definition mqtt311ReturnCode :: "byte \<Rightarrow> string" where
  "mqtt311ReturnCode code =
     (if code = 1 then ''unacceptable protocol version''
      else if code = 2 then ''identifier rejected''
      else if code = 3 then ''server unavailable''
      else if code = 4 then ''bad username or password''
      else if code = 5 then ''not authorized''
      else ''unknown return code'')"

definition connAckError :: "byte \<Rightarrow> bytes \<Rightarrow> string \<Rightarrow> connack_error option" where
  "connAckError packet payload version =
     (if packet \<noteq> packetConnAck then Some (UnexpectedPacket packet payload)
      else if length payload < 2 then Some (ShortConnAck payload)
      else if payload ! 1 = 0 then None
      else let code = payload ! 1 in
        if protocolLevel version = 5 then Some (Refused5 (mqtt5Reason code) code payload)
        else Some (Refused311 (mqtt311ReturnCode code) code payload))"

subsection \<open>What a broker reads\<close>

text \<open>The layout of a string, of binary data and of the two requests, from the standards.\<close>

fun take_bytes :: "bytes \<Rightarrow> (bytes \<times> bytes) option" where
  "take_bytes (hi # lo # rest) =
     (if uint16 hi lo \<le> length rest then Some (take (uint16 hi lo) rest, drop (uint16 hi lo) rest) else None)"
| "take_bytes _ = None"

fun take_byte :: "bytes \<Rightarrow> (byte \<times> bytes) option" where
  "take_byte (b # rest) = Some (b, rest)"
| "take_byte [] = None"

fun take_uint16 :: "bytes \<Rightarrow> (nat \<times> bytes) option" where
  "take_uint16 (hi # lo # rest) = Some (uint16 hi lo, rest)"
| "take_uint16 _ = None"

definition skip_properties :: "nat \<Rightarrow> bytes \<Rightarrow> bytes option" where
  \<comment> \<open>version 5 only: an empty property list\<close>
  "skip_properties level bs =
     (if level = 5 then (case bs of [] \<Rightarrow> None | b # rest \<Rightarrow> if b = 0 then Some rest else None) else Some bs)"

definition take_if :: "bool \<Rightarrow> bytes \<Rightarrow> (bytes option \<times> bytes) option" where
  "take_if present bs =
     (if present then (case take_bytes bs of None \<Rightarrow> None | Some (x, r) \<Rightarrow> Some (Some x, r))
      else Some (None, bs))"

record connect_request =
  level :: nat
  keep_alive :: nat
  client_id :: bytes
  will_message :: "(bytes \<times> bytes \<times> bool) option"
  user_name :: "bytes option"
  pass_word :: "bytes option"

definition broker_will :: "nat \<Rightarrow> byte \<Rightarrow> bytes \<Rightarrow> ((bytes \<times> bytes \<times> bool) option \<times> bytes) option" where
  "broker_will lvl flags bs =
     (if flags AND 0x04 = 0 then (if flags AND 0x38 = 0 then Some (None, bs) else None)
      else
        Option.bind (skip_properties lvl bs) (\<lambda>bs.
        Option.bind (take_bytes bs) (\<lambda>(topic, bs).
        Option.bind (take_bytes bs) (\<lambda>(payload, bs).
        Some (Some (topic, payload, flags AND 0x20 \<noteq> 0), bs)))))"

definition broker_connect :: "bytes \<Rightarrow> connect_request option" where
  \<comment> \<open>\<open>None\<close> for a malformed packet; bit 0 of the flags is reserved and, in version 3.1.1, a
    password needs a user name\<close>
  "broker_connect bs =
     Option.bind (take_bytes bs) (\<lambda>(magic, bs).
     Option.bind (take_byte bs) (\<lambda>(lvl, bs).
     Option.bind (take_byte bs) (\<lambda>(flags, bs).
     Option.bind (take_uint16 bs) (\<lambda>(ka, bs).
     Option.bind (skip_properties (unat lvl) bs) (\<lambda>bs.
     Option.bind (take_bytes bs) (\<lambda>(cid, bs).
     Option.bind (broker_will (unat lvl) flags bs) (\<lambda>(w, bs).
     Option.bind (take_if (flags AND 0x80 \<noteq> 0) bs) (\<lambda>(user, bs).
     Option.bind (take_if (flags AND 0x40 \<noteq> 0) bs) (\<lambda>(pass, bs).
     if magic = bytes_of ''MQTT'' \<and> lvl \<in> {4, 5} \<and> flags AND 1 = 0 \<and> flags AND 2 \<noteq> 0 \<and>
        (lvl = 4 \<longrightarrow> flags AND 0x40 \<noteq> 0 \<longrightarrow> flags AND 0x80 \<noteq> 0) \<and> bs = []
     then Some \<lparr>level = unat lvl, keep_alive = ka, client_id = cid, will_message = w,
                user_name = user, pass_word = pass\<rparr>
     else None)))))))))"

fun broker_filters :: "nat \<Rightarrow> bytes \<Rightarrow> (bytes \<times> byte) list option" where
  \<comment> \<open>the list of topic filters and their quality of service; the first argument bounds its length\<close>
  "broker_filters 0 bs = (if bs = [] then Some [] else None)"
| "broker_filters (Suc n) bs =
     (if bs = [] then Some []
      else
        Option.bind (take_bytes bs) (\<lambda>(topic, bs').
        Option.bind (take_byte bs') (\<lambda>(qos, bs'').
        Option.bind (broker_filters n bs'') (\<lambda>fs. Some ((topic, qos) # fs)))))"

definition broker_subscribe :: "nat \<Rightarrow> bytes \<Rightarrow> (nat \<times> (bytes \<times> byte) list) option" where
  "broker_subscribe lvl bs =
     Option.bind (take_uint16 bs) (\<lambda>(pid, bs).
     Option.bind (skip_properties lvl bs) (\<lambda>bs.
     Option.bind (broker_filters (length bs) bs) (\<lambda>fs. if fs = [] then None else Some (pid, fs))))"

lemma take_bytes_mqttString [simp]:
  assumes "length s < 65536"
  shows "take_bytes (mqttString s @ rest) = Some (bytes_of s, rest)"
proof -
  obtain hi lo where "mqttString s = hi # lo # bytes_of s" "uint16 hi lo = length s mod 65536"
    using mqttString_split by blast
  with assms show ?thesis by simp
qed

lemma take_bytes_be16 [simp]:
  assumes "length p < 65536"
  shows "take_bytes (be16 (word_of_nat (length p)) @ p @ rest) = Some (p, rest)"
proof -
  obtain hi lo where "be16 (word_of_nat (length p)) = [hi, lo]"
      "uint16 hi lo = unat (word_of_nat (length p) :: 16 word)"
    using be16_Cons by blast
  with assms show ?thesis by (simp add: unat_of_nat)
qed

lemma take_uint16_be16 [simp]: "take_uint16 (be16 v @ rest) = Some (unat v, rest)"
proof -
  obtain hi lo where "be16 v = [hi, lo]" "uint16 hi lo = unat v" using be16_Cons by blast
  then show ?thesis by simp
qed

lemma skip_properties_simps [simp]:
  "skip_properties 5 (0 # bs) = Some bs"
  "lvl \<noteq> 5 \<Longrightarrow> skip_properties lvl bs = Some bs"
  by (simp_all add: skip_properties_def)

lemma protocolLevel_cases: "protocolLevel v = 5 \<or> protocolLevel v = 4"
  by (simp add: protocolLevel_def)

subsection \<open>Lemmas about the round trips\<close>

lemma decodeRemainingLengthBytes_zero [simp]: "decodeRemainingLengthBytes (0 # bs) = Inr (0, 1)"
  by (simp add: decodeRemainingLengthBytes_def eval_nat_numeral)

lemma string_of_take_bytes_of: "string_of (take n (bytes_of s)) = take n s"
proof -
  have "string_of (take n (bytes_of s)) = take n (string_of (bytes_of s))"
    by (simp only: string_of_def take_map)
  then show ?thesis by simp
qed

lemma parsePublish_publishPayload_mod:
  \<comment> \<open>the topic length is written modulo \<open>2\<^sup>1\<^sup>6\<close>; with 3.1.1 the rest of an overlong topic is
    read as the beginning of the payload\<close>
  assumes "protocolLevel v = 4"
  shows "parsePublish (publishPayload topic payload v) v =
     Inr (take (length topic mod 65536) topic, drop (length topic mod 65536) (bytes_of topic) @ payload)"
proof -
  obtain hi lo where s: "mqttString topic = hi # lo # bytes_of topic" "uint16 hi lo = length topic mod 65536"
    using mqttString_split by blast
  let ?k = "length topic mod 65536"
  have "?k \<le> length topic" by simp
  then show ?thesis using assms s
    by (simp add: parsePublish_def publishPayload_def Let_def string_of_take_bytes_of)
qed

lemma parsePublish_publishPayload_short:
  assumes "length topic < 65536"
  shows "parsePublish (publishPayload topic payload v) v = Inr (topic, payload)"
proof (cases "protocolLevel v = 5")
  case True
  obtain hi lo where s: "mqttString topic = hi # lo # bytes_of topic" "uint16 hi lo = length topic mod 65536"
    using mqttString_split by blast
  with assms True show ?thesis
    by (simp add: parsePublish_def publishPayload_def Let_def)
next
  case False
  with protocolLevel_cases have "protocolLevel v = 4" by blast
  from parsePublish_publishPayload_mod [OF this, of topic payload] assms show ?thesis by simp
qed

lemma broker_filters_concat:
  "list_all (\<lambda>t. length t < 65536) topics \<Longrightarrow> length (concat (map (\<lambda>t. mqttString t @ [0]) topics)) \<le> n \<Longrightarrow>
   broker_filters n (concat (map (\<lambda>t. mqttString t @ [0]) topics)) = Some (map (\<lambda>t. (bytes_of t, 0)) topics)"
proof (induction topics arbitrary: n)
  case Nil
  then show ?case by (cases n) simp_all
next
  case (Cons t topics)
  then obtain k where n: "n = Suc k" by (cases n) auto
  with Cons.prems have "length (concat (map (\<lambda>t. mqttString t @ [0]) topics)) \<le> k"
    "list_all (\<lambda>t. length t < 65536) topics" by simp_all
  note IH = Cons.IH [OF this(2,1)]
  have ne: "mqttString t \<noteq> []" by (metis length_mqttString list.size(3) zero_neq_numeral add_is_0)
  show ?case using Cons.prems IH n ne by simp
qed

lemma connect_flags_bits:
  fixes username password :: string and will :: "Will option"
  defines "fl \<equiv> connect_flags username password will"
  shows "fl AND 1 = 0" "fl AND 2 \<noteq> 0" "fl AND 0x80 \<noteq> 0 \<longleftrightarrow> username \<noteq> ''''"
    "fl AND 0x40 \<noteq> 0 \<longleftrightarrow> password \<noteq> ''''" "fl AND 0x04 \<noteq> 0 \<longleftrightarrow> active_will will \<noteq> None"
    "active_will will = Some w \<Longrightarrow> fl AND 0x20 \<noteq> 0 \<longleftrightarrow> Retain w"
    "active_will will = None \<Longrightarrow> fl AND 0x38 = 0"
  by (auto simp: fl_def connect_flags_def split: option.splits)

lemma broker_will_part:
  assumes "\<And>w. active_will will = Some w \<Longrightarrow> length (Topic w) < 65536 \<and> length (Payload w) < 65536"
    and lvl: "lvl = protocolLevel version"
  shows "broker_will lvl (connect_flags username password will)
     ((case active_will will of
        None \<Rightarrow> []
      | Some w \<Rightarrow> (if protocolLevel version = 5 then [0] else []) @
          mqttString (Topic w) @ be16 (word_of_nat (length (Payload w))) @ Payload w) @ rest) =
     Some (map_option (\<lambda>w. (bytes_of (Topic w), Payload w, Retain w)) (active_will will), rest)"
proof (cases "active_will will")
  case None
  with connect_flags_bits [where username = username and password = password and will = will] show ?thesis by (simp add: broker_will_def)
next
  case (Some w)
  with assms have len: "length (Topic w) < 65536" "length (Payload w) < 65536" by simp_all
  have fl: "connect_flags username password will AND 4 \<noteq> 0"
    "connect_flags username password will AND 0x20 \<noteq> 0 \<longleftrightarrow> Retain w"
    using Some connect_flags_bits [where username = username and password = password and will = will] by simp_all
  have pr: "skip_properties lvl ((if protocolLevel version = 5 then [0] else []) @ bs) = Some bs" for bs
    using lvl by simp
  show ?thesis using Some fl len
    by (simp add: broker_will_def pr)
qed

lemma take_if_part:
  "length s < 65536 \<Longrightarrow>
   take_if P ((if P then mqttString s else []) @ rest) = Some (if P then Some (bytes_of s) else None, rest)"
  by (simp add: take_if_def)

definition connect_view :: "string \<Rightarrow> string \<Rightarrow> string \<Rightarrow> 16 word \<Rightarrow> string \<Rightarrow> Will option \<Rightarrow> connect_request" where
  \<comment> \<open>what the arguments of \<^verbatim>\<open>connectPayload\<close> ask for\<close>
  "connect_view clientID username password keepAlive version will =
     \<lparr>level = protocolLevel version, keep_alive = unat keepAlive, client_id = bytes_of clientID,
      will_message = map_option (\<lambda>w. (bytes_of (Topic w), Payload w, Retain w)) (active_will will),
      user_name = (if username = '''' then None else Some (bytes_of username)),
      pass_word = (if password = '''' then None else Some (bytes_of password))\<rparr>"

definition connect_fits :: "string \<Rightarrow> string \<Rightarrow> string \<Rightarrow> Will option \<Rightarrow> bool" where
  \<comment> \<open>every string fits its 16-bit length\<close>
  "connect_fits clientID username password will \<longleftrightarrow>
     length clientID < 65536 \<and> length username < 65536 \<and> length password < 65536 \<and>
     (case active_will will of None \<Rightarrow> True
      | Some w \<Rightarrow> length (Topic w) < 65536 \<and> length (Payload w) < 65536)"

text \<open>C26: A broker that reads the CONNECT payload by the layout of the standard finds exactly the
  requested client, keep-alive, will and credentials, for both protocol versions, as long as every
  string fits its length field; the one exception is 3.1.1 with a password and no user name, which
  the packet announces although the standard forbids it.\<close>

theorem broker_connect_connectPayload:
  assumes fits: "connect_fits clientID username password will"
  shows "broker_connect (connectPayload clientID username password keepAlive version will) =
     (if protocolLevel version = 4 \<and> password \<noteq> '''' \<and> username = '''' then None
      else Some (connect_view clientID username password keepAlive version will))"
proof -
  let ?fl = "connect_flags username password will"
  define lvl where "lvl = (if protocolLevel version = 5 then 5 else 4 :: byte)"
  have lvl: "(if protocolLevel version = 5 then [5] else [4]) = [lvl]" "unat lvl = protocolLevel version"
    "lvl = 5 \<or> lvl = 4" "lvl = 4 \<longleftrightarrow> protocolLevel version = 4"
    using protocolLevel_cases [of version] by (auto simp: lvl_def)
  have f: "?fl AND 1 = 0" "?fl AND 2 \<noteq> 0" "?fl AND 0x80 \<noteq> 0 \<longleftrightarrow> username \<noteq> ''''"
    "?fl AND 0x40 \<noteq> 0 \<longleftrightarrow> password \<noteq> ''''"
    using connect_flags_bits [where username = username and password = password and will = will] by simp_all
  have will: "broker_will (protocolLevel version) ?fl
     ((case active_will will of
        None \<Rightarrow> []
      | Some w \<Rightarrow> (if protocolLevel version = 5 then [0] else []) @
          mqttString (Topic w) @ be16 (word_of_nat (length (Payload w))) @ Payload w) @ rest) =
     Some (map_option (\<lambda>w. (bytes_of (Topic w), Payload w, Retain w)) (active_will will), rest)" for rest
    by (rule broker_will_part) (use fits in \<open>auto simp: connect_fits_def\<close>)
  have len: "length clientID < 65536" "length username < 65536" "length password < 65536"
    using fits by (simp_all add: connect_fits_def)
  have pr: "skip_properties (protocolLevel version)
      ((if protocolLevel version = 5 then [0] else []) @ bs) = Some bs" for bs by simp
  have user: "take_if (?fl AND 0x80 \<noteq> 0) ((if username \<noteq> '''' then mqttString username else []) @ rest) =
      Some (if username = '''' then None else Some (bytes_of username), rest)" for rest
    unfolding f(3) using take_if_part [OF len(2)] by simp
  have pass: "take_if (?fl AND 0x40 \<noteq> 0) (if password \<noteq> '''' then mqttString password else []) =
      Some (if password = '''' then None else Some (bytes_of password), [])"
    unfolding f(4) using take_if_part [OF len(3), of "password \<noteq> ''''" "[]"] by simp
  have magic: "length ''MQTT'' < 65536" by simp
  have "broker_connect (connectPayload clientID username password keepAlive version will) =
     (if (lvl = 4 \<longrightarrow> ?fl AND 0x40 \<noteq> 0 \<longrightarrow> ?fl AND 0x80 \<noteq> 0)
      then Some (connect_view clientID username password keepAlive version will) else None)"
    unfolding broker_connect_def connectPayload_def lvl(1)
    using lvl(3) f(1,2)
    by (simp only: take_bytes_mqttString [OF magic] take_bytes_mqttString [OF len(1)] take_byte.simps
        take_uint16_be16 bind.bind_lunit prod.case append_Cons append_Nil lvl(2) pr will user pass
        connect_view_def) auto
  then show ?thesis unfolding f(3,4) lvl(4) by auto
qed

lemma broker_connect_connectPayload_witness:
  "broker_connect (connectPayload ''kiosk'' ''ha'' ''secret'' 30 ''3.1.1''
      (Some \<lparr>Topic = ''k/avail'', Payload = bytes_of ''offline'', Retain = True\<rparr>)) =
     Some (connect_view ''kiosk'' ''ha'' ''secret'' 30 ''3.1.1''
      (Some \<lparr>Topic = ''k/avail'', Payload = bytes_of ''offline'', Retain = True\<rparr>)) \<and>
   broker_connect (connectPayload ''kiosk'' '''' ''secret'' 30 ''3.1.1'' None) = None"
  using broker_connect_connectPayload [of "''kiosk''" "''ha''" "''secret''"
      "Some \<lparr>Topic = ''k/avail'', Payload = bytes_of ''offline'', Retain = True\<rparr>" 30 "''3.1.1''"]
    broker_connect_connectPayload [of "''kiosk''" "''''" "''secret''" None 30 "''3.1.1''"]
  by (simp add: connect_fits_def active_will_def protocolLevel_def)

text \<open>A PUBLISH payload the client builds for 3.1.1 is read back with its topic and payload when
  the topic has fewer than 65536 bytes; a longer topic is cut at its length modulo 65536 and the
  rest of it is delivered as the beginning of the payload.\<close>

theorem publish_topic_wraps:
  assumes "protocolLevel v = 4"
  shows "parsePublish (publishPayload topic payload v) v =
     Inr (take (length topic mod 65536) topic, drop (length topic mod 65536) (bytes_of topic) @ payload)"
  using assms by (rule parsePublish_publishPayload_mod)

lemma publish_topic_wraps_witness:
  "parsePublish (publishPayload (replicate 65537 CHR ''a'') [] ''3.1.1'') ''3.1.1'' =
     Inr (''a'', drop 1 (bytes_of (replicate 65537 CHR ''a'')))"
proof -
  have "take 1 (replicate 65537 CHR ''a'') = ''a''" by (simp add: take_replicate)
  then show ?thesis
    using publish_topic_wraps [of "''3.1.1''" "replicate 65537 CHR ''a''" "[]"]
    by (simp add: protocolLevel_def)
qed

end
