(* ===== verification/Go_Time.thy ===== *)
theory Go_Time
  imports Go_Prelude
begin

section \<open>Instants, zones and calendar days\<close>

text \<open>
  A \<^verbatim>\<open>time.Time\<close> is the number of nanoseconds since 0001-01-01 00:00 UTC, the instant of Go's
  zero value, so \<^verbatim>\<open>IsZero\<close> is \<open>t = 0\<close>; a \<^verbatim>\<open>time.Duration\<close> is a number of nanoseconds. Both are
  integers without the 64-bit limit (the sources stay within hours and days of the current time).
  A calendar date is represented by its day number since 0001-01-01, a Monday: the sources
  compare dates, add days to them and ask for their weekday, and the day number determines all
  of these; the date strings of \<^verbatim>\<open>Format("2006-01-02")\<close>, which are compared for equality only,
  are represented by it too.

  A \<^verbatim>\<open>*time.Location\<close> is what \<^verbatim>\<open>(*Location).lookup\<close> of the Go library reads from the time zone
  database (data that is not part of the sources): for a UTC second the offset in force and the
  half-open range of UTC seconds it is in force for. \<open>mk_time\<close> is the library's \<^verbatim>\<open>time.Date\<close>, its
  second look-up included.
\<close>

type_synonym time = int
type_synonym duration = int
type_synonym zone = "int \<Rightarrow> int \<times> int \<times> int"

abbreviation (input) zero_time :: time where
  "zero_time \<equiv> 0"

definition Second :: duration where "Second = 1000000000"
definition Minute :: duration where "Minute = 60 * Second"
definition Hour :: duration where "Hour = 60 * Minute"

lemmas duration_units = Hour_def Minute_def Second_def

abbreviation offset_at :: "zone \<Rightarrow> int \<Rightarrow> int" where
  "offset_at z s \<equiv> fst (z s)"

definition local_seconds :: "zone \<Rightarrow> time \<Rightarrow> int" where
  "local_seconds z t = (let s = t div Second in s + offset_at z s)"

definition daynum :: "zone \<Rightarrow> time \<Rightarrow> int" where
  "daynum z t = local_seconds z t div 86400"

definition hour_of :: "zone \<Rightarrow> time \<Rightarrow> int" where
  "hour_of z t = local_seconds z t mod 86400 div 3600"

definition minute_of :: "zone \<Rightarrow> time \<Rightarrow> int" where
  "minute_of z t = local_seconds z t mod 3600 div 60"

definition minute_of_day :: "zone \<Rightarrow> time \<Rightarrow> int" where
  \<comment> \<open>\<^verbatim>\<open>now.Hour()*60 + now.Minute()\<close>\<close>
  "minute_of_day z t = hour_of z t * 60 + minute_of z t"

definition weekday_of_day :: "int \<Rightarrow> nat" where
  \<comment> \<open>0 is Sunday, as in package \<^verbatim>\<open>time\<close>\<close>
  "weekday_of_day d = nat ((d + 1) mod 7)"

definition weekday_of :: "zone \<Rightarrow> time \<Rightarrow> nat" where
  "weekday_of z t = weekday_of_day (daynum z t)"

definition weekday_name :: "nat \<Rightarrow> string" where
  "weekday_name w =
     [''Sunday'', ''Monday'', ''Tuesday'', ''Wednesday'', ''Thursday'', ''Friday'', ''Saturday''] ! w"

definition mk_seconds :: "zone \<Rightarrow> int \<Rightarrow> int" where
  \<comment> \<open>the UTC second of a local second count, as \<^verbatim>\<open>time.Date\<close> finds it\<close>
  "mk_seconds z s =
     (let (off, start, end1) = z s in
      if off = 0 then s
      else let utc = s - off in
        if utc < start \<or> end1 \<le> utc then s - offset_at z utc else utc)"

definition mk_time :: "zone \<Rightarrow> int \<Rightarrow> int \<Rightarrow> int \<Rightarrow> time" where
  \<comment> \<open>\<^verbatim>\<open>time.Date\<close> of a day, an hour and a minute, both possibly outside their usual range\<close>
  "mk_time z day hour minute = mk_seconds z (day * 86400 + hour * 3600 + minute * 60) * Second"

definition clock_seconds :: "zone \<Rightarrow> time \<Rightarrow> int" where
  "clock_seconds z t = local_seconds z t mod 86400"

definition add_days :: "zone \<Rightarrow> time \<Rightarrow> int \<Rightarrow> time" where
  \<comment> \<open>\<^verbatim>\<open>t.AddDate(0, 0, n)\<close>\<close>
  "add_days z t n =
     mk_seconds z ((daynum z t + n) * 86400 + clock_seconds z t) * Second + t mod Second"

definition fixed_zone :: "int \<Rightarrow> zone" where
  \<comment> \<open>a location whose offset never changes\<close>
  "fixed_zone off = (\<lambda>_. (off, - (2 ^ 63), 2 ^ 63 - 1))"

abbreviation utc_zone :: zone where
  "utc_zone \<equiv> fixed_zone 0"

lemmas time_defs = local_seconds_def daynum_def hour_of_def minute_of_def minute_of_day_def
  weekday_of_day_def weekday_of_def mk_seconds_def mk_time_def clock_seconds_def add_days_def
  duration_units

lemma div_3600_60: "(q :: int) div 60 = q div 3600 * 60 + q mod 3600 div 60"
proof -
  have "q = q mod 3600 + 60 * (q div 3600 * 60)" by simp
  then have "q div 60 = (q mod 3600 + 60 * (q div 3600 * 60)) div 60" by simp
  also have "\<dots> = q div 3600 * 60 + q mod 3600 div 60" by (subst div_mult_self2) simp_all
  finally show ?thesis .
qed

lemma minute_of_day_div: "minute_of_day z t = local_seconds z t mod 86400 div 60"
proof -
  have "local_seconds z t mod 86400 mod 3600 = local_seconds z t mod 3600"
    by (rule mod_mod_cancel) simp
  then show ?thesis
    using div_3600_60 [of "local_seconds z t mod 86400"]
    by (simp add: minute_of_day_def hour_of_def minute_of_def)
qed

lemma minute_of_day_range: "0 \<le> minute_of_day z t \<and> minute_of_day z t < 1440"
proof -
  have "0 \<le> local_seconds z t mod 86400" "local_seconds z t mod 86400 < 86400" by simp_all
  then show ?thesis unfolding minute_of_day_div by linarith
qed

lemma weekday_lt [simp]: "weekday_of_day d < 7"
  by (simp add: weekday_of_day_def nat_less_iff)

lemma weekday_name_length: "w < 7 \<Longrightarrow> 3 \<le> length (weekday_name w)"
proof -
  have "list_all (\<lambda>w. 3 \<le> length (weekday_name w)) [0..<7]" by code_simp
  then show "w < 7 \<Longrightarrow> 3 \<le> length (weekday_name w)" by (auto simp: list_all_iff)
qed

subsection \<open>Locations with a fixed offset\<close>

lemma mk_seconds_fixed [simp]: "mk_seconds (fixed_zone off) s = s - off"
  by (simp add: mk_seconds_def fixed_zone_def Let_def)

lemma local_seconds_fixed [simp]: "local_seconds (fixed_zone off) t = t div Second + off"
  by (simp add: local_seconds_def fixed_zone_def)

lemma mk_time_fixed: "mk_time (fixed_zone off) d h m = (d * 86400 + h * 3600 + m * 60 - off) * Second"
  by (simp add: mk_time_def)

lemma Second_pos [simp]: "0 < Second"
  by (simp add: Second_def)

lemma day_split: "0 \<le> c \<Longrightarrow> c < 86400 \<Longrightarrow> (d * 86400 + c) div 86400 = (d :: int) \<and> (d * 86400 + c) mod 86400 = c"
  by simp

lemma local_seconds_mk_time_fixed:
  "local_seconds (fixed_zone off) (mk_time (fixed_zone off) d h m) = d * 86400 + (h * 3600 + m * 60)"
proof -
  have "(d * 86400 + h * 3600 + m * 60 - off) * Second div Second = d * 86400 + h * 3600 + m * 60 - off"
    by (rule nonzero_mult_div_cancel_right) (simp add: Second_def)
  then show ?thesis by (simp add: mk_time_fixed)
qed

lemma daynum_mk_time_fixed:
  "0 \<le> h * 3600 + m * 60 \<Longrightarrow> h * 3600 + m * 60 < 86400 \<Longrightarrow>
   daynum (fixed_zone off) (mk_time (fixed_zone off) d h m) = d"
  unfolding daynum_def local_seconds_mk_time_fixed using day_split by blast

lemma minute_of_day_mk_time_fixed:
  assumes "0 \<le> m" "m < 1440"
  shows "minute_of_day (fixed_zone off) (mk_time (fixed_zone off) d (m div 60) (m mod 60)) = m"
proof -
  have c: "m div 60 * 3600 + m mod 60 * 60 = 60 * m"
    using div_mult_mod_eq [of m 60] by linarith
  with assms have "(d * 86400 + (m div 60 * 3600 + m mod 60 * 60)) mod 86400 = 60 * m"
    using day_split [of "60 * m" d] by simp
  then show ?thesis by (simp only: minute_of_day_div local_seconds_mk_time_fixed)
qed

lemma add_days_mk_time_fixed:
  assumes "0 \<le> h * 3600 + m * 60" "h * 3600 + m * 60 < 86400"
  shows "add_days (fixed_zone off) (mk_time (fixed_zone off) d h m) n = mk_time (fixed_zone off) (d + n) h m"
proof -
  have "clock_seconds (fixed_zone off) (mk_time (fixed_zone off) d h m) = h * 3600 + m * 60"
    unfolding clock_seconds_def local_seconds_mk_time_fixed using assms day_split by blast
  moreover have "mk_time (fixed_zone off) d h m mod Second = 0" by (simp add: mk_time_def)
  ultimately have "add_days (fixed_zone off) (mk_time (fixed_zone off) d h m) n =
      ((d + n) * 86400 + (h * 3600 + m * 60) - off) * Second"
    unfolding add_days_def daynum_mk_time_fixed [OF assms] by simp
  then show ?thesis by (simp add: mk_time_fixed algebra_simps)
qed

end
