(* ===== verification/Mqtt_Client.thy ===== *)
theory Mqtt_Client
  imports Mqtt_Payload Go_Time
begin

section \<open>The MQTT client\<close>

text \<open>
  \<^verbatim>\<open>internal/mqttclient/client.go\<close>: connecting, publishing, pinging, subscribing and closing. A
  connection is a \<open>link\<close>: the input still to arrive, the bytes written so far and the outcome of
  the next writes (a write succeeds when nothing is foreseen for it). What the operating system,
  the resolver and the TLS library do is a record of functions, \<open>net\<close>. The links the client has
  closed are kept in \<open>closed\<close>, newest first, so that what was written on them stays visible. The
  client's mutex makes every operation here atomic, \<^verbatim>\<open>Subscribe\<close>'s loop runs with no other
  operation in between, and the messages its handler receives are returned in order.
\<close>

subsection \<open>State\<close>

record link =
  inbox :: input
  sent :: bytes
  write_fails :: "bool list"

record Client =
  URL :: string
  ClientID :: string
  Username :: string
  Password :: string
  Version :: string
  Timeout :: duration
  KeepAlive :: duration
  WillTopic :: string
  WillPayload :: bytes
  WillRetain :: bool
  CAFile :: string
  CertFile :: string
  KeyFile :: string
  ServerName :: string
  InsecureSkipVerify :: bool
  MaxPacketBytes :: int
  conn :: "link option"
  next_id :: "16 word"
  closed :: "link list"

record url_parts =
  Scheme :: string
  Host :: string
  Hostname :: string

record tls_config =
  tls_server_name :: string
  tls_insecure :: bool
  tls_roots :: "string option"
  tls_certificate :: "(string \<times> string) option"

datatype client_error =
    UrlError
  | UnsupportedScheme string
  | MissingHost
  | CAUnreadable
  | CAInvalid
  | CertificateWithoutKey
  | CertificateUnreadable
  | DialError
  | DeadlineError
  | WriteError
  | PacketError mqtt_error
  | ConnAckFailed connack_error
  | UnexpectedPing byte
  | NoPingResp mqtt_error

record net =
  parse_url :: "string \<Rightarrow> url_parts option"
  split_host_port :: "string \<Rightarrow> bool"
  dial :: "string \<Rightarrow> tls_config option \<Rightarrow> link option"
  deadline_ok :: bool
  read_file :: "string \<Rightarrow> string option"
  pem_ok :: "string \<Rightarrow> bool"
  key_pair_ok :: "string \<Rightarrow> string \<Rightarrow> bool"

subsection \<open>Settings\<close>

definition timeout :: "Client \<Rightarrow> duration" where
  "timeout c = (if Timeout c > 0 then Timeout c else 6 * Second)"

definition keepAlive :: "Client \<Rightarrow> 16 word" where
  "keepAlive c =
     (if KeepAlive c \<le> 0 then 30
      else let seconds = KeepAlive c div Second in
        if seconds \<le> 0 then 30 else if 65535 < seconds then 65535 else word_of_int seconds)"

definition maxPacketBytes :: "Client \<Rightarrow> int" where
  "maxPacketBytes c =
     (if MaxPacketBytes c \<le> 0 then 2 ^ 20
      else if 256 * 2 ^ 20 < MaxPacketBytes c then 256 * 2 ^ 20 else MaxPacketBytes c)"

definition tlsConfig :: "net \<Rightarrow> Client \<Rightarrow> string \<Rightarrow> client_error + tls_config" where
  "tlsConfig env c defaultServerName =
     (let trimmed = trim_space (ServerName c);
          serverName = (if trimmed = '''' then defaultServerName else trimmed);
          ca = trim_space (CAFile c);
          certFile = trim_space (CertFile c); keyFile = trim_space (KeyFile c);
          with_pair = (\<lambda>roots.
            if (certFile = '''') \<noteq> (keyFile = '''') then Inl CertificateWithoutKey
            else if certFile \<noteq> '''' \<and> \<not> key_pair_ok env certFile keyFile then Inl CertificateUnreadable
            else Inr \<lparr>tls_server_name = serverName, tls_insecure = InsecureSkipVerify c, tls_roots = roots,
                      tls_certificate = (if certFile \<noteq> '''' then Some (certFile, keyFile) else None)\<rparr>)
      in if ca \<noteq> '''' then
           (case read_file env ca of
              None \<Rightarrow> Inl CAUnreadable
            | Some pem \<Rightarrow> if \<not> pem_ok env pem then Inl CAInvalid else with_pair (Some pem))
         else with_pair None)"

subsection \<open>Reading and writing on a link\<close>

definition link_write :: "link \<Rightarrow> bytes \<Rightarrow> link \<times> client_error option" where
  "link_write l bs =
     (case write_fails l of
        True # fs \<Rightarrow> (l\<lparr>write_fails := fs\<rparr>, Some WriteError)
      | False # fs \<Rightarrow> (l\<lparr>write_fails := fs, sent := sent l @ bs\<rparr>, None)
      | [] \<Rightarrow> (l\<lparr>sent := sent l @ bs\<rparr>, None))"

definition link_read :: "int \<Rightarrow> link \<Rightarrow> (mqtt_error + byte \<times> bytes) \<times> link" where
  "link_read m l = (let (r, inp) = readPacketLimit m (inbox l) in (r, l\<lparr>inbox := inp\<rparr>))"

definition closeLocked :: "Client \<Rightarrow> Client" where
  "closeLocked c =
     (case conn c of
        None \<Rightarrow> c
      | Some l \<Rightarrow>
          c\<lparr>conn := None, closed := fst (writePacket link_write l packetDisconnect 0 []) # closed c\<rparr>)"

subsection \<open>Connecting\<close>

definition join_host_port :: "string \<Rightarrow> string \<Rightarrow> string" where
  \<comment> \<open>\<^verbatim>\<open>net.JoinHostPort\<close>\<close>
  "join_host_port host port =
     (if contains_any host '':%'' then ''['' @ host @ '']:'' @ port else host @ '':'' @ port)"

definition dial_target :: "net \<Rightarrow> url_parts \<Rightarrow> string" where
  "dial_target env u =
     (if split_host_port env (Host u) then Host u
      else if Scheme u = ''mqtts'' then join_host_port (Host u) ''8883''
      else join_host_port (Host u) ''1883'')"

definition open_link :: "net \<Rightarrow> Client \<Rightarrow> client_error + link" where
  "open_link env c =
     (case parse_url env (URL c) of
        None \<Rightarrow> Inl UrlError
      | Some u \<Rightarrow>
          if Scheme u \<noteq> ''mqtt'' \<and> Scheme u \<noteq> ''mqtts'' then Inl (UnsupportedScheme (Scheme u))
          else if Host u = '''' then Inl MissingHost
          else let host = dial_target env u in
            case (if Scheme u = ''mqtts'' then map_sum id Some (tlsConfig env c (Hostname u)) else Inr None) of
              Inl e \<Rightarrow> Inl e
            | Inr cfg \<Rightarrow> (case dial env host cfg of None \<Rightarrow> Inl DialError | Some l \<Rightarrow> Inr l))"

definition client_will :: "Client \<Rightarrow> Will option" where
  "client_will c =
     (if trim_space (WillTopic c) \<noteq> ''''
      then Some \<lparr>Topic = WillTopic c, Payload = WillPayload c, Retain = WillRetain c\<rparr> else None)"

definition handshake :: "net \<Rightarrow> Client \<Rightarrow> link \<Rightarrow> client_error option \<times> link" where
  \<comment> \<open>what \<^verbatim>\<open>connectLocked\<close> does on the link it opened: the CONNECT packet, then its answer\<close>
  "handshake env c l =
     (if \<not> deadline_ok env then (Some DeadlineError, l)
      else case writePacket link_write l packetConnect 0
          (connectPayload (ClientID c) (Username c) (Password c) (keepAlive c) (Version c) (client_will c)) of
        (l', Some e) \<Rightarrow> (Some e, l')
      | (l', None) \<Rightarrow>
          (case link_read (maxPacketBytes c) l' of
             (Inl e, l'') \<Rightarrow> (Some (PacketError e), l'')
           | (Inr (packet, payload), l'') \<Rightarrow>
               (map_option ConnAckFailed (connAckError packet payload (Version c)), l'')))"

definition connectLocked :: "net \<Rightarrow> Client \<Rightarrow> client_error option \<times> Client" where
  "connectLocked env c =
     (if conn c \<noteq> None then (None, c)
      else case open_link env c of
        Inl e \<Rightarrow> (Some e, c)
      | Inr l \<Rightarrow>
          (case handshake env c l of
             (Some e, l') \<Rightarrow> (Some e, closeLocked (c\<lparr>conn := Some l'\<rparr>))
           | (None, l') \<Rightarrow> (None, c\<lparr>conn := Some l'\<rparr>)))"

subsection \<open>Publishing and pinging\<close>

definition Publish :: "net \<Rightarrow> Client \<Rightarrow> string \<Rightarrow> bytes \<Rightarrow> bool \<Rightarrow> client_error option \<times> Client" where
  "Publish env c topic payload retained =
     (case connectLocked env c of
        (Some e, c') \<Rightarrow> (Some e, c')
      | (None, c') \<Rightarrow>
          (let flags = (if retained then 1 else 0) in
           case writePacket link_write (the (conn c')) packetPublish flags
               (publishPayload topic payload (Version c')) of
             (l, Some e) \<Rightarrow> (Some e, closeLocked (c'\<lparr>conn := Some l\<rparr>))
           | (l, None) \<Rightarrow> (None, c'\<lparr>conn := Some l\<rparr>)))"

definition Ping :: "net \<Rightarrow> Client \<Rightarrow> client_error option \<times> Client" where
  "Ping env c =
     (case connectLocked env c of
        (Some e, c') \<Rightarrow> (Some e, c')
      | (None, c') \<Rightarrow>
          (case writePacket link_write (the (conn c')) packetPingReq 0 [] of
             (l, Some e) \<Rightarrow> (Some e, closeLocked (c'\<lparr>conn := Some l\<rparr>))
           | (l, None) \<Rightarrow>
               (case link_read (maxPacketBytes c') l of
                  (Inl e, l') \<Rightarrow>
                    if e \<noteq> ReadError EOF
                    then (Some (PacketError e), closeLocked (c'\<lparr>conn := Some l'\<rparr>))
                    else (Some (UnexpectedPing 0), c'\<lparr>conn := Some l'\<rparr>)
                | (Inr (packet, _), l') \<Rightarrow>
                    (if packet \<noteq> packetPingResp then Some (UnexpectedPing packet) else None,
                     c'\<lparr>conn := Some l'\<rparr>))))"

subsection \<open>Subscribing\<close>

definition next_packet_id :: "16 word \<Rightarrow> 16 word" where
  "next_packet_id n = (if n + 1 = 0 then 1 else n + 1)"

definition dispatch :: "string \<Rightarrow> byte \<times> bytes \<Rightarrow> (string \<times> bytes) list" where
  \<comment> \<open>the handler call for one packet, if it is a PUBLISH that parses\<close>
  "dispatch version = (\<lambda>(packet, payload).
     if packet = packetPublish then
       (case parsePublish payload version of Inr m \<Rightarrow> [m] | Inl _ \<Rightarrow> [])
     else [])"

lemma link_read_shrinks:
  "link_read m l = (Inr x, l') \<Longrightarrow> length (inbox l') < length (inbox l)"
  by (auto simp: link_read_def split: prod.splits dest: readPacketLimit_shrinks)

lemma link_read_deadline:
  "link_read m l = (Inl (ReadError DeadlineExceeded), l') \<Longrightarrow> length (inbox l') < length (inbox l)"
  by (auto simp: link_read_def split: prod.splits dest: readPacketLimit_deadline)

lemma link_read_le: "link_read m l = (r, l') \<Longrightarrow> length (inbox l') \<le> length (inbox l)"
  by (auto simp: link_read_def split: prod.splits dest: readPacketLimit_le)

lemma inbox_link_write [simp]: "inbox (fst (link_write l bs)) = inbox l"
  by (simp add: link_write_def split: list.split bool.split)

lemma inbox_writePacket [simp]: "inbox (fst (writePacket link_write l t f p)) = inbox l"
proof (cases "link_write l (packet_header t f p)")
  case (Pair l' e)
  then have "inbox l' = inbox l" using inbox_link_write [of l] by (metis fst_conv)
  with Pair show ?thesis by (simp add: writePacket_def split: option.split)
qed

function awaitPingResp ::
  "int \<Rightarrow> string \<Rightarrow> link \<Rightarrow> (string \<times> bytes) list \<Rightarrow> client_error option \<times> link \<times> (string \<times> bytes) list" where
  "awaitPingResp m version l handled =
     (case link_read m l of
        (Inl e, l') \<Rightarrow> (Some (NoPingResp e), l', handled)
      | (Inr (packet, payload), l') \<Rightarrow>
          if packet = packetPingResp then (None, l', handled)
          else awaitPingResp m version l' (handled @ dispatch version (packet, payload)))"
  by pat_completeness auto
termination
  by (relation "measure (\<lambda>(m, v, l, h). length (inbox l))") (auto dest!: sym [THEN link_read_shrinks])

declare awaitPingResp.simps [simp del]

lemma awaitPingResp_le:
  "awaitPingResp m v l h = (r, l', h') \<Longrightarrow> length (inbox l') \<le> length (inbox l)"
proof (induction m v l h rule: awaitPingResp.induct)
  case (1 m v l h)
  show ?case
  proof (cases "link_read m l")
    case (Pair a l1)
    then have "length (inbox l1) \<le> length (inbox l)" by (rule link_read_le)
    with 1 Pair show ?thesis
      by (fastforce simp: awaitPingResp.simps [of m v l h] split: sum.splits prod.splits if_splits)
  qed
qed

function subscribe_loop ::
  "int \<Rightarrow> string \<Rightarrow> link \<Rightarrow> (string \<times> bytes) list \<Rightarrow> client_error \<times> link \<times> (string \<times> bytes) list" where
  \<comment> \<open>the loop of \<^verbatim>\<open>Subscribe\<close>: every way out of it closes the connection\<close>
  "subscribe_loop m version l handled =
     (case link_read m l of
        (Inl e, l') \<Rightarrow>
          if e = ReadError DeadlineExceeded then
            (case writePacket link_write l' packetPingReq 0 [] of
               (l'', Some pingErr) \<Rightarrow> (pingErr, l'', handled)
             | (l'', None) \<Rightarrow>
                 (case awaitPingResp m version l'' handled of
                    (Some pongErr, l3, handled') \<Rightarrow> (pongErr, l3, handled')
                  | (None, l3, handled') \<Rightarrow> subscribe_loop m version l3 handled'))
          else (PacketError e, l', handled)
      | (Inr packet, l') \<Rightarrow> subscribe_loop m version l' (handled @ dispatch version packet))"
  by pat_completeness auto
termination
proof (relation "measure (\<lambda>(m, v, l, h). length (inbox l))", goal_cases)
  case (2 m v l h r1 l1 e r2 l2 r3 r4 l3 h3)
  then have "link_read m l = (Inl (ReadError DeadlineExceeded), l1)" by simp
  then have "length (inbox l1) < length (inbox l)" by (rule link_read_deadline)
  moreover have "inbox r2 = inbox l1" using 2 inbox_writePacket by (metis fst_conv)
  moreover have "awaitPingResp m v r2 h = (None, l3, h3)" using 2 by simp
  then have "length (inbox l3) \<le> length (inbox r2)" by (rule awaitPingResp_le)
  ultimately show ?case by simp
next
  case (3 m v l h r l' p)
  then have "link_read m l = (Inr p, l')" by simp
  then have "length (inbox l') < length (inbox l)" by (rule link_read_shrinks)
  then show ?case by simp
qed simp

declare subscribe_loop.simps [simp del]

definition Subscribe ::
  "net \<Rightarrow> Client \<Rightarrow> string list \<Rightarrow> client_error \<times> Client \<times> (string \<times> bytes) list" where
  "Subscribe env c topics =
     (case connectLocked env c of
        (Some e, c') \<Rightarrow> (e, c', [])
      | (None, c') \<Rightarrow>
          (let c1 = c'\<lparr>next_id := next_packet_id (next_id c')\<rparr> in
           case writePacket link_write (the (conn c1)) packetSubscribe 2
               (subscribePayload (next_id c1) topics (Version c1)) of
             (l, Some e) \<Rightarrow> (e, closeLocked (c1\<lparr>conn := Some l\<rparr>), [])
           | (l, None) \<Rightarrow>
               (case subscribe_loop (maxPacketBytes c1) (Version c1) l [] of
                  (e, l', handled) \<Rightarrow> (e, closeLocked (c1\<lparr>conn := Some l'\<rparr>), handled))))"

subsection \<open>What a subscriber receives\<close>

text \<open>
  A broker's side of a subscription: single packets, and quiet spells in which the read deadline
  expires between two packets, the client asks with a PINGREQ, and the broker answers with a
  PINGRESP, possibly after other packets.
\<close>

datatype wire = Frame packet | Quiet "packet list"

definition ping_resp :: packet where
  "ping_resp = (packetPingResp, 0, [])"

fun wire_input :: "wire \<Rightarrow> input" where
  "wire_input (Frame p) = arrived (enc_packet p)"
| "wire_input (Quiet ps) = Deadline # arrived (concat (map enc_packet ps) @ enc_packet ping_resp)"

fun wire_ok :: "int \<Rightarrow> wire \<Rightarrow> bool" where
  "wire_ok m (Frame p) \<longleftrightarrow> packet_ok m p"
| "wire_ok m (Quiet ps) \<longleftrightarrow> list_all (\<lambda>p. packet_ok m p \<and> fst p \<noteq> packetPingResp) ps"

fun wire_messages :: "string \<Rightarrow> wire \<Rightarrow> (string \<times> bytes) list" where
  "wire_messages v (Frame p) = dispatch v (seen_packet p)"
| "wire_messages v (Quiet ps) = concat (map (\<lambda>p. dispatch v (seen_packet p)) ps)"

fun is_quiet :: "wire \<Rightarrow> bool" where
  "is_quiet (Quiet ps) = True"
| "is_quiet (Frame p) = False"

lemma link_read_enc [simp]:
  "packet_ok m p \<Longrightarrow> inbox l = arrived (enc_packet p) @ rest \<Longrightarrow>
   link_read m l = (Inr (seen_packet p), l\<lparr>inbox := rest\<rparr>)"
  by (simp add: link_read_def packet_frames.rd_enc)

lemma link_read_Deadline [simp]:
  "inbox l = Deadline # rest \<Longrightarrow>
   link_read m l = (Inl (ReadError DeadlineExceeded), l\<lparr>inbox := rest\<rparr>)"
  by (simp add: link_read_def readPacketLimit_def read_full_def)

lemma link_read_end [simp]:
  "inbox l = [] \<Longrightarrow> link_read m l = (Inl (ReadError EOF), l)"
  by (simp add: link_read_def readPacketLimit_def read_full_def)

lemma ping_resp_ok [simp]: "0 \<le> m \<Longrightarrow> packet_ok m ping_resp"
  by (simp add: ping_resp_def packet_defs packet_types)

lemma awaitPingResp_answered:
  assumes m: "0 \<le> m"
  shows "list_all (\<lambda>p. packet_ok m p \<and> fst p \<noteq> packetPingResp) ps \<Longrightarrow>
     inbox l = arrived (concat (map enc_packet ps) @ enc_packet ping_resp) @ rest \<Longrightarrow>
     awaitPingResp m v l h =
       (None, l\<lparr>inbox := rest\<rparr>, h @ concat (map (\<lambda>p. dispatch v (seen_packet p)) ps))"
proof (induction ps arbitrary: l h)
  case Nil
  then have "link_read m l = (Inr (seen_packet ping_resp), l\<lparr>inbox := rest\<rparr>)"
    using m by simp
  then show ?case
    by (simp add: awaitPingResp.simps [of m v l] seen_packet_def ping_resp_def)
next
  case (Cons p ps)
  let ?rest = "arrived (concat (map enc_packet ps) @ enc_packet ping_resp) @ rest"
  from Cons.prems have "link_read m l = (Inr (seen_packet p), l\<lparr>inbox := ?rest\<rparr>)" by simp
  moreover obtain t f b where p: "p = (t, f, b)" by (cases p) auto
  moreover have "t \<noteq> packetPingResp" using Cons.prems p by simp
  ultimately show ?case using Cons.IH [of "l\<lparr>inbox := ?rest\<rparr>"] Cons.prems
    by (simp add: awaitPingResp.simps [of m v l] seen_packet_def)
qed

definition ping_req_bytes :: bytes where
  "ping_req_bytes = packet_bytes packetPingReq 0 []"

lemma link_write_ok: "write_fails l = [] \<Longrightarrow> link_write l bs = (l\<lparr>sent := sent l @ bs\<rparr>, None)"
  by (simp add: link_write_def)

lemma writePacket_ok:
  "write_fails l = [] \<Longrightarrow> writePacket link_write l t f p = (l\<lparr>sent := sent l @ packet_bytes t f p\<rparr>, None)"
  by (simp add: writePacket_def link_write_ok packet_bytes_def)

lemma subscribe_loop_wire:
  assumes m: "0 \<le> m"
  shows "list_all (wire_ok m) ws \<Longrightarrow> write_fails l = [] \<Longrightarrow> inbox l = concat (map wire_input ws) \<Longrightarrow>
     subscribe_loop m v l h =
       (PacketError (ReadError EOF),
        l\<lparr>inbox := [], sent := sent l @ concat (replicate (length (filter is_quiet ws)) ping_req_bytes)\<rparr>,
        h @ concat (map (wire_messages v) ws))"
proof (induction ws arbitrary: l h)
  case Nil
  then show ?case by (simp add: subscribe_loop.simps [of m v l])
next
  case (Cons w ws)
  let ?rest = "concat (map wire_input ws)"
  show ?case
  proof (cases w)
    case (Frame p)
    with Cons.prems have r: "link_read m l = (Inr (seen_packet p), l\<lparr>inbox := ?rest\<rparr>)" by simp
    from Cons Frame show ?thesis by (simp add: subscribe_loop.simps [of m v l] r)
  next
    case (Quiet ps)
    let ?in = "arrived (concat (map enc_packet ps) @ enc_packet ping_resp) @ ?rest"
    let ?l = "l\<lparr>inbox := ?in, sent := sent l @ ping_req_bytes\<rparr>"
    from Cons.prems Quiet have r: "link_read m l = (Inl (ReadError DeadlineExceeded), l\<lparr>inbox := ?in\<rparr>)"
      by simp
    have w: "writePacket link_write (l\<lparr>inbox := ?in\<rparr>) packetPingReq 0 [] = (?l, None)"
      using Cons.prems(2) by (subst writePacket_ok) (simp_all add: ping_req_bytes_def)
    have "list_all (\<lambda>p. packet_ok m p \<and> fst p \<noteq> packetPingResp) ps" using Cons.prems(1) Quiet by simp
    from awaitPingResp_answered [OF m this, of ?l ?rest v h]
    have a: "awaitPingResp m v ?l h = (None, ?l\<lparr>inbox := ?rest\<rparr>, h @ wire_messages v w)"
      using Quiet by simp
    have "subscribe_loop m v l h = subscribe_loop m v (?l\<lparr>inbox := ?rest\<rparr>) (h @ wire_messages v w)"
      by (subst subscribe_loop.simps)
        (simp only: r w a sum.case prod.case option.case refl if_True)
    then show ?thesis using Cons Quiet by simp
  qed
qed

subsection \<open>Properties\<close>

lemma maxPacketBytes_pos: "0 < maxPacketBytes c"
  by (simp add: maxPacketBytes_def)

lemma maxPacketBytes_next_id [simp]: "maxPacketBytes (c\<lparr>next_id := i\<rparr>) = maxPacketBytes c"
  by (simp add: maxPacketBytes_def)

lemma connectLocked_connected [simp]: "conn c = Some l \<Longrightarrow> connectLocked env c = (None, c)"
  by (simp add: connectLocked_def)

lemma conn_closeLocked [simp]: "conn (closeLocked c) = None"
  by (simp add: closeLocked_def split: option.split)

definition demo_link :: link where
  "demo_link = \<lparr>inbox = [], sent = [], write_fails = []\<rparr>"

definition demo_client :: Client where
  "demo_client =
     \<lparr>URL = ''mqtt://broker'', ClientID = ''kiosk'', Username = '''', Password = '''', Version = ''5.0'',
      Timeout = 0, KeepAlive = 0, WillTopic = '''', WillPayload = [], WillRetain = False,
      CAFile = '''', CertFile = '''', KeyFile = '''', ServerName = '''', InsecureSkipVerify = False,
      MaxPacketBytes = 0, conn = Some demo_link, next_id = 65535, closed = []\<rparr>"

definition demo_net :: net where
  "demo_net =
     \<lparr>parse_url = (\<lambda>u. Some \<lparr>Scheme = ''mqtt'', Host = ''broker'', Hostname = ''broker''\<rparr>),
      split_host_port = (\<lambda>h. False), dial = (\<lambda>h cfg. Some demo_link), deadline_ok = True,
      read_file = (\<lambda>f. None), pem_ok = (\<lambda>p. True), key_pair_ok = (\<lambda>a b. True)\<rparr>"

text \<open>C9: After a subscription is accepted, the handler receives exactly the PUBLISH packets the
  broker sends, in order, also those that arrive while the client waits for the answer to its
  keep-alive PINGREQ; one PINGREQ is written per quiet spell. When the stream ends, Subscribe
  returns the end of file and the connection is closed with a DISCONNECT.\<close>

theorem Subscribe_delivers:
  assumes "conn c = Some l" "write_fails l = []"
    and "list_all (wire_ok (maxPacketBytes c)) ws" "inbox l = concat (map wire_input ws)"
  shows "\<exists>l'. Subscribe env c topics =
     (PacketError (ReadError EOF),
      c\<lparr>next_id := next_packet_id (next_id c), conn := None, closed := l' # closed c\<rparr>,
      concat (map (wire_messages (Version c)) ws)) \<and>
     sent l' = sent l @
       packet_bytes packetSubscribe 2 (subscribePayload (next_packet_id (next_id c)) topics (Version c)) @
       concat (replicate (length (filter is_quiet ws)) ping_req_bytes) @
       packet_bytes packetDisconnect 0 []"
proof -
  define req where "req = packet_bytes packetSubscribe 2
      (subscribePayload (next_packet_id (next_id c)) topics (Version c))"
  define pings where "pings = concat (replicate (length (filter is_quiet ws)) ping_req_bytes)"
  define l1 where "l1 = l\<lparr>sent := sent l @ req\<rparr>"
  define l2 where "l2 = l1\<lparr>inbox := [], sent := sent l1 @ pings\<rparr>"
  define l3 where "l3 = l2\<lparr>sent := sent l2 @ packet_bytes packetDisconnect 0 []\<rparr>"
  have m: "0 \<le> maxPacketBytes c" using maxPacketBytes_pos [of c] by simp
  have "write_fails l1 = []" "inbox l1 = concat (map wire_input ws)"
    using assms(2,4) by (simp_all add: l1_def)
  then have loop: "subscribe_loop (maxPacketBytes c) (Version c) l1 [] =
      (PacketError (ReadError EOF), l2, concat (map (wire_messages (Version c)) ws))"
    using subscribe_loop_wire [OF m assms(3), of l1 "Version c" "[]"]
    by (simp add: l2_def pings_def)
  have disc: "writePacket link_write l2 packetDisconnect 0 [] = (l3, None)"
    using assms(2) by (simp add: writePacket_ok l1_def l2_def l3_def)
  have sub: "writePacket link_write l packetSubscribe 2
      (subscribePayload (next_packet_id (next_id c)) topics (Version c)) = (l1, None)"
    using assms(2) by (simp add: writePacket_ok l1_def req_def)
  have "Subscribe env c topics =
     (PacketError (ReadError EOF),
      c\<lparr>next_id := next_packet_id (next_id c), conn := None, closed := l3 # closed c\<rparr>,
      concat (map (wire_messages (Version c)) ws))"
    using assms(1) by (simp add: Subscribe_def Let_def closeLocked_def sub loop disc)
  moreover have "sent l3 = sent l @ req @ pings @ packet_bytes packetDisconnect 0 []"
    by (simp add: l1_def l2_def l3_def)
  ultimately show ?thesis unfolding req_def pings_def by blast
qed

lemma Subscribe_delivers_witness:
  "\<exists>c' ms. Subscribe demo_net (demo_client\<lparr>conn := Some (demo_link\<lparr>inbox :=
       wire_input (Frame (packetPublish, 0, publishPayload ''a'' [1] ''5.0'')) @
       wire_input (Quiet [(packetPublish, 1, publishPayload ''b'' [] ''5.0'')])\<rparr>)\<rparr>) [''a''] =
     (PacketError (ReadError EOF), c', ms) \<and> ms = [(''a'', [1]), (''b'', [])] \<and> next_id c' = 1"
proof -
  let ?ws = "[Frame (packetPublish, 0, publishPayload ''a'' [1] ''5.0''),
    Quiet [(packetPublish, 1, publishPayload ''b'' [] ''5.0'')]]"
  let ?l = "demo_link\<lparr>inbox := concat (map wire_input ?ws)\<rparr>"
  have "list_all (wire_ok (maxPacketBytes (demo_client\<lparr>conn := Some ?l\<rparr>))) ?ws"
    by (simp add: demo_client_def maxPacketBytes_def packet_defs packet_types publishPayload_def
        effective_limit_def)
  from Subscribe_delivers [OF _ _ this, of ?l demo_net "[''a'']"]
  obtain l' where "Subscribe demo_net (demo_client\<lparr>conn := Some ?l\<rparr>) [''a''] =
      (PacketError (ReadError EOF), demo_client\<lparr>next_id := 1, conn := None, closed := [l']\<rparr>,
       concat (map (wire_messages ''5.0'') ?ws))"
    by (auto simp: demo_client_def demo_link_def next_packet_id_def)
  then show ?thesis
    by (simp add: dispatch_def seen_packet_def parsePublish_publishPayload_short packet_types)
qed

text \<open>C25: A message published on a working connection is framed so that a broker that reads the
  stream gets one PUBLISH packet back and finds the topic and the payload in it.\<close>

theorem Publish_received:
  assumes "conn c = Some l" "write_fails l = []" "length topic < 65536"
    and "length topic + length payload + 3 < 2 ^ 28" "length topic + length payload + 3 \<le> effective_limit m"
  shows "\<exists>frame body. Publish env c topic payload retained = (None, c\<lparr>conn := Some (l\<lparr>sent := sent l @ frame\<rparr>)\<rparr>) \<and>
     readPacketLimit m (arrived frame @ rest) = (Inr (packetPublish, body), rest) \<and>
     parsePublish body (Version c) = Inr (topic, payload) \<and>
     hd frame = packetPublish * 16 + (if retained then 1 else 0)"
proof -
  let ?body = "publishPayload topic payload (Version c)"
  let ?flags = "if retained then 1 else 0 :: byte"
  let ?frame = "packet_bytes packetPublish ?flags ?body"
  have len: "length ?body \<le> length topic + length payload + 3" by (simp add: publishPayload_def)
  have "readPacketLimit m (arrived ?frame @ rest) = (Inr (packetPublish, ?body), rest)"
    using assms(4,5) len by (intro readPacketLimit_packet_bytes) (auto simp: packet_types)
  moreover have "parsePublish ?body (Version c) = Inr (topic, payload)"
    using assms(3) by (rule parsePublish_publishPayload_short)
  moreover have "Publish env c topic payload retained = (None, c\<lparr>conn := Some (l\<lparr>sent := sent l @ ?frame\<rparr>)\<rparr>)"
    using assms(1,2) by (simp add: Publish_def writePacket_ok)
  moreover have "hd ?frame = packetPublish * 16 + ?flags"
    by (simp add: packet_bytes_def packet_header_def packet_types)
  ultimately show ?thesis by blast
qed

lemma Publish_received_witness:
  "\<exists>frame body. Publish demo_net demo_client ''kiosk/state'' [111, 110] True =
       (None, demo_client\<lparr>conn := Some (demo_link\<lparr>sent := frame\<rparr>)\<rparr>) \<and>
     readPacketLimit 0 (arrived frame) = (Inr (packetPublish, body), []) \<and>
     parsePublish body ''5.0'' = Inr (''kiosk/state'', [111, 110]) \<and> hd frame = 49"
proof -
  have h: "conn demo_client = Some demo_link" "write_fails demo_link = []" "length ''kiosk/state'' < 65536"
    "length ''kiosk/state'' + length [111, 110 :: byte] + 3 < 2 ^ 28"
    "length ''kiosk/state'' + length [111, 110 :: byte] + 3 \<le> effective_limit 0"
    "sent demo_link = []" "Version demo_client = ''5.0''"
    "(packetPublish * 16 + (if True then 1 else 0)) = 49"
    by (simp_all add: demo_client_def demo_link_def effective_limit_def default_limit_def packet_types)
  from Publish_received [OF h(1-5), of demo_net True "[]"] show ?thesis
    unfolding h(6-8) append_Nil append_Nil2 .
qed

text \<open>A Ping that meets the end of the stream reports an unexpected response of type 0 and
  keeps the dead connection, so that the next operation does not reconnect; a Ping whose deadline
  expires closes it.\<close>

theorem Ping_at_end_of_stream:
  assumes "conn c = Some l" "write_fails l = []" "inbox l = []"
  shows "Ping env c = (Some (UnexpectedPing 0), c\<lparr>conn := Some (l\<lparr>sent := sent l @ ping_req_bytes\<rparr>)\<rparr>) \<and>
     conn (snd (Ping env (c\<lparr>conn := Some (l\<lparr>inbox := [Deadline]\<rparr>)\<rparr>))) = None"
  using assms by (auto simp: Ping_def writePacket_ok ping_req_bytes_def)

lemma Ping_at_end_of_stream_witness:
  "fst (Ping demo_net demo_client) = Some (UnexpectedPing 0) \<and>
   conn (snd (Ping demo_net demo_client)) \<noteq> None"
  using Ping_at_end_of_stream [of demo_client demo_link demo_net]
  by (auto simp: demo_client_def demo_link_def)

end
