(* ===== verification/Config_Types.thy ===== *)
theory Config_Types
  imports Complex_Main Go_Prelude Go_Time
begin

section \<open>The configuration\<close>

text \<open>
  The data of \<^verbatim>\<open>internal/config\<close>: one record per struct, with the fields in the order of the
  source and a prefix per struct. Optional pointers are options, floating point settings (the
  location, the CPU limit) are rational numbers, durations are nanoseconds. The mutex and the
  change channel of \<^verbatim>\<open>Config\<close> are not data and appear in the theory of the store.
\<close>

type_synonym weekdays = "string list"

record AdminConfig =
  adm_Bind :: string
  adm_Port :: int
  adm_Token :: string
  adm_PasswordHash :: string
  adm_TLSCert :: string
  adm_TLSKey :: string

record KioskPageSchedule =
  sch_Start :: string
  sch_End :: string
  sch_Days :: weekdays

record KioskPageTrigger =
  ptr_Topic :: string
  ptr_Payload :: string

record KioskDisplayOptions =
  dsp_PowerOffAfter :: bool
  dsp_Screensaver :: bool
  dsp_Brightness :: "int option"

record LocalPage =
  loc_Title :: string
  loc_Hour12 :: bool
  loc_ShowSeconds :: bool
  loc_HideDate :: bool
  loc_Folder :: string
  loc_IntervalSeconds :: int
  loc_Fit :: string
  loc_Shuffle :: bool
  loc_HTML :: string
  loc_Latitude :: "rat option"
  loc_Longitude :: "rat option"
  loc_Location :: string
  loc_Units :: string
  loc_Target :: string
  loc_DoneText :: string
  loc_CountUp :: bool
  loc_Feeds :: "string list"
  loc_Streams :: "string list"
  loc_ImmichURL :: string
  loc_ImmichAPIKey :: string
  loc_ImmichKeyConfigured :: bool
  loc_ImmichAlbum :: string

record KioskPage =
  pg_PageID :: string
  pg_Name :: string
  pg_URL :: string
  pg_SourceType :: string
  pg_DisplayMode :: string
  pg_DurationSeconds :: int
  pg_Schedule :: KioskPageSchedule
  pg_Trigger :: KioskPageTrigger
  pg_DisplayOptions :: KioskDisplayOptions
  pg_Disabled :: bool
  pg_Preload :: bool
  pg_Local :: "LocalPage option"

record KioskScheduler =
  sd_Enabled :: bool
  sd_Mode :: string
  sd_TickInterval :: duration
  sd_Latitude :: rat
  sd_Longitude :: rat

record RotationItem =
  rot_Page :: int
  rot_DurationSeconds :: int

record TimeRule =
  tr_Name :: string
  tr_Page :: int
  tr_Start :: string
  tr_End :: string
  tr_Days :: weekdays
  tr_Disabled :: bool

record KioskMaintenance =
  mt_ReloadEveryMinutes :: int
  mt_ReloadAt :: string
  mt_ReloadAfterCycles :: int
  mt_ReloadOnGrowthPercent :: int

record PresenceConfig =
  ps_Enabled :: bool
  ps_Mode :: string
  ps_Topic :: string
  ps_Value :: string
  ps_TimeoutMinutes :: int
  ps_Touch :: bool

record RuleTrigger =
  rt_Type :: string
  rt_Topic :: string
  rt_Payload :: string
  rt_At :: string
  rt_Days :: weekdays
  rt_Token :: string
  rt_IdleSeconds :: int

record RuleConditions =
  rc_Days :: weekdays
  rc_Start :: string
  rc_End :: string
  rc_ActivePageID :: string

record RuleAction =
  ra_Type :: string
  ra_PageID :: string
  ra_DurationSeconds :: int
  ra_UntilResume :: bool
  ra_Value :: string

record WorkflowRule =
  wr_ID :: string
  wr_Name :: string
  wr_Disabled :: bool
  wr_Trigger :: RuleTrigger
  wr_Conditions :: RuleConditions
  wr_Actions :: "RuleAction list"
  wr_CooldownSeconds :: int

record InsertCondition =
  ic_Topic :: string
  ic_Value :: string
  ic_Negate :: bool

record PageInsert =
  ins_ID :: string
  ins_Name :: string
  ins_PageID :: string
  ins_Repeat :: string
  ins_EveryMinutes :: int
  ins_Minute :: int
  ins_Times :: "string list"
  ins_DurationSeconds :: int
  ins_Start :: string
  ins_End :: string
  ins_Days :: weekdays
  ins_Priority :: int
  ins_Disabled :: bool
  ins_Condition :: "InsertCondition option"

record KioskConfig =
  k_URLs :: "string list"
  k_Pages :: "KioskPage list"
  k_BrowserPreset :: string
  k_BrowserCommand :: string
  k_ExtraArgs :: "string list"
  k_UserDataDir :: string
  k_IsolateSessions :: bool
  k_Theme :: string
  k_ZoomPercent :: int
  k_Widget :: bool
  k_Scheduler :: KioskScheduler
  k_Rotation :: "RotationItem list"
  k_TimeRules :: "TimeRule list"
  k_Maintenance :: KioskMaintenance
  k_PageSwitch :: string
  k_MaxTabs :: int
  k_DisplayBackend :: string
  k_Rules :: "WorkflowRule list"
  k_Inserts :: "PageInsert list"
  k_Presence :: PresenceConfig

record PerfConfig =
  pf_Profile :: string
  pf_GPUMode :: string
  pf_ReduceMotion :: bool
  pf_AuthMonitor :: string

record WatchdogConfig =
  wd_RestartOnCPU :: bool
  wd_Enabled :: bool
  wd_CheckInterval :: duration
  wd_MaxRSSMB :: int
  wd_MaxCPUPercent :: rat
  wd_CPUGrace :: duration
  wd_RebootOnHang :: bool

record MQTTConfig =
  mq_Enabled :: bool
  mq_URL :: string
  mq_Version :: string
  mq_Username :: string
  mq_Password :: string
  mq_PasswordConfigured :: bool
  mq_Discovery :: string
  mq_BaseTopic :: string
  mq_Node :: string
  mq_ClientID :: string
  mq_KeepAlive :: duration
  mq_ForceDisableRetain :: bool
  mq_CAFile :: string
  mq_CertFile :: string
  mq_KeyFile :: string
  mq_ServerName :: string
  mq_RejectUnauthorized :: bool
  mq_MaxPacketBytes :: int
  mq_Interval :: duration

record TimeConfig =
  tm_NTPServer :: string
  tm_Timezone :: string

record UpdateConfig =
  up_Repository :: string
  up_Prerelease :: bool
  up_Service :: string

record Config =
  c_Path :: string
  c_LoadWarning :: string
  c_Version :: int
  c_Admin :: AdminConfig
  c_Kiosk :: KioskConfig
  c_Performance :: PerfConfig
  c_Watchdog :: WatchdogConfig
  c_MQTT :: MQTTConfig
  c_Time :: TimeConfig
  c_Update :: UpdateConfig
  c_Revision :: string

subsection \<open>Zero values\<close>

text \<open>The value of a struct whose fields are not set.\<close>

definition zero_local :: LocalPage where
  "zero_local =
     \<lparr>loc_Title = '''', loc_Hour12 = False, loc_ShowSeconds = False, loc_HideDate = False,
      loc_Folder = '''', loc_IntervalSeconds = 0, loc_Fit = '''', loc_Shuffle = False,
      loc_HTML = '''', loc_Latitude = None, loc_Longitude = None, loc_Location = '''',
      loc_Units = '''', loc_Target = '''', loc_DoneText = '''', loc_CountUp = False,
      loc_Feeds = [], loc_Streams = [], loc_ImmichURL = '''', loc_ImmichAPIKey = '''',
      loc_ImmichKeyConfigured = False, loc_ImmichAlbum = ''''\<rparr>"

definition zero_page :: KioskPage where
  "zero_page =
     \<lparr>pg_PageID = '''', pg_Name = '''', pg_URL = '''', pg_SourceType = '''', pg_DisplayMode = '''',
      pg_DurationSeconds = 0, pg_Schedule = \<lparr>sch_Start = '''', sch_End = '''', sch_Days = []\<rparr>,
      pg_Trigger = \<lparr>ptr_Topic = '''', ptr_Payload = ''''\<rparr>,
      pg_DisplayOptions = \<lparr>dsp_PowerOffAfter = False, dsp_Screensaver = False, dsp_Brightness = None\<rparr>,
      pg_Disabled = False, pg_Preload = False, pg_Local = None\<rparr>"

definition zero_kiosk :: KioskConfig where
  "zero_kiosk =
     \<lparr>k_URLs = [], k_Pages = [], k_BrowserPreset = '''', k_BrowserCommand = '''', k_ExtraArgs = [],
      k_UserDataDir = '''', k_IsolateSessions = False, k_Theme = '''', k_ZoomPercent = 0,
      k_Widget = False,
      k_Scheduler = \<lparr>sd_Enabled = False, sd_Mode = '''', sd_TickInterval = 0, sd_Latitude = 0,
        sd_Longitude = 0\<rparr>,
      k_Rotation = [], k_TimeRules = [],
      k_Maintenance = \<lparr>mt_ReloadEveryMinutes = 0, mt_ReloadAt = '''', mt_ReloadAfterCycles = 0,
        mt_ReloadOnGrowthPercent = 0\<rparr>,
      k_PageSwitch = '''', k_MaxTabs = 0, k_DisplayBackend = '''', k_Rules = [], k_Inserts = [],
      k_Presence = \<lparr>ps_Enabled = False, ps_Mode = '''', ps_Topic = '''', ps_Value = '''',
        ps_TimeoutMinutes = 0, ps_Touch = False\<rparr>\<rparr>"

definition zero_insert :: PageInsert where
  "zero_insert =
     \<lparr>ins_ID = '''', ins_Name = '''', ins_PageID = '''', ins_Repeat = '''', ins_EveryMinutes = 0,
      ins_Minute = 0, ins_Times = [], ins_DurationSeconds = 0, ins_Start = '''', ins_End = '''',
      ins_Days = [], ins_Priority = 0, ins_Disabled = False, ins_Condition = None\<rparr>"

subsection \<open>Derived settings\<close>

definition GrowthPercent :: "KioskMaintenance \<Rightarrow> int" where
  "GrowthPercent m =
     (if mt_ReloadOnGrowthPercent m < 0 then 0
      else if mt_ReloadOnGrowthPercent m = 0 then 50
      else mt_ReloadOnGrowthPercent m)"

definition PresenceTimeout :: "PresenceConfig \<Rightarrow> duration" where
  \<comment> \<open>\<^verbatim>\<open>PresenceConfig.Timeout\<close>\<close>
  "PresenceTimeout p = (if ps_TimeoutMinutes p \<le> 0 then 5 * Minute else i64 (ps_TimeoutMinutes p * Minute))"

definition HasLocation :: "KioskScheduler \<Rightarrow> bool" where
  "HasLocation s \<longleftrightarrow> sd_Latitude s \<noteq> 0 \<or> sd_Longitude s \<noteq> 0"

definition Addr :: "AdminConfig \<Rightarrow> string" where
  "Addr a = adm_Bind a @ '':'' @ itoa (adm_Port a)"

end
