(* ===== verification/Config_Clock.thy ===== *)
theory Config_Clock
  imports Config_Types
begin

section \<open>Clock and sun times of schedules\<close>

text \<open>
  The clock values of \<^verbatim>\<open>internal/config\<close>: \<^verbatim>\<open>validClock\<close> (config.go), \<^verbatim>\<open>insertClock\<close> and
  \<^verbatim>\<open>weekdayMatches\<close> (inserts.go), \<^verbatim>\<open>clockMinutes\<close>, \<^verbatim>\<open>clockSegments\<close> and \<^verbatim>\<open>daysOverlap\<close> (conflicts.go)
  and the sun times of sun.go. The kiosk's time zone and the sunrise equation \<^verbatim>\<open>SunTimes\<close> (floating
  point trigonometry, not modelled) are an environment \<open>sky\<close>: a function from the calendar day and
  the location to the instants of sunrise and sunset and the state. Lemmas: a valid time always
  resolves, to a minute of the day.
\<close>

record sky =
  zone_of :: zone
  SunTimes :: "int \<Rightarrow> rat \<Rightarrow> rat \<Rightarrow> time \<times> time \<times> string"

subsection \<open>Clock times\<close>

definition validClock :: "string \<Rightarrow> bool" where
  "validClock value =
     (case split_at CHR '':'' (trim_space value) of
        [h, m] \<Rightarrow>
          length h = 2 \<and> length m = 2 \<and>
          (case (atoi h, atoi m) of
             (Some hour, Some minute) \<Rightarrow> 0 \<le> hour \<and> hour \<le> 23 \<and> 0 \<le> minute \<and> minute \<le> 59
           | _ \<Rightarrow> False)
      | _ \<Rightarrow> False)"

definition insertClock :: "string \<Rightarrow> int option" where
  "insertClock value =
     (case split_at CHR '':'' (trim_space value) of
        [h, m] \<Rightarrow>
          (case (atoi h, atoi m) of
             (Some hour, Some minute) \<Rightarrow>
               if hour < 0 \<or> 23 < hour \<or> minute < 0 \<or> 59 < minute then None
               else Some (hour * 60 + minute)
           | _ \<Rightarrow> None)
      | _ \<Rightarrow> None)"

definition clockMinutes :: "string \<Rightarrow> int" where
  "clockMinutes value =
     (case split_at CHR '':'' (trim_space value) of
        [h, m] \<Rightarrow> i64 (i64 (atoi_or_zero h * 60) + atoi_or_zero m)
      | _ \<Rightarrow> 0)"

lemma insertClock_range: "insertClock v = Some m \<Longrightarrow> 0 \<le> m \<and> m < 1440"
  by (auto simp: insertClock_def split: list.splits option.splits if_splits)

lemma validClock_insertClock:
  assumes "validClock v"
  shows "insertClock v = Some (clockMinutes v)"
proof -
  from assms obtain h m hour minute where
    "split_at CHR '':'' (trim_space v) = [h, m]" "atoi h = Some hour" "atoi m = Some minute"
    "0 \<le> hour" "hour \<le> 23" "0 \<le> minute" "minute \<le> 59"
    by (auto simp: validClock_def split: list.splits option.splits)
  then show ?thesis
    by (simp add: insertClock_def clockMinutes_def atoi_or_zero_atoi i64_id)
qed

subsection \<open>Sun times\<close>

definition maxSunOffset :: int where
  "maxSunOffset = 6 * 60"

definition sunClock :: "string \<Rightarrow> (string \<times> int) option" where
  "sunClock v =
     (let value = to_lower (trim_space v);
          parse = (\<lambda>name.
            let rest = trim_space (drop (length name) value) in
            (case rest of
              [] \<Rightarrow> Some (name, 0)
            | sign # number \<Rightarrow>
                if sign \<noteq> CHR ''+'' \<and> sign \<noteq> CHR ''-'' then None
                else (case atoi (trim_space number) of
                    None \<Rightarrow> None
                  | Some minutes \<Rightarrow>
                      if minutes < 0 \<or> maxSunOffset < minutes then None
                      else Some (name, if sign = CHR ''-'' then - minutes else minutes))))
      in if has_prefix value ''sunrise'' then parse ''sunrise''
         else if has_prefix value ''sunset'' then parse ''sunset''
         else None)"

definition IsSunClock :: "string \<Rightarrow> bool" where
  "IsSunClock value \<longleftrightarrow> sunClock value \<noteq> None"

definition validScheduleClock :: "string \<Rightarrow> bool" where
  "validScheduleClock value \<longleftrightarrow> validClock value \<or> IsSunClock value"

definition clamp_minute :: "int \<Rightarrow> int" where
  \<comment> \<open>\<^verbatim>\<open>min(max(minute, 0), 24*60-1)\<close>\<close>
  "clamp_minute m = min (max m 0) (24 * 60 - 1)"

definition SunMinutes :: "sky \<Rightarrow> int \<Rightarrow> rat \<Rightarrow> rat \<Rightarrow> int \<times> int" where
  "SunMinutes env day latitude longitude =
     (let (rise, set, state) = SunTimes env day latitude longitude;
          local = (\<lambda>instant. clamp_minute ((2 * (instant - mk_time (zone_of env) day 0 0) + Minute) div (2 * Minute)))
      in if state = ''night'' then (12 * 60, 12 * 60)
         else if state = ''day'' then (0, 24 * 60 - 1)
         else (local rise, local set))"

definition ResolveClock :: "sky \<Rightarrow> KioskConfig \<Rightarrow> string \<Rightarrow> int \<Rightarrow> int option" where
  "ResolveClock env k value day =
     (case insertClock value of
        Some minute \<Rightarrow> Some minute
      | None \<Rightarrow>
          (case sunClock value of
             None \<Rightarrow> None
           | Some (event, offset) \<Rightarrow>
               (let (rise, set) =
                  (if HasLocation (k_Scheduler k)
                   then SunMinutes env day (sd_Latitude (k_Scheduler k)) (sd_Longitude (k_Scheduler k))
                   else (6 * 60, 18 * 60));
                    minute = (if event = ''sunrise'' then rise else set)
                in Some (clamp_minute (minute + offset)))))"

lemma clamp_minute_range: "0 \<le> clamp_minute m \<and> clamp_minute m < 1440"
  by (simp add: clamp_minute_def)

lemma ResolveClock_range: "ResolveClock env k v d = Some m \<Longrightarrow> 0 \<le> m \<and> m < 1440"
  using clamp_minute_range
  by (auto simp: ResolveClock_def Let_def dest: insertClock_range split: option.splits prod.splits)

lemma ResolveClock_valid: "validScheduleClock v \<Longrightarrow> ResolveClock env k v d \<noteq> None"
  by (auto simp: validScheduleClock_def ResolveClock_def IsSunClock_def validClock_insertClock
      split: option.splits prod.splits)

lemma ResolveClock_clock: "validClock v \<Longrightarrow> ResolveClock env k v d = Some (clockMinutes v)"
  by (simp add: ResolveClock_def validClock_insertClock)

lemma clockMinutes_range: "validClock v \<Longrightarrow> 0 \<le> clockMinutes v \<and> clockMinutes v < 1440"
  using insertClock_range validClock_insertClock by blast

subsection \<open>Weekdays\<close>

definition weekdayMatches :: "weekdays \<Rightarrow> nat \<Rightarrow> bool" where
  "weekdayMatches days weekday \<longleftrightarrow>
     days = [] \<or>
     (let long = to_lower (weekday_name weekday) in
      list_ex (\<lambda>day. to_lower (trim_space day) = take 3 long \<or> to_lower (trim_space day) = long) days)"

definition shortDay :: "string \<Rightarrow> string" where
  "shortDay day = take 3 (to_lower (trim_space day))"

definition daysOverlap :: "weekdays \<Rightarrow> weekdays \<Rightarrow> bool" where
  "daysOverlap a b \<longleftrightarrow>
     a = [] \<or> b = [] \<or> list_ex (\<lambda>day. list_ex (\<lambda>other. shortDay other = shortDay day) b) a"

lemma shortDay_weekdayMatches:
  "weekdayMatches days w \<Longrightarrow> days \<noteq> [] \<Longrightarrow> \<exists>day\<in>set days. shortDay day = take 3 (to_lower (weekday_name w))"
proof -
  assume "weekdayMatches days w" "days \<noteq> []"
  then obtain day where d: "day \<in> set days"
      "to_lower (trim_space day) = take 3 (to_lower (weekday_name w)) \<or>
       to_lower (trim_space day) = to_lower (weekday_name w)"
    by (auto simp: weekdayMatches_def Let_def list_ex_iff)
  then have "shortDay day = take 3 (to_lower (weekday_name w))" by (auto simp: shortDay_def)
  with d(1) show ?thesis by blast
qed

lemma daysOverlap_complete:
  assumes "weekdayMatches a w" "weekdayMatches b w"
  shows "daysOverlap a b"
proof (cases "a = [] \<or> b = []")
  case False
  then obtain x y where "x \<in> set a" "y \<in> set b"
      "shortDay x = take 3 (to_lower (weekday_name w))" "shortDay y = take 3 (to_lower (weekday_name w))"
    using assms shortDay_weekdayMatches by metis
  then have "\<exists>x\<in>set a. \<exists>y\<in>set b. shortDay y = shortDay x" by metis
  then show ?thesis by (simp add: daysOverlap_def list_ex_iff)
qed (auto simp: daysOverlap_def)

lemma daysOverlap_sym: "daysOverlap a b \<longleftrightarrow> daysOverlap b a"
  unfolding daysOverlap_def list_ex_iff by metis

subsection \<open>Windows of the day\<close>

definition in_window :: "int \<Rightarrow> int \<Rightarrow> int \<Rightarrow> bool" where
  \<comment> \<open>the minutes from \<open>start\<close> up to \<open>end1\<close>, over midnight when \<open>end1\<close> is not later\<close>
  "in_window start end1 minute =
     (if start < end1 then start \<le> minute \<and> minute < end1 else start \<le> minute \<or> minute < end1)"

definition clockSegments :: "int \<Rightarrow> int \<Rightarrow> (int \<times> int) list" where
  "clockSegments start end1 =
     (if start = end1 then [(0, 24 * 60)]
      else if start < end1 then [(start, end1)]
      else [(start, 24 * 60), (0, end1)])"

lemma clockSegments_window:
  assumes "0 \<le> minute" "minute < 1440" "start \<noteq> end1"
  shows "(\<exists>(x, y)\<in>set (clockSegments start end1). x \<le> minute \<and> minute < y) \<longleftrightarrow> in_window start end1 minute"
  using assms by (auto simp: clockSegments_def in_window_def)

end
