(* ===== verification/Config_Pages.thy ===== *)
theory Config_Pages
  imports Config_Types
begin

section \<open>Pages and their identifiers\<close>

text \<open>
  The page list of \<^verbatim>\<open>internal/config/config.go\<close> and \<^verbatim>\<open>rules.go\<close>: which pages the browser can show
  (\<^verbatim>\<open>enabledPages\<close> and the look-ups by index and by identifier), the completion of saved pages
  (\<^verbatim>\<open>normalizeKioskPages\<close>) and the conversion of old rotations (\<^verbatim>\<open>migrateLegacySequence\<close>). The Go
  map \<^verbatim>\<open>used\<close> of identifiers is the list of its keys. Lemmas: after normalization identifiers are
  distinct and not empty, pages that are complete stay as they are.
\<close>

subsection \<open>The pages the browser can show\<close>

definition page_shown :: "KioskPage \<Rightarrow> bool" where
  "page_shown p \<longleftrightarrow> \<not> pg_Disabled p \<and> trim_space (pg_URL p) \<noteq> ''''"

definition enabledPages :: "KioskConfig \<Rightarrow> KioskPage list" where
  "enabledPages k = filter page_shown (k_Pages k)"

definition PageURLs :: "KioskConfig \<Rightarrow> string list" where
  "PageURLs k =
     (let urls = map (\<lambda>p. trim_space (pg_URL p)) (filter page_shown (k_Pages k)) in
      if urls \<noteq> [] then urls
      else filter (\<lambda>u. u \<noteq> '''') (map trim_space (k_URLs k)))"

definition PageCount :: "KioskConfig \<Rightarrow> nat" where
  "PageCount k = length (PageURLs k)"

definition PageName :: "KioskConfig \<Rightarrow> int \<Rightarrow> string" where
  "PageName k index =
     (let enabled = enabledPages k in
      if 0 \<le> index \<and> index < int (length enabled) then
        (if pg_Name (enabled ! nat index) \<noteq> '''' then pg_Name (enabled ! nat index)
         else ''Kiosk '' @ itoa (index + 1))
      else '''')"

fun page_by_id :: "string \<Rightarrow> KioskPage list \<Rightarrow> KioskPage option" where
  "page_by_id i [] = None"
| "page_by_id i (p # ps) = (if pg_PageID p = i then Some p else page_by_id i ps)"

definition PageNameByID :: "KioskConfig \<Rightarrow> string \<Rightarrow> string" where
  "PageNameByID k i = (case page_by_id i (k_Pages k) of Some p \<Rightarrow> pg_Name p | None \<Rightarrow> '''')"

fun index_where :: "('a \<Rightarrow> bool) \<Rightarrow> int \<Rightarrow> 'a list \<Rightarrow> int" where
  \<comment> \<open>the position of the first element that satisfies the test, counted from the second
    argument, or -1\<close>
  "index_where P n [] = - 1"
| "index_where P n (x # xs) = (if P x then n else index_where P (n + 1) xs)"

definition EnabledPageIndex :: "KioskConfig \<Rightarrow> string \<Rightarrow> int" where
  "EnabledPageIndex k pageID =
     (let i = trim_space pageID in
      if i = '''' then - 1 else index_where (\<lambda>p. pg_PageID p = i) 0 (enabledPages k))"

definition EnabledPageID :: "KioskConfig \<Rightarrow> int \<Rightarrow> string" where
  "EnabledPageID k index =
     (let enabled = enabledPages k in
      if index < 0 \<or> int (length enabled) \<le> index then '''' else pg_PageID (enabled ! nat index))"

fun preload_from :: "int \<Rightarrow> KioskPage list \<Rightarrow> int list" where
  "preload_from n [] = []"
| "preload_from n (p # ps) = (if pg_Preload p then n # preload_from (n + 1) ps else preload_from (n + 1) ps)"

definition PreloadIndexes :: "KioskConfig \<Rightarrow> int list" where
  "PreloadIndexes k = preload_from 0 (enabledPages k)"

lemma PageURLs_shown: "enabledPages k \<noteq> [] \<Longrightarrow> PageURLs k = map (\<lambda>p. trim_space (pg_URL p)) (enabledPages k)"
  by (simp add: PageURLs_def enabledPages_def)

lemma PageURLs_trimmed: "u \<in> set (PageURLs k) \<Longrightarrow> trim_space u = u \<and> u \<noteq> ''''"
  by (auto simp: PageURLs_def page_shown_def Let_def split: if_splits)

lemma index_where_bound:
  "index_where P n xs \<noteq> - 1 \<Longrightarrow> 0 \<le> n \<Longrightarrow>
   n \<le> index_where P n xs \<and> index_where P n xs < n + int (length xs) \<and> P (xs ! nat (index_where P n xs - n))"
proof (induction xs arbitrary: n)
  case (Cons x xs)
  show ?case
  proof (cases "P x")
    case False
    with Cons.prems have "index_where P (n + 1) xs \<noteq> - 1" by simp
    from Cons.IH [OF this] Cons.prems have IH: "n + 1 \<le> index_where P (n + 1) xs"
      "index_where P (n + 1) xs < n + 1 + int (length xs)"
      "P (xs ! nat (index_where P (n + 1) xs - (n + 1)))" by auto
    have "nat (index_where P (n + 1) xs - n) = Suc (nat (index_where P (n + 1) xs - (n + 1)))"
      using IH(1) by linarith
    with IH False show ?thesis by simp
  qed simp
qed simp

lemma index_where_none: "0 \<le> n \<Longrightarrow> index_where P n xs = - 1 \<longleftrightarrow> \<not> list_ex P xs"
  by (induction xs arbitrary: n) auto

lemma index_where_nth:
  "i < length xs \<Longrightarrow> P (xs ! i) \<Longrightarrow> (\<And>j. j < i \<Longrightarrow> \<not> P (xs ! j)) \<Longrightarrow> index_where P n xs = n + int i"
proof (induction xs arbitrary: n i)
  case (Cons x xs)
  show ?case
  proof (cases i)
    case 0
    with Cons.prems show ?thesis by simp
  next
    case (Suc j)
    with Cons.prems(3) [of 0] have "\<not> P x" by simp
    moreover have "index_where P (n + 1) xs = n + 1 + int j"
    proof (rule Cons.IH)
      show "\<not> P (xs ! l)" if "l < j" for l using Cons.prems(3) [of "Suc l"] Suc that by simp
    qed (use Cons.prems Suc in auto)
    ultimately show ?thesis using Suc by simp
  qed
qed simp

lemma EnabledPageIndex_range: "EnabledPageIndex k i < int (length (enabledPages k))"
  "- 1 \<le> EnabledPageIndex k i"
proof -
  have "index_where P 0 xs < int (length xs) \<and> - 1 \<le> index_where P 0 xs" for P and xs :: "KioskPage list"
    using index_where_bound [of P 0 xs] by (cases "index_where P 0 xs = - 1") auto
  then show "EnabledPageIndex k i < int (length (enabledPages k))" "- 1 \<le> EnabledPageIndex k i"
    by (simp_all add: EnabledPageIndex_def Let_def)
qed

lemma preload_from_mem:
  "i \<in> set (preload_from n ps) \<longleftrightarrow> n \<le> i \<and> i < n + int (length ps) \<and> pg_Preload (ps ! nat (i - n))"
proof (induction ps arbitrary: n)
  case (Cons p ps)
  have s: "n < i \<Longrightarrow> nat (i - n) = Suc (nat (i - (n + 1)))" by linarith
  show ?case
  proof (cases "n < i")
    case True
    then show ?thesis by (auto simp: Cons.IH s)
  next
    case False
    then show ?thesis by (auto simp: Cons.IH)
  qed
qed simp

lemma sorted_preload_from: "sorted_wrt (<) (preload_from n ps)"
  by (induction ps arbitrary: n) (auto simp: preload_from_mem)

subsection \<open>Identifiers\<close>

definition suffixed :: "string \<Rightarrow> nat \<Rightarrow> string" where
  "suffixed base suffix = base @ ''_'' @ nat_to_dec suffix"

lemma suffixed_inj: "suffixed base m = suffixed base n \<Longrightarrow> m = n"
  by (simp add: suffixed_def nat_to_dec_inj)

lemma finite_taken: "finite {n. s \<le> n \<and> suffixed base n \<in> set used}"
proof -
  have "inj_on (suffixed base) {n. s \<le> n \<and> suffixed base n \<in> set used}"
    by (meson inj_onI suffixed_inj)
  moreover have "suffixed base ` {n. s \<le> n \<and> suffixed base n \<in> set used} \<subseteq> set used" by auto
  ultimately show ?thesis using finite_set finite_subset finite_imageD by metis
qed

function free_suffix :: "string \<Rightarrow> string list \<Rightarrow> nat \<Rightarrow> string" where
  \<comment> \<open>the loop of \<^verbatim>\<open>uniquePageID\<close>\<close>
  "free_suffix base used suffix =
     (if suffixed base suffix \<notin> set used then suffixed base suffix
      else free_suffix base used (suffix + 1))"
  by pat_completeness auto
termination
proof (relation "measure (\<lambda>(base, used, s). card {n. s \<le> n \<and> suffixed base n \<in> set used})", goal_cases)
  case (2 base used s)
  then have "s \<in> {n. s \<le> n \<and> suffixed base n \<in> set used} - {n. s + 1 \<le> n \<and> suffixed base n \<in> set used}"
    by simp
  moreover have "{n. s + 1 \<le> n \<and> suffixed base n \<in> set used} \<subseteq> {n. s \<le> n \<and> suffixed base n \<in> set used}"
    by auto
  ultimately have "{n. s + 1 \<le> n \<and> suffixed base n \<in> set used} \<subset> {n. s \<le> n \<and> suffixed base n \<in> set used}"
    by blast
  then show ?case by (simp add: psubset_card_mono finite_taken)
qed simp

declare free_suffix.simps [simp del]

definition uniquePageID :: "string \<Rightarrow> string list \<Rightarrow> string" where
  "uniquePageID base used = (if base \<notin> set used then base else free_suffix base used 2)"

lemma free_suffix_fresh: "free_suffix base used s \<notin> set used"
  by (induction base used s rule: free_suffix.induct) (subst free_suffix.simps, auto)

lemma free_suffix_nonempty [simp]: "free_suffix base used s \<noteq> ''''"
  by (induction base used s rule: free_suffix.induct) (subst free_suffix.simps, auto simp: suffixed_def)

lemma uniquePageID_fresh [simp]: "uniquePageID base used \<notin> set used"
  by (simp add: uniquePageID_def free_suffix_fresh)

lemma uniquePageID_nonempty: "base \<noteq> '''' \<Longrightarrow> uniquePageID base used \<noteq> ''''"
  by (simp add: uniquePageID_def)

fun slug_chars :: "bool \<Rightarrow> string \<Rightarrow> string \<Rightarrow> string" where
  \<comment> \<open>the loop of \<^verbatim>\<open>legacyPageID\<close>: whether the last written character is an underscore, the
    text written so far, the characters left\<close>
  "slug_chars lastUnderscore out [] = out"
| "slug_chars lastUnderscore out (r # rs) =
     (if r \<in> set lower_letters \<or> r \<in> set digits then slug_chars False (out @ [r]) rs
      else if \<not> lastUnderscore \<and> out \<noteq> [] then slug_chars True (out @ ''_'') rs
      else slug_chars lastUnderscore out rs)"

definition legacyPageID :: "string \<Rightarrow> nat \<Rightarrow> string list \<Rightarrow> string" where
  "legacyPageID name index used =
     (let base = trim_set (slug_chars False [] (to_lower (trim_space name))) ''_''
      in uniquePageID (if base = '''' then ''page_'' @ itoa (int index + 1) else base) used)"

lemma legacyPageID_fresh [simp]: "legacyPageID name index used \<notin> set used"
  by (simp add: legacyPageID_def Let_def)

lemma legacyPageID_nonempty [simp]: "legacyPageID name index used \<noteq> ''''"
  by (simp add: legacyPageID_def Let_def uniquePageID_nonempty)

subsection \<open>Completing saved pages\<close>

definition page_source :: "KioskPage \<Rightarrow> string" where
  "page_source p =
     (if pg_SourceType p \<noteq> '''' then pg_SourceType p
      else if contains (to_lower (pg_URL p)) ''home-assistant'' \<or> contains (to_lower (pg_URL p)) '':8123''
      then ''home_assistant'' else ''url'')"

definition page_mode :: "KioskConfig \<Rightarrow> nat \<Rightarrow> KioskPage \<Rightarrow> string \<times> KioskPageSchedule" where
  "page_mode k index p =
     (if pg_DisplayMode p \<noteq> '''' then (pg_DisplayMode p, pg_Schedule p)
      else case find (\<lambda>rule. tr_Page rule = int index \<and> \<not> tr_Disabled rule) (k_TimeRules k) of
          None \<Rightarrow> (''duration'', pg_Schedule p)
        | Some rule \<Rightarrow>
            (''schedule'', \<lparr>sch_Start = tr_Start rule, sch_End = tr_End rule, sch_Days = tr_Days rule\<rparr>))"

definition page_duration :: "KioskConfig \<Rightarrow> nat \<Rightarrow> KioskPage \<Rightarrow> int" where
  "page_duration k index p =
     (if 0 < pg_DurationSeconds p then pg_DurationSeconds p
      else case find (\<lambda>item. rot_Page item = int index \<and> 0 < rot_DurationSeconds item) (k_Rotation k) of
          None \<Rightarrow> 3600
        | Some item \<Rightarrow> rot_DurationSeconds item)"

definition page_display :: "KioskDisplayOptions \<Rightarrow> KioskDisplayOptions" where
  "page_display d = (if dsp_Brightness d = None then d\<lparr>dsp_Brightness := Some 100\<rparr> else d)"

definition page_identifier :: "nat \<Rightarrow> string list \<Rightarrow> KioskPage \<Rightarrow> string" where
  "page_identifier index used p =
     (if pg_PageID p = '''' then legacyPageID (pg_Name p) index used
      else if pg_PageID p \<in> set used then uniquePageID (pg_PageID p) used
      else pg_PageID p)"

definition normalize_page :: "KioskConfig \<Rightarrow> nat \<Rightarrow> string list \<Rightarrow> KioskPage \<Rightarrow> KioskPage" where
  \<comment> \<open>one round of the loop of \<^verbatim>\<open>normalizeKioskPages\<close>\<close>
  "normalize_page k index used p =
     p\<lparr>pg_PageID := page_identifier index used p,
       pg_SourceType := page_source p,
       pg_DisplayMode := fst (page_mode k index p),
       pg_Schedule := snd (page_mode k index p),
       pg_DurationSeconds := page_duration k index p,
       pg_DisplayOptions := page_display (pg_DisplayOptions p)\<rparr>"

fun normalize_pages :: "KioskConfig \<Rightarrow> nat \<Rightarrow> string list \<Rightarrow> KioskPage list \<Rightarrow> KioskPage list" where
  "normalize_pages k index used [] = []"
| "normalize_pages k index used (p # ps) =
     (let p' = normalize_page k index used p
      in p' # normalize_pages k (Suc index) (pg_PageID p' # used) ps)"

definition normalizeKioskPages :: "KioskConfig \<Rightarrow> KioskConfig" where
  "normalizeKioskPages k = k\<lparr>k_Pages := normalize_pages k 0 [] (k_Pages k)\<rparr>"

definition page_complete :: "KioskPage \<Rightarrow> bool" where
  \<comment> \<open>every field that \<^verbatim>\<open>normalizeKioskPages\<close> fills is set\<close>
  "page_complete p \<longleftrightarrow>
     pg_PageID p \<noteq> '''' \<and> pg_SourceType p \<noteq> '''' \<and> pg_DisplayMode p \<noteq> '''' \<and>
     0 < pg_DurationSeconds p \<and> dsp_Brightness (pg_DisplayOptions p) \<noteq> None"

lemma page_identifier_fresh: "page_identifier index used p \<notin> set used"
  by (simp add: page_identifier_def)

lemma page_identifier_nonempty: "page_identifier index used p \<noteq> ''''"
  by (simp add: page_identifier_def uniquePageID_nonempty)

lemma normalize_page_complete: "page_complete (normalize_page k index used p)"
proof -
  have "fst (page_mode k index p) \<noteq> ''''" by (simp add: page_mode_def split: option.split)
  moreover have "0 < page_duration k index p"
    by (auto simp: page_duration_def find_Some_iff split: option.split)
  moreover have "page_source p \<noteq> ''''" by (simp add: page_source_def)
  moreover have "dsp_Brightness (page_display d) \<noteq> None" for d by (simp add: page_display_def)
  ultimately show ?thesis
    by (simp add: page_complete_def normalize_page_def page_identifier_nonempty)
qed

lemma normalize_page_unchanged:
  assumes "page_complete p" "pg_PageID p \<notin> set used"
  shows "normalize_page k index used p = p"
proof -
  have "page_identifier index used p = pg_PageID p" "page_source p = pg_SourceType p"
    "page_mode k index p = (pg_DisplayMode p, pg_Schedule p)"
    "page_duration k index p = pg_DurationSeconds p"
    "page_display (pg_DisplayOptions p) = pg_DisplayOptions p"
    using assms by (simp_all add: page_complete_def page_identifier_def page_source_def
        page_mode_def page_duration_def page_display_def)
  then show ?thesis by (simp add: normalize_page_def)
qed

lemma length_normalize_pages [simp]: "length (normalize_pages k i used ps) = length ps"
  by (induction ps arbitrary: i used) (simp_all add: Let_def)

lemma normalize_pages_complete: "list_all page_complete (normalize_pages k i used ps)"
  by (induction ps arbitrary: i used) (simp_all add: Let_def normalize_page_complete)

lemma normalize_pages_ids:
  "distinct (map pg_PageID (normalize_pages k i used ps)) \<and>
   set (map pg_PageID (normalize_pages k i used ps)) \<inter> set used = {}"
proof (induction ps arbitrary: i used)
  case (Cons p ps)
  let ?p = "normalize_page k i used p"
  have "pg_PageID ?p \<notin> set used" by (simp add: normalize_page_def page_identifier_fresh)
  with Cons.IH [of "Suc i" "pg_PageID ?p # used"] show ?case by (auto simp: Let_def)
qed simp

lemma normalize_pages_unchanged:
  "list_all page_complete ps \<Longrightarrow> distinct (map pg_PageID ps) \<Longrightarrow>
   set (map pg_PageID ps) \<inter> set used = {} \<Longrightarrow> normalize_pages k i used ps = ps"
proof (induction ps arbitrary: i used)
  case (Cons p ps)
  then have "normalize_page k i used p = p" by (intro normalize_page_unchanged) auto
  moreover have "normalize_pages k (Suc i) (pg_PageID p # used) ps = ps"
    using Cons.prems by (intro Cons.IH) auto
  ultimately show ?case by simp
qed simp

lemma normalize_pages_urls: "map pg_URL (normalize_pages k i used ps) = map pg_URL ps"
  "map pg_Disabled (normalize_pages k i used ps) = map pg_Disabled ps"
  by (induction ps arbitrary: i used) (simp_all add: Let_def normalize_page_def)

subsection \<open>Rotations of old configurations\<close>

text \<open>
  Old configurations had a rotation that named pages by their position and could name a page
  several times. \<^verbatim>\<open>migrateLegacySequence\<close> writes the sequence out as pages. The Go map
  \<^verbatim>\<open>firstIndex\<close> is an association list from old to new positions, newest entry first.
\<close>

fun place_rotation ::
  "KioskPage list \<Rightarrow> RotationItem list \<Rightarrow> KioskPage list \<Rightarrow> (int \<times> int) list \<Rightarrow> KioskPage list \<times> (int \<times> int) list" where
  "place_rotation enabled [] sequence first = (sequence, first)"
| "place_rotation enabled (item # items) sequence first =
     (let page = (enabled ! nat (rot_Page item))\<lparr>pg_DurationSeconds := rot_DurationSeconds item\<rparr>;
          first' = (if map_of first (rot_Page item) = None
                    then (rot_Page item, int (length sequence)) # first else first)
      in place_rotation enabled items (sequence @ [page]) first')"

fun place_unreferenced ::
  "int \<Rightarrow> KioskPage list \<Rightarrow> int list \<Rightarrow> KioskPage list \<Rightarrow> (int \<times> int) list \<Rightarrow> KioskPage list \<times> (int \<times> int) list" where
  "place_unreferenced old [] referenced sequence first = (sequence, first)"
| "place_unreferenced old (page # pages) referenced sequence first =
     (if old \<in> set referenced then place_unreferenced (old + 1) pages referenced sequence first
      else place_unreferenced (old + 1) pages referenced (sequence @ [page])
             ((old, int (length sequence)) # first))"

definition rotation_legacy :: "KioskConfig \<Rightarrow> bool" where
  \<comment> \<open>none of the early returns of \<^verbatim>\<open>migrateLegacySequence\<close> is taken\<close>
  "rotation_legacy k \<longleftrightarrow>
     (let rotation = k_Rotation k; enabled = enabledPages k in
      rotation \<noteq> [] \<and> k_Pages k \<noteq> [] \<and> list_all (\<lambda>p. pg_PageID p = '''') (k_Pages k) \<and>
      enabled \<noteq> [] \<and>
      list_all (\<lambda>item. 0 \<le> rot_Page item \<and> rot_Page item < int (length enabled)) rotation \<and>
      \<not> (length rotation = length enabled \<and>
         map rot_Page rotation = map int [0..<length rotation]))"

definition migrateLegacySequence :: "KioskConfig \<Rightarrow> KioskConfig" where
  "migrateLegacySequence k =
     (if \<not> rotation_legacy k then k
      else
        let enabled = enabledPages k;
            (sequence1, first1) = place_rotation enabled (k_Rotation k) [] [];
            (sequence2, first2) =
              place_unreferenced 0 enabled (map rot_Page (k_Rotation k)) sequence1 first1;
            sequence = sequence2 @ filter (\<lambda>p. \<not> page_shown p) (k_Pages k)
        in k\<lparr>k_TimeRules := map (\<lambda>rule. case map_of first2 (tr_Page rule) of
               None \<Rightarrow> rule | Some mapped \<Rightarrow> rule\<lparr>tr_Page := mapped\<rparr>) (k_TimeRules k),
             k_Pages := sequence,
             k_Rotation := map (\<lambda>index. let d = pg_DurationSeconds (sequence ! index) in
               \<lparr>rot_Page = int index, rot_DurationSeconds = (if d \<le> 0 then 3600 else d)\<rparr>)
               [0..<length (k_Rotation k)]\<rparr>)"

definition placed_right :: "KioskPage list \<Rightarrow> KioskPage list \<Rightarrow> (int \<times> int) list \<Rightarrow> bool" where
  \<comment> \<open>every recorded position holds a page with the address of the old position's page\<close>
  "placed_right enabled sequence first \<longleftrightarrow>
     (\<forall>old new. map_of first old = Some new \<longrightarrow>
        0 \<le> old \<and> old < int (length enabled) \<and> 0 \<le> new \<and> new < int (length sequence) \<and>
        pg_URL (sequence ! nat new) = pg_URL (enabled ! nat old))"

lemma placed_right_snoc:
  "placed_right enabled sequence first \<Longrightarrow> placed_right enabled (sequence @ [p]) first"
  by (fastforce simp: placed_right_def nth_append nat_less_iff)

lemma placed_right_add:
  assumes "placed_right enabled sequence first" "0 \<le> old" "old < int (length enabled)"
    and "pg_URL p = pg_URL (enabled ! nat old)"
  shows "placed_right enabled (sequence @ [p]) ((old, int (length sequence)) # first)"
proof -
  have "placed_right enabled (sequence @ [p]) first" using assms(1) by (rule placed_right_snoc)
  then show ?thesis using assms(2-) by (auto simp: placed_right_def)
qed

lemma place_rotation_result:
  assumes "list_all (\<lambda>item. 0 \<le> rot_Page item \<and> rot_Page item < int (length enabled)) items"
    and "placed_right enabled sequence first"
    and "place_rotation enabled items sequence first = (sequence', first')"
  shows "sequence' = sequence @ map (\<lambda>item. (enabled ! nat (rot_Page item))
           \<lparr>pg_DurationSeconds := rot_DurationSeconds item\<rparr>) items \<and>
         placed_right enabled sequence' first' \<and>
         dom (map_of first') = dom (map_of first) \<union> rot_Page ` set items"
  using assms
proof (induction items arbitrary: sequence first)
  case (Cons item items)
  let ?page = "(enabled ! nat (rot_Page item))\<lparr>pg_DurationSeconds := rot_DurationSeconds item\<rparr>"
  let ?first = "if map_of first (rot_Page item) = None
    then (rot_Page item, int (length sequence)) # first else first"
  have "placed_right enabled (sequence @ [?page]) ?first"
    using Cons.prems(1,2) placed_right_snoc placed_right_add [of enabled sequence first "rot_Page item" ?page]
    by auto
  moreover have "place_rotation enabled items (sequence @ [?page]) ?first = (sequence', first')"
    using Cons.prems(3) by (simp add: Let_def)
  moreover have "list_all (\<lambda>item. 0 \<le> rot_Page item \<and> rot_Page item < int (length enabled)) items"
    using Cons.prems(1) by simp
  ultimately have "sequence' = (sequence @ [?page]) @ map (\<lambda>item. (enabled ! nat (rot_Page item))
           \<lparr>pg_DurationSeconds := rot_DurationSeconds item\<rparr>) items \<and>
         placed_right enabled sequence' first' \<and>
         dom (map_of first') = dom (map_of ?first) \<union> rot_Page ` set items"
    using Cons.IH by blast
  moreover have "dom (map_of ?first) = insert (rot_Page item) (dom (map_of first))" by auto
  ultimately show ?case by auto
qed simp

lemma place_unreferenced_result:
  assumes "placed_right enabled sequence first" "0 \<le> old" "drop (nat old) enabled = pages"
    and "int (length pages) = int (length enabled) - old"
    and "place_unreferenced old pages referenced sequence first = (sequence', first')"
  shows "(\<exists>more. sequence' = sequence @ more \<and> set more \<subseteq> set pages) \<and> placed_right enabled sequence' first' \<and>
         dom (map_of first') = dom (map_of first) \<union> ({old..<int (length enabled)} - set referenced)"
  using assms
proof (induction pages arbitrary: old sequence first)
  case (Cons page pages)
  from Cons.prems have less: "old < int (length enabled)" by simp
  from Cons.prems(3) have page: "page = enabled ! nat old" using nth_via_drop by metis
  have "nat (old + 1) = Suc (nat old)" using Cons.prems(2) by simp
  then have drop: "drop (nat (old + 1)) enabled = pages"
    using Cons.prems(3) by (metis drop_Suc list.sel(3) tl_drop)
  have range: "{old..<int (length enabled)} = insert old {old + 1..<int (length enabled)}"
    using less by auto
  have len: "int (length pages) = int (length enabled) - (old + 1)" using Cons.prems(4) by simp
  show ?case
  proof (cases "old \<in> set referenced")
    case True
    then have "place_unreferenced (old + 1) pages referenced sequence first = (sequence', first')"
      using Cons.prems(5) by simp
    from Cons.IH [OF Cons.prems(1) _ drop len this] Cons.prems(2) True range show ?thesis by auto
  next
    case False
    let ?first = "(old, int (length sequence)) # first"
    have "place_unreferenced (old + 1) pages referenced (sequence @ [page]) ?first = (sequence', first')"
      using Cons.prems(5) False by simp
    moreover have "placed_right enabled (sequence @ [page]) ?first"
      using Cons.prems(1,2) less page by (intro placed_right_add) auto
    moreover have "0 \<le> old + 1" using Cons.prems(2) by simp
    ultimately have IH: "\<exists>more. sequence' = (sequence @ [page]) @ more \<and> set more \<subseteq> set pages"
        "placed_right enabled sequence' first'"
        "dom (map_of first') = dom (map_of ?first) \<union> ({old + 1..<int (length enabled)} - set referenced)"
      using Cons.IH [OF _ _ drop len] by blast+
    from IH(1) obtain more where "sequence' = sequence @ (page # more)" "set (page # more) \<subseteq> set (page # pages)"
      by auto
    moreover have "dom (map_of first') = dom (map_of first) \<union> ({old..<int (length enabled)} - set referenced)"
      using IH(3) False range by auto
    ultimately show ?thesis using IH(2) by blast
  qed
qed simp

lemma migrateLegacySequence_unchanged: "list_ex (\<lambda>p. pg_PageID p \<noteq> '''') (k_Pages k) \<Longrightarrow> migrateLegacySequence k = k"
  by (auto simp: migrateLegacySequence_def rotation_legacy_def list_ex_iff list_all_iff Let_def)

lemma migrate_parts:
  assumes "rotation_legacy k"
  obtains more first where
    "enabledPages (migrateLegacySequence k) = map (\<lambda>item. (enabledPages k ! nat (rot_Page item))
           \<lparr>pg_DurationSeconds := rot_DurationSeconds item\<rparr>) (k_Rotation k) @ more"
    "placed_right (enabledPages k) (enabledPages (migrateLegacySequence k)) first"
    "dom (map_of first) = {0..<int (length (enabledPages k))}"
    "k_TimeRules (migrateLegacySequence k) = map (\<lambda>rule. case map_of first (tr_Page rule) of
               None \<Rightarrow> rule | Some mapped \<Rightarrow> rule\<lparr>tr_Page := mapped\<rparr>) (k_TimeRules k)"
    "k_Rotation (migrateLegacySequence k) = map (\<lambda>index.
       let d = rot_DurationSeconds (k_Rotation k ! index) in
               \<lparr>rot_Page = int index, rot_DurationSeconds = (if d \<le> 0 then 3600 else d)\<rparr>)
               [0..<length (k_Rotation k)]"
proof -
  let ?en = "enabledPages k" and ?rot = "k_Rotation k"
  obtain s1 f1 where r1: "place_rotation ?en ?rot [] [] = (s1, f1)" by fastforce
  obtain s2 f2 where r2: "place_unreferenced 0 ?en (map rot_Page ?rot) s1 f1 = (s2, f2)" by fastforce
  let ?seq = "s2 @ filter (\<lambda>p. \<not> page_shown p) (k_Pages k)"
  have range: "list_all (\<lambda>item. 0 \<le> rot_Page item \<and> rot_Page item < int (length ?en)) ?rot"
    using assms by (simp add: rotation_legacy_def Let_def)
  from place_rotation_result [OF range _ r1]
  have p1: "s1 = map (\<lambda>item. (?en ! nat (rot_Page item))\<lparr>pg_DurationSeconds := rot_DurationSeconds item\<rparr>) ?rot"
    "placed_right ?en s1 f1" "dom (map_of f1) = rot_Page ` set ?rot"
    by (auto simp: placed_right_def)
  from place_unreferenced_result [OF p1(2) _ _ _ r2]
  obtain more where more: "s2 = s1 @ more" "set more \<subseteq> set ?en" and p2: "placed_right ?en s2 f2"
    "dom (map_of f2) = rot_Page ` set ?rot \<union> ({0..<int (length ?en)} - rot_Page ` set ?rot)"
    using p1(3) by auto
  have dom: "dom (map_of f2) = {0..<int (length ?en)}"
    using range p2(2) by (auto simp: list_all_iff)
  have m: "migrateLegacySequence k =
     k\<lparr>k_TimeRules := map (\<lambda>rule. case map_of f2 (tr_Page rule) of
               None \<Rightarrow> rule | Some mapped \<Rightarrow> rule\<lparr>tr_Page := mapped\<rparr>) (k_TimeRules k),
       k_Pages := ?seq,
       k_Rotation := map (\<lambda>index. let d = pg_DurationSeconds (?seq ! index) in
               \<lparr>rot_Page = int index, rot_DurationSeconds = (if d \<le> 0 then 3600 else d)\<rparr>)
               [0..<length ?rot]\<rparr>"
    using assms by (simp add: migrateLegacySequence_def r1 r2 Let_def)
  have shown: "page_shown p" if "p \<in> set s2" for p
  proof -
    have en: "page_shown q" if "q \<in> set ?en" for q using that by (simp add: enabledPages_def)
    from that more consider "p \<in> set s1" | "p \<in> set ?en" by auto
    then show ?thesis
    proof cases
      assume "p \<in> set s1"
      then obtain item where "item \<in> set ?rot"
          "p = (?en ! nat (rot_Page item))\<lparr>pg_DurationSeconds := rot_DurationSeconds item\<rparr>"
        using p1(1) by auto
      moreover from this range have "?en ! nat (rot_Page item) \<in> set ?en"
        by (auto simp: list_all_iff nat_less_iff)
      ultimately show ?thesis using en by (simp add: page_shown_def)
    qed (rule en)
  qed
  have "enabledPages (migrateLegacySequence k) = s2"
    using shown by (simp add: m enabledPages_def filter_empty_conv)
  moreover have "s2 = map (\<lambda>item. (?en ! nat (rot_Page item))
      \<lparr>pg_DurationSeconds := rot_DurationSeconds item\<rparr>) ?rot @ more"
    using more(1) p1(1) by simp
  moreover have "pg_DurationSeconds (?seq ! i) = rot_DurationSeconds (?rot ! i)" if "i < length ?rot" for i
    using that by (simp add: more(1) p1(1) nth_append)
  then have "k_Rotation (migrateLegacySequence k) = map (\<lambda>index.
       let d = rot_DurationSeconds (?rot ! index) in
               \<lparr>rot_Page = int index, rot_DurationSeconds = (if d \<le> 0 then 3600 else d)\<rparr>)
               [0..<length ?rot]"
    by (simp add: m)
  moreover have "k_TimeRules (migrateLegacySequence k) = map (\<lambda>rule. case map_of f2 (tr_Page rule) of
               None \<Rightarrow> rule | Some mapped \<Rightarrow> rule\<lparr>tr_Page := mapped\<rparr>) (k_TimeRules k)"
    by (simp add: m)
  ultimately show thesis using p2(1) dom by (intro that [of more f2]) simp_all
qed

subsection \<open>Properties\<close>

text \<open>C15: Normalizing the page list gives every page a non-empty identifier that no other page has,
  a source type, a display mode, a positive duration and a brightness, keeps the number of pages,
  their addresses and which are disabled, and changes nothing when it is done again.\<close>

theorem normalizeKioskPages_complete:
  "list_all page_complete (k_Pages (normalizeKioskPages k)) \<and>
   distinct (map pg_PageID (k_Pages (normalizeKioskPages k))) \<and>
   map pg_URL (k_Pages (normalizeKioskPages k)) = map pg_URL (k_Pages k) \<and>
   map pg_Disabled (k_Pages (normalizeKioskPages k)) = map pg_Disabled (k_Pages k) \<and>
   normalizeKioskPages (normalizeKioskPages k) = normalizeKioskPages k"
  using normalize_pages_complete [of k 0 "[]" "k_Pages k"] normalize_pages_ids [of k 0 "[]" "k_Pages k"]
  by (simp add: normalizeKioskPages_def normalize_pages_urls normalize_pages_unchanged)

text \<open>C14: The conversion of an old rotation keeps the playlist: the entries of the new rotation are the
  pages \<open>0, 1, ...\<close>, each with the address and the duration of the page the old entry named, and
  every time rule that named an enabled page names a page with the same address.\<close>

theorem migrateLegacySequence_keeps_playlist:
  assumes "rotation_legacy k"
  shows "map (\<lambda>item. pg_URL (enabledPages (migrateLegacySequence k) ! nat (rot_Page item)))
           (k_Rotation (migrateLegacySequence k)) =
         map (\<lambda>item. pg_URL (enabledPages k ! nat (rot_Page item))) (k_Rotation k) \<and>
         map rot_DurationSeconds (k_Rotation (migrateLegacySequence k)) =
         map (\<lambda>item. if rot_DurationSeconds item \<le> 0 then 3600 else rot_DurationSeconds item) (k_Rotation k) \<and>
         list_all2 (\<lambda>rule rule'. 0 \<le> tr_Page rule \<longrightarrow> tr_Page rule < int (length (enabledPages k)) \<longrightarrow>
             0 \<le> tr_Page rule' \<and> tr_Page rule' < int (length (enabledPages (migrateLegacySequence k))) \<and>
             pg_URL (enabledPages (migrateLegacySequence k) ! nat (tr_Page rule')) =
             pg_URL (enabledPages k ! nat (tr_Page rule)))
           (k_TimeRules k) (k_TimeRules (migrateLegacySequence k))"
proof -
  obtain more first where m:
    "enabledPages (migrateLegacySequence k) = map (\<lambda>item. (enabledPages k ! nat (rot_Page item))
           \<lparr>pg_DurationSeconds := rot_DurationSeconds item\<rparr>) (k_Rotation k) @ more"
    and placed: "placed_right (enabledPages k) (enabledPages (migrateLegacySequence k)) first"
    and dom: "dom (map_of first) = {0..<int (length (enabledPages k))}"
    and rules: "k_TimeRules (migrateLegacySequence k) = map (\<lambda>rule. case map_of first (tr_Page rule) of
               None \<Rightarrow> rule | Some mapped \<Rightarrow> rule\<lparr>tr_Page := mapped\<rparr>) (k_TimeRules k)"
    and rot: "k_Rotation (migrateLegacySequence k) = map (\<lambda>index.
       let d = rot_DurationSeconds (k_Rotation k ! index) in
               \<lparr>rot_Page = int index, rot_DurationSeconds = (if d \<le> 0 then 3600 else d)\<rparr>)
               [0..<length (k_Rotation k)]"
    using migrate_parts [OF assms] .
  have "map (\<lambda>item. pg_URL (enabledPages (migrateLegacySequence k) ! nat (rot_Page item)))
           (k_Rotation (migrateLegacySequence k)) =
         map (\<lambda>item. pg_URL (enabledPages k ! nat (rot_Page item))) (k_Rotation k)"
    by (rule nth_equalityI) (simp_all add: rot m Let_def nth_append)
  moreover have "map rot_DurationSeconds (k_Rotation (migrateLegacySequence k)) =
         map (\<lambda>item. if rot_DurationSeconds item \<le> 0 then 3600 else rot_DurationSeconds item) (k_Rotation k)"
    by (rule nth_equalityI) (simp_all add: rot Let_def)
  moreover have "\<exists>new. map_of first (tr_Page rule) = Some new"
    if "0 \<le> tr_Page rule" "tr_Page rule < int (length (enabledPages k))" for rule
    using that dom by (metis atLeastLessThan_iff domD)
  then have "list_all2 (\<lambda>rule rule'. 0 \<le> tr_Page rule \<longrightarrow> tr_Page rule < int (length (enabledPages k)) \<longrightarrow>
             0 \<le> tr_Page rule' \<and> tr_Page rule' < int (length (enabledPages (migrateLegacySequence k))) \<and>
             pg_URL (enabledPages (migrateLegacySequence k) ! nat (tr_Page rule')) =
             pg_URL (enabledPages k ! nat (tr_Page rule)))
           (k_TimeRules k) (k_TimeRules (migrateLegacySequence k))"
    using placed unfolding rules by (fastforce simp: list_all2_conv_all_nth placed_right_def)
  ultimately show ?thesis by blast
qed

definition demo_page :: "string \<Rightarrow> string \<Rightarrow> KioskPage" where
  "demo_page name url = zero_page\<lparr>pg_Name := name, pg_URL := url\<rparr>"

definition demo_legacy :: KioskConfig where
  "demo_legacy = zero_kiosk\<lparr>
     k_Pages := [demo_page ''A'' ''http://a'', demo_page ''B'' ''http://b''],
     k_Rotation := [\<lparr>rot_Page = 1, rot_DurationSeconds = 20\<rparr>, \<lparr>rot_Page = 0, rot_DurationSeconds = 0\<rparr>,
       \<lparr>rot_Page = 1, rot_DurationSeconds = 30\<rparr>],
     k_TimeRules := [\<lparr>tr_Name = '''', tr_Page = 0, tr_Start = ''08:00'', tr_End = ''09:00'', tr_Days = [],
       tr_Disabled = False\<rparr>]\<rparr>"

lemma demo_legacy_pages: "rotation_legacy demo_legacy" "length (enabledPages demo_legacy) = 2"
  "enabledPages demo_legacy ! 0 = demo_page ''A'' ''http://a''"
  "enabledPages demo_legacy ! 1 = demo_page ''B'' ''http://b''"
  by code_simp+

lemma migrateLegacySequence_keeps_playlist_witness:
  "map (\<lambda>item. pg_URL (enabledPages (migrateLegacySequence demo_legacy) ! nat (rot_Page item)))
     (k_Rotation (migrateLegacySequence demo_legacy)) = [''http://b'', ''http://a'', ''http://b''] \<and>
   map rot_DurationSeconds (k_Rotation (migrateLegacySequence demo_legacy)) = [20, 3600, 30] \<and>
   map tr_Page (k_TimeRules (migrateLegacySequence demo_legacy)) = [1]"
proof -
  have r: "k_Rotation demo_legacy = [\<lparr>rot_Page = 1, rot_DurationSeconds = 20\<rparr>,
      \<lparr>rot_Page = 0, rot_DurationSeconds = 0\<rparr>, \<lparr>rot_Page = 1, rot_DurationSeconds = 30\<rparr>]"
    by (simp add: demo_legacy_def)
  have t: "map tr_Page (k_TimeRules (migrateLegacySequence demo_legacy)) = [1]" by code_simp
  show ?thesis
    using migrateLegacySequence_keeps_playlist [OF demo_legacy_pages(1)] t
    unfolding r by (simp add: demo_legacy_pages(3,4) [simplified] demo_page_def)
qed

text \<open>A page without an identifier that comes first can be given the identifier that a later page
  has been saved with; the later page is renamed, and references to the identifier (inserts,
  workflow rules) then mean the first page.\<close>

theorem generated_id_takes_saved_id:
  assumes "k_Pages k = p # q # ps" "pg_PageID p = ''''" "legacyPageID (pg_Name p) 0 [] = pg_PageID q"
    and "page_shown p" "trim_space (pg_PageID q) = pg_PageID q"
  shows "pg_PageID (k_Pages (normalizeKioskPages k) ! 1) \<noteq> pg_PageID q \<and>
         EnabledPageIndex (normalizeKioskPages k) (pg_PageID q) = 0"
proof -
  have q: "pg_PageID q \<noteq> ''''" using assms(3) legacyPageID_nonempty by metis
  let ?p = "normalize_page k 0 [] p"
  have id: "pg_PageID ?p = pg_PageID q" using assms(2,3) by (simp add: normalize_page_def page_identifier_def)
  obtain qs where pages: "k_Pages (normalizeKioskPages k) = ?p # normalize_page k (Suc 0) [pg_PageID ?p] q # qs"
    using assms(1) by (simp add: normalizeKioskPages_def Let_def)
  have "pg_PageID (normalize_page k (Suc 0) [pg_PageID ?p] q) \<notin> set [pg_PageID ?p]"
    unfolding normalize_page_def [of k "Suc 0"] using page_identifier_fresh [of "Suc 0" "[pg_PageID ?p]" q]
    by simp
  then have "pg_PageID (k_Pages (normalizeKioskPages k) ! 1) \<noteq> pg_PageID q" using id pages by simp
  moreover have "page_shown ?p" using assms(4) by (simp add: page_shown_def normalize_page_def)
  then have "EnabledPageIndex (normalizeKioskPages k) (pg_PageID q) = 0"
    using assms(5) q id by (simp add: EnabledPageIndex_def enabledPages_def pages Let_def)
  ultimately show ?thesis ..
qed

lemma generated_id_takes_saved_id_witness:
  "EnabledPageIndex (normalizeKioskPages (zero_kiosk\<lparr>k_Pages := [demo_page ''Home'' ''http://a'',
     (demo_page ''Other'' ''http://b'')\<lparr>pg_PageID := ''home''\<rparr>]\<rparr>)) ''home'' = 0"
proof -
  have "page_shown (demo_page ''Home'' ''http://a'')" "trim_space ''home'' = ''home''"
    "legacyPageID ''Home'' 0 [] = ''home''" by code_simp+
  with generated_id_takes_saved_id [of "zero_kiosk\<lparr>k_Pages := [demo_page ''Home'' ''http://a'',
     (demo_page ''Other'' ''http://b'')\<lparr>pg_PageID := ''home''\<rparr>]\<rparr>" "demo_page ''Home'' ''http://a''"
     "(demo_page ''Other'' ''http://b'')\<lparr>pg_PageID := ''home''\<rparr>" "[]"]
  show ?thesis by (simp add: demo_page_def zero_page_def)
qed

end
