(* ===== verification/Config_Rules.thy ===== *)
theory Config_Rules
  imports Config_Clock Config_Pages
begin

section \<open>Validation of workflow rules and page inserts\<close>

text \<open>
  \<^verbatim>\<open>validateRules\<close> (rules.go) and \<^verbatim>\<open>validateInserts\<close> (inserts.go). The error is the label of the
  rule or insert and the reason, a constructor per message; the first problem is reported. Lemmas:
  what holds of an accepted list, in the terms the engine and the scheduler rely on.
\<close>

datatype rule_error =
    BadID | DuplicateID string
  | MqttTopicNeeded | TimeNeeded | TokenNeeded | IdleNeeded | UnknownTrigger
  | WindowIncomplete | WindowClock | UnknownPage | BadCooldown | NoActions
  | BadDuration | ShowUnknownPage | BadDisplay | BadBrightness | BadOverlay | BadScript
  | BadClick | BadScroll | BadSound | UnknownAction
  | InsertPage string | BadRepeat | BadInterval | BadMinute | NoTimes | BadTime string
  | InsertDuration | InsertWindow | InsertWindowClock | ConditionTopic | ConditionValue | LongerThanInterval

definition id_chars :: string where
  "id_chars = lower_letters @ upper_letters @ digits @ ''-_''"

definition validRuleID :: "string \<Rightarrow> bool" where
  "validRuleID i \<longleftrightarrow> i \<noteq> '''' \<and> length i \<le> 64 \<and> list_all (\<lambda>c. c \<in> set id_chars) i"

definition validateRuleAction :: "RuleAction \<Rightarrow> string list \<Rightarrow> rule_error option" where
  "validateRuleAction action pageIDs =
     (let value = ra_Value action; trimmed = trim_space value; t = ra_Type action in
      if ra_DurationSeconds action < 0 \<or> 86400 < ra_DurationSeconds action then Some BadDuration
      else if t = ''show_page'' then (if ra_PageID action \<notin> set pageIDs then Some ShowUnknownPage else None)
      else if t = ''display'' then
        (if to_upper trimmed \<noteq> ''ON'' \<and> to_upper trimmed \<noteq> ''OFF'' then Some BadDisplay else None)
      else if t = ''brightness'' then
        (case atoi trimmed of
           None \<Rightarrow> Some BadBrightness
         | Some v \<Rightarrow> if v < 1 \<or> 100 < v then Some BadBrightness else None)
      else if t = ''overlay'' then
        (if trimmed = '''' \<or> 500 < length value then Some BadOverlay else None)
      else if t = ''script'' then
        (if trimmed = '''' \<or> 8000 < length value then Some BadScript else None)
      else if t = ''click'' then
        (if trimmed = '''' \<or> 500 < length value then Some BadClick else None)
      else if t = ''scroll'' then
        (if trimmed = '''' \<or> 500 < length value then Some BadScroll else None)
      else if t = ''sound'' then
        (if trimmed \<noteq> '''' \<and> \<not> has_prefix trimmed ''http://'' \<and> \<not> has_prefix trimmed ''https://''
         then Some BadSound else None)
      else if t = ''resume_playlist'' \<or> t = ''reload'' then None
      else Some UnknownAction)"

fun first_error :: "('a \<Rightarrow> 'e option) \<Rightarrow> 'a list \<Rightarrow> 'e option" where
  "first_error f [] = None"
| "first_error f (x # xs) = (case f x of Some e \<Rightarrow> Some e | None \<Rightarrow> first_error f xs)"

lemma first_error_None: "first_error f xs = None \<longleftrightarrow> list_all (\<lambda>x. f x = None) xs"
  by (induction xs) (auto split: option.split)

definition validate_trigger :: "RuleTrigger \<Rightarrow> rule_error option" where
  \<comment> \<open>the \<^verbatim>\<open>switch\<close> over the trigger type in \<^verbatim>\<open>validateRules\<close>\<close>
  "validate_trigger t =
     (if rt_Type t = ''mqtt'' then
        (if trim_space (rt_Topic t) = '''' \<or> contains_any (rt_Topic t) ''+#'' then Some MqttTopicNeeded else None)
      else if rt_Type t = ''time'' then (if \<not> validClock (rt_At t) then Some TimeNeeded else None)
      else if rt_Type t = ''webhook'' then
        (if length (trim_space (rt_Token t)) < 16 then Some TokenNeeded else None)
      else if rt_Type t = ''touch'' then None
      else if rt_Type t = ''idle'' then
        (if rt_IdleSeconds t < 10 \<or> 86400 < rt_IdleSeconds t then Some IdleNeeded else None)
      else Some UnknownTrigger)"

definition validate_rule :: "string list \<Rightarrow> string list \<Rightarrow> WorkflowRule \<Rightarrow> rule_error option" where
  \<comment> \<open>one round of the loop, with the page identifiers and the rule identifiers seen before\<close>
  "validate_rule pageIDs seen rule =
     (let c = wr_Conditions rule in
      if \<not> validRuleID (wr_ID rule) then Some BadID
      else if wr_ID rule \<in> set seen then Some (DuplicateID (wr_ID rule))
      else case validate_trigger (wr_Trigger rule) of
        Some e \<Rightarrow> Some e
      | None \<Rightarrow>
          if (rc_Start c = '''') \<noteq> (rc_End c = '''') then Some WindowIncomplete
          else if rc_Start c \<noteq> '''' \<and> (\<not> validClock (rc_Start c) \<or> \<not> validClock (rc_End c))
          then Some WindowClock
          else if rc_ActivePageID c \<noteq> '''' \<and> rc_ActivePageID c \<notin> set pageIDs then Some UnknownPage
          else if wr_CooldownSeconds rule < 0 \<or> 86400 < wr_CooldownSeconds rule then Some BadCooldown
          else if wr_Actions rule = [] then Some NoActions
          else first_error (\<lambda>a. validateRuleAction a pageIDs) (wr_Actions rule))"

definition rule_label :: "string \<Rightarrow> string \<Rightarrow> nat \<Rightarrow> string" where
  "rule_label name word index =
     (if trim_space name = '''' then word @ itoa (int index + 1) else trim_space name)"

fun validate_rules :: "string list \<Rightarrow> string list \<Rightarrow> nat \<Rightarrow> WorkflowRule list \<Rightarrow> (string \<times> rule_error) option" where
  "validate_rules pageIDs seen index [] = None"
| "validate_rules pageIDs seen index (rule # rules) =
     (case validate_rule pageIDs seen rule of
        Some e \<Rightarrow> Some (rule_label (wr_Name rule) ''rule '' index, e)
      | None \<Rightarrow> validate_rules pageIDs (wr_ID rule # seen) (Suc index) rules)"

definition validateRules :: "KioskConfig \<Rightarrow> (string \<times> rule_error) option" where
  "validateRules k = validate_rules (map pg_PageID (k_Pages k)) [] 0 (k_Rules k)"

definition validate_insert :: "string list \<Rightarrow> string list \<Rightarrow> PageInsert \<Rightarrow> rule_error option" where
  "validate_insert pageIDs seen i =
     (if \<not> validRuleID (ins_ID i) then Some BadID
      else if ins_ID i \<in> set seen then Some (DuplicateID (ins_ID i))
      else if ins_PageID i \<notin> set pageIDs then Some (InsertPage (ins_PageID i))
      else if ins_Repeat i \<notin> {''interval'', ''hourly'', ''times''} then Some BadRepeat
      else if ins_Repeat i = ''interval'' \<and> (ins_EveryMinutes i < 1 \<or> 24 * 60 < ins_EveryMinutes i)
      then Some BadInterval
      else if ins_Repeat i = ''hourly'' \<and> (ins_Minute i < 0 \<or> 59 < ins_Minute i) then Some BadMinute
      else if ins_Repeat i = ''times'' \<and> ins_Times i = [] then Some NoTimes
      else case (if ins_Repeat i = ''times''
                 then find (\<lambda>t. \<not> validScheduleClock t) (ins_Times i) else None) of
        Some t \<Rightarrow> Some (BadTime t)
      | None \<Rightarrow>
          if ins_DurationSeconds i < 5 \<or> Hour < i64 (ins_DurationSeconds i * Second) then Some InsertDuration
          else if (ins_Start i = '''') \<noteq> (ins_End i = '''') then Some InsertWindow
          else if ins_Start i \<noteq> '''' \<and> (\<not> validScheduleClock (ins_Start i) \<or> \<not> validScheduleClock (ins_End i))
          then Some InsertWindowClock
          else case (case ins_Condition i of
                None \<Rightarrow> None
              | Some c \<Rightarrow>
                  (let topic = trim_space (ic_Topic c) in
                   if topic = '''' \<or> contains_any topic [CHR ''#'', CHR ''+'', CHR 0x00] then Some ConditionTopic
                   else if trim_space (ic_Value c) = '''' then Some ConditionValue
                   else None)) of
            Some e \<Rightarrow> Some e
          | None \<Rightarrow>
              if ins_Repeat i = ''interval'' \<and> i64 (ins_EveryMinutes i * Minute) \<le> i64 (ins_DurationSeconds i * Second)
              then Some LongerThanInterval else None)"

fun validate_inserts :: "string list \<Rightarrow> string list \<Rightarrow> nat \<Rightarrow> PageInsert list \<Rightarrow> (string \<times> rule_error) option" where
  "validate_inserts pageIDs seen index [] = None"
| "validate_inserts pageIDs seen index (i # is) =
     (case validate_insert pageIDs seen i of
        Some e \<Rightarrow> Some (rule_label (ins_Name i) ''insert '' index, e)
      | None \<Rightarrow> validate_inserts pageIDs (ins_ID i # seen) (Suc index) is)"

definition validateInserts :: "KioskConfig \<Rightarrow> (string \<times> rule_error) option" where
  "validateInserts k = validate_inserts (map pg_PageID (k_Pages k)) [] 0 (k_Inserts k)"

subsection \<open>What accepted lists satisfy\<close>

lemma validate_rules_None:
  "validate_rules ids seen n rules = None \<Longrightarrow>
   distinct (map wr_ID rules) \<and> set (map wr_ID rules) \<inter> set seen = {} \<and>
   (\<forall>rule\<in>set rules. \<exists>s. validate_rule ids s rule = None)"
proof (induction rules arbitrary: seen n)
  case (Cons rule rules)
  then have r: "validate_rule ids seen rule = None"
    and "validate_rules ids (wr_ID rule # seen) (Suc n) rules = None"
    by (auto split: option.splits)
  with Cons.IH have IH: "distinct (map wr_ID rules)" "set (map wr_ID rules) \<inter> set (wr_ID rule # seen) = {}"
    "\<forall>rule\<in>set rules. \<exists>s. validate_rule ids s rule = None" by blast+
  moreover have "wr_ID rule \<notin> set seen" using r by (auto simp: validate_rule_def Let_def split: if_splits)
  ultimately show ?case using r by auto
qed simp

lemma validate_inserts_None:
  "validate_inserts ids seen n is = None \<Longrightarrow>
   distinct (map ins_ID is) \<and> set (map ins_ID is) \<inter> set seen = {} \<and>
   (\<forall>i\<in>set is. \<exists>s. validate_insert ids s i = None)"
proof (induction "is" arbitrary: seen n)
  case (Cons i "is")
  then have r: "validate_insert ids seen i = None"
    and "validate_inserts ids (ins_ID i # seen) (Suc n) is = None"
    by (auto split: option.splits)
  with Cons.IH have IH: "distinct (map ins_ID is)" "set (map ins_ID is) \<inter> set (ins_ID i # seen) = {}"
    "\<forall>i\<in>set is. \<exists>s. validate_insert ids s i = None" by blast+
  moreover have "ins_ID i \<notin> set seen" using r by (auto simp: validate_insert_def split: if_splits)
  ultimately show ?case using r by auto
qed simp

lemma validateRules_rule:
  "validateRules k = None \<Longrightarrow> rule \<in> set (k_Rules k) \<Longrightarrow>
   \<exists>seen. validate_rule (map pg_PageID (k_Pages k)) seen rule = None"
  unfolding validateRules_def using validate_rules_None by blast

lemma validateInserts_insert:
  "validateInserts k = None \<Longrightarrow> i \<in> set (k_Inserts k) \<Longrightarrow>
   \<exists>seen. validate_insert (map pg_PageID (k_Pages k)) seen i = None"
  unfolding validateInserts_def using validate_inserts_None by blast

lemma validate_rule_action:
  "validate_rule ids seen rule = None \<Longrightarrow> a \<in> set (wr_Actions rule) \<Longrightarrow> validateRuleAction a ids = None"
  by (auto simp: validate_rule_def Let_def first_error_None list_all_iff split: if_splits option.splits)

lemma validate_insert_facts:
  assumes "validate_insert ids seen i = None"
  shows "ins_PageID i \<in> set ids" "5 \<le> ins_DurationSeconds i" "i64 (ins_DurationSeconds i * Second) \<le> Hour"
    and "ins_Repeat i = ''interval'' \<Longrightarrow> 1 \<le> ins_EveryMinutes i \<and> ins_EveryMinutes i \<le> 1440 \<and>
         i64 (ins_DurationSeconds i * Second) < i64 (ins_EveryMinutes i * Minute)"
    and "ins_Repeat i = ''hourly'' \<Longrightarrow> 0 \<le> ins_Minute i \<and> ins_Minute i \<le> 59"
    and "ins_Repeat i = ''times'' \<Longrightarrow> ins_Times i \<noteq> [] \<and> list_all validScheduleClock (ins_Times i)"
    and "ins_Start i \<noteq> '''' \<Longrightarrow> validScheduleClock (ins_Start i) \<and> validScheduleClock (ins_End i)"
    and "ins_Repeat i = ''interval'' \<or> ins_Repeat i = ''hourly'' \<or> ins_Repeat i = ''times''"
  using assms
  by (auto simp: validate_insert_def find_None_iff list_all_iff split: if_splits option.splits)

end
