(* ===== verification/Config_Inserts.thy ===== *)
theory Config_Inserts
  imports Config_Rules "HOL-Library.Product_Lexorder"
begin

section \<open>Page inserts\<close>

text \<open>
  \<^verbatim>\<open>internal/config/inserts.go\<close>: conditions, the runs of an insert (\<^verbatim>\<open>slotMinutes\<close>, \<^verbatim>\<open>allows\<close>,
  \<^verbatim>\<open>InsertSlots\<close>), the run on screen (\<^verbatim>\<open>ActiveInsert\<close>) and the next change (\<^verbatim>\<open>NextInsertChange\<close>).
  The loop over the days has fuel, more than the days between the two instants; the locale
  \<open>day_calendar\<close> states what the loop relies on from the time zone: midnight exists on every day
  and clock times lie between their day's midnight and the next. Locations with a fixed offset and
  those that change their clocks after midnight satisfy it.
\<close>

subsection \<open>Conditions\<close>

definition Holds :: "InsertCondition \<Rightarrow> string \<Rightarrow> bool \<Rightarrow> bool" where
  "Holds c value seen =
     (if \<not> seen then False
      else equal_fold (trim_space value) (trim_space (ic_Value c)) \<noteq> ic_Negate c)"

fun condition_topics :: "PageInsert list \<Rightarrow> string list \<Rightarrow> string list" where
  "condition_topics [] out = out"
| "condition_topics (i # is) out =
     (case ins_Condition i of
        Some c \<Rightarrow>
          if \<not> ins_Disabled i \<and> ic_Topic c \<notin> set out then condition_topics is (out @ [ic_Topic c])
          else condition_topics is out
      | None \<Rightarrow> condition_topics is out)"

definition ConditionTopics :: "KioskConfig \<Rightarrow> string list" where
  "ConditionTopics k = condition_topics (k_Inserts k) []"

definition insert_where :: "(string \<Rightarrow> string option) \<Rightarrow> PageInsert \<Rightarrow> PageInsert" where
  "insert_where lookup i =
     (case ins_Condition i of
        None \<Rightarrow> i
      | Some c \<Rightarrow>
          if ins_Disabled i then i
          else let (value, seen) = (case lookup (ic_Topic c) of Some v \<Rightarrow> (v, True) | None \<Rightarrow> ('''', False))
            in if \<not> Holds c value seen then i\<lparr>ins_Disabled := True\<rparr> else i)"

definition InsertsWhere :: "KioskConfig \<Rightarrow> (string \<Rightarrow> string option) option \<Rightarrow> KioskConfig" where
  "InsertsWhere k lookup =
     (case lookup of
        None \<Rightarrow> k
      | Some f \<Rightarrow> k\<lparr>k_Inserts := map (insert_where f) (k_Inserts k)\<rparr>)"

subsection \<open>Runs of an insert\<close>

record InsertSlot =
  sl_Insert :: PageInsert
  sl_Index :: nat
  sl_Start :: time
  sl_End :: time

definition maxInsertDuration :: duration where
  "maxInsertDuration = Hour"

fun minutes_from :: "nat \<Rightarrow> nat \<Rightarrow> nat \<Rightarrow> int list" where
  \<comment> \<open>\<^verbatim>\<open>for minute := 0; minute < 24*60; minute += step\<close>, at most as many rounds as the fuel\<close>
  "minutes_from 0 minute step = []"
| "minutes_from (Suc n) minute step =
     (if minute < 24 * 60 then int minute # minutes_from n (minute + step) step else [])"

definition slotMinutes :: "sky \<Rightarrow> KioskConfig \<Rightarrow> PageInsert \<Rightarrow> int \<Rightarrow> int list" where
  "slotMinutes env k p day =
     (if ins_Repeat p = ''interval'' then
        (if ins_EveryMinutes p \<le> 0 then [] else minutes_from (24 * 60) 0 (nat (ins_EveryMinutes p)))
      else if ins_Repeat p = ''hourly'' then
        (if ins_Minute p < 0 \<or> 59 < ins_Minute p then []
         else map (\<lambda>hour. int hour * 60 + ins_Minute p) [0..<24])
      else if ins_Repeat p = ''times'' then
        remdups_adj (sort (List.map_filter (\<lambda>t. ResolveClock env k t day) (ins_Times p)))
      else [])"

definition allows :: "sky \<Rightarrow> KioskConfig \<Rightarrow> PageInsert \<Rightarrow> int \<Rightarrow> int \<Rightarrow> bool" where
  "allows env k p day minute =
     (if \<not> weekdayMatches (ins_Days p) (weekday_of_day day) then False
      else if ins_Start p = '''' then True
      else case (ResolveClock env k (ins_Start p) day, ResolveClock env k (ins_End p) day) of
        (Some start, Some end1) \<Rightarrow>
          if start = end1 then True
          else if start < end1 then start \<le> minute \<and> minute < end1
          else start \<le> minute \<or> minute < end1
      | _ \<Rightarrow> False)"

definition insert_duration :: "PageInsert \<Rightarrow> duration" where
  \<comment> \<open>\<^verbatim>\<open>PageInsert.duration\<close>\<close>
  "insert_duration p =
     (let d = i64 (ins_DurationSeconds p * Second) in if d \<le> 0 then 0 else min d maxInsertDuration)"

fun days_until :: "zone \<Rightarrow> time \<Rightarrow> nat \<Rightarrow> time \<Rightarrow> time list" where
  \<comment> \<open>\<^verbatim>\<open>for day := first; day.Before(to); day = day.AddDate(0, 0, 1)\<close>\<close>
  "days_until z to1 0 day = []"
| "days_until z to1 (Suc n) day =
     (if day < to1 then day # days_until z to1 n (add_days z day 1) else [])"

definition day_fuel :: "time \<Rightarrow> time \<Rightarrow> nat" where
  "day_fuel from1 to1 = nat ((to1 - from1) div (12 * Hour)) + 3"

definition day_runs :: "sky \<Rightarrow> KioskConfig \<Rightarrow> time \<Rightarrow> time \<Rightarrow> nat \<Rightarrow> PageInsert \<Rightarrow> time \<Rightarrow> InsertSlot list" where
  \<comment> \<open>the innermost loop of \<^verbatim>\<open>InsertSlots\<close>\<close>
  "day_runs env k from1 to1 index i day =
     List.map_filter (\<lambda>minute.
       let z = zone_of env; d = daynum z day;
           start = mk_time z d (minute div 60) (minute mod 60);
           end1 = start + insert_duration i
       in if end1 \<le> from1 \<or> to1 \<le> start then None
          else if \<not> allows env k i d minute then None
          else Some \<lparr>sl_Insert = i, sl_Index = index, sl_Start = start, sl_End = end1\<rparr>)
       (slotMinutes env k i (daynum (zone_of env) day))"

definition insert_usable :: "KioskConfig \<Rightarrow> PageInsert \<Rightarrow> bool" where
  "insert_usable k i \<longleftrightarrow>
     \<not> ins_Disabled i \<and> 0 \<le> EnabledPageIndex k (ins_PageID i) \<and> 0 < insert_duration i"

definition insert_runs :: "sky \<Rightarrow> KioskConfig \<Rightarrow> time \<Rightarrow> time \<Rightarrow> time list \<Rightarrow> InsertSlot list" where
  \<comment> \<open>the loop over the inserts\<close>
  "insert_runs env k from1 to1 days =
     concat (map (\<lambda>(index, i).
        if \<not> insert_usable k i then []
        else concat (map (day_runs env k from1 to1 index i) days))
      (enumerate 0 (k_Inserts k)))"

definition InsertSlots :: "sky \<Rightarrow> KioskConfig \<Rightarrow> time \<Rightarrow> time \<Rightarrow> InsertSlot list" where
  "InsertSlots env k from1 to1 =
     (if to1 \<le> from1 then []
      else
        let z = zone_of env;
            first = add_days z (mk_time z (daynum z from1) 0 0) (- 1);
            days = days_until z to1 (day_fuel from1 to1) first
        in sort_key (\<lambda>s. (sl_Start s, sl_Index s)) (insert_runs env k from1 to1 days))"

subsection \<open>The run on screen\<close>

text \<open>
  The order in which overlapping runs win is a linear order on their standing: higher priorities
  first, then the order of the list.
\<close>

datatype standing = Standing (priority: int) (position: nat)

instantiation standing :: linorder
begin

definition less_eq_standing :: "standing \<Rightarrow> standing \<Rightarrow> bool" where
  "less_eq_standing a b \<longleftrightarrow>
     priority b < priority a \<or> priority a = priority b \<and> position a \<le> position b"

definition less_standing :: "standing \<Rightarrow> standing \<Rightarrow> bool" where
  "less_standing a b \<longleftrightarrow>
     priority b < priority a \<or> priority a = priority b \<and> position a < position b"

instance
  by standard (auto simp: less_eq_standing_def less_standing_def intro: standing.expand)

end

definition standing_of :: "InsertSlot \<Rightarrow> standing" where
  "standing_of s = Standing (ins_Priority (sl_Insert s)) (sl_Index s)"

definition wins :: "InsertSlot \<Rightarrow> InsertSlot \<Rightarrow> bool" where
  "wins a b =
     (if ins_Priority (sl_Insert a) \<noteq> ins_Priority (sl_Insert b)
      then ins_Priority (sl_Insert b) < ins_Priority (sl_Insert a)
      else sl_Index a < sl_Index b)"

lemma wins_standing: "wins a b \<longleftrightarrow> standing_of a < standing_of b"
  by (auto simp: wins_def standing_of_def less_standing_def)

fun best_run :: "InsertSlot option \<Rightarrow> InsertSlot list \<Rightarrow> InsertSlot option" where
  \<comment> \<open>the loop that keeps the winner of the runs seen so far\<close>
  "best_run best [] = best"
| "best_run best (s # ss) =
     best_run (case best of None \<Rightarrow> Some s | Some b \<Rightarrow> if wins s b then Some s else best) ss"

definition ActiveInsert :: "sky \<Rightarrow> KioskConfig \<Rightarrow> time \<Rightarrow> InsertSlot option" where
  "ActiveInsert env k now =
     best_run None (filter (\<lambda>s. \<not> (now < sl_Start s \<or> sl_End s \<le> now))
       (InsertSlots env k now (now + Second)))"

fun earliest_after :: "time \<Rightarrow> time \<Rightarrow> time list \<Rightarrow> time" where
  \<comment> \<open>the loops of \<^verbatim>\<open>NextInsertChange\<close>; the zero time stands for "none yet"\<close>
  "earliest_after now next1 [] = next1"
| "earliest_after now next1 (t # ts) =
     earliest_after now (if now < t \<and> (next1 = 0 \<or> t < next1) then t else next1) ts"

definition NextInsertChange :: "sky \<Rightarrow> KioskConfig \<Rightarrow> time \<Rightarrow> time option" where
  "NextInsertChange env k now =
     (let next1 = earliest_after now 0
        (concat (map (\<lambda>s. [sl_Start s, sl_End s]) (InsertSlots env k now (now + 48 * Hour))))
      in if next1 = 0 then None else Some next1)"

subsection \<open>What the day loop relies on\<close>

abbreviation midnight :: "zone \<Rightarrow> int \<Rightarrow> time" where
  "midnight z d \<equiv> mk_time z d 0 0"

locale day_calendar =
  fixes z :: zone
  assumes day_length: "midnight z d + 12 * Hour \<le> midnight z (d + 1)"
    and clock_in_day: "0 \<le> m \<Longrightarrow> m < 1440 \<Longrightarrow>
      midnight z d \<le> mk_time z d (m div 60) (m mod 60) \<and> mk_time z d (m div 60) (m mod 60) < midnight z (d + 1)"
    and add_days_midnight: "add_days z (midnight z d) n = midnight z (d + n)"
    and daynum_midnight: "daynum z (midnight z d) = d"
    and day_of_instant: "midnight z (daynum z t) \<le> t \<and> t < midnight z (daynum z t + 1)"
begin

lemma midnight_steps: "midnight z d + int n * (12 * Hour) \<le> midnight z (d + int n)"
proof (induction n)
  case (Suc n)
  from day_length [of "d + int n"] Suc show ?case by (simp add: algebra_simps)
qed simp

lemma midnight_mono: "d \<le> e \<Longrightarrow> midnight z d \<le> midnight z e"
proof -
  assume "d \<le> e"
  then obtain n where n: "e = d + int n" by (metis zle_iff_zadd)
  have "0 \<le> int n * (12 * Hour)" by (simp add: duration_units)
  then have "midnight z d \<le> midnight z (d + int n)" using midnight_steps [of d n] by linarith
  then show ?thesis using n by simp
qed

lemma midnight_less: "midnight z d < midnight z e \<longleftrightarrow> d < e"
proof
  show "d < e \<Longrightarrow> midnight z d < midnight z e"
    using day_length [of d] midnight_mono [of "d + 1" e] by (simp add: duration_units)
  show "midnight z d < midnight z e \<Longrightarrow> d < e"
    using midnight_mono [of e d] by force
qed

lemma days_until_midnights:
  "set (days_until z to1 n (midnight z d)) = midnight z ` {e. d \<le> e \<and> e < d + int n \<and> midnight z e < to1}"
proof (induction n arbitrary: d)
  case (Suc n)
  have split: "{e. d \<le> e \<and> e < d + int (Suc n) \<and> midnight z e < to1} =
      (if midnight z d < to1 then insert d {e. d + 1 \<le> e \<and> e < d + 1 + int n \<and> midnight z e < to1} else {})"
  proof (cases "midnight z d < to1")
    case False
    then have "\<not> midnight z e < to1" if "d \<le> e" for e using midnight_mono [OF that] by linarith
    with False show ?thesis by auto
  qed auto
  have "set (days_until z to1 (Suc n) (midnight z d)) =
      (if midnight z d < to1 then insert (midnight z d) (set (days_until z to1 n (midnight z (d + 1)))) else {})"
    by (auto simp: add_days_midnight)
  then show ?case using split Suc.IH [of "d + 1"] by auto
qed simp

lemma day_fuel_enough:
  assumes "from1 < to1" "midnight z e < to1" "daynum z from1 - 1 \<le> e"
  shows "e < daynum z from1 - 1 + int (day_fuel from1 to1)"
proof (rule ccontr)
  let ?D = "daynum z from1"
  define n where "n = nat ((to1 - from1) div (12 * Hour)) + 1"
  assume "\<not> e < ?D - 1 + int (day_fuel from1 to1)"
  then have "?D + 1 + int n \<le> e" by (simp add: day_fuel_def n_def)
  then have "midnight z (?D + 1 + int n) \<le> midnight z e" by (rule midnight_mono)
  moreover have "midnight z (?D + 1) + int n * (12 * Hour) \<le> midnight z (?D + 1 + int n)"
    by (rule midnight_steps)
  moreover have "to1 - from1 \<le> int n * (12 * Hour)"
  proof -
    have pos: "0 < 12 * Hour" by (simp add: duration_units)
    have "to1 - from1 = (to1 - from1) div (12 * Hour) * (12 * Hour) + (to1 - from1) mod (12 * Hour)"
      by (rule div_mult_mod_eq [symmetric])
    moreover have "(to1 - from1) mod (12 * Hour) < 12 * Hour" using pos by (rule pos_mod_bound)
    moreover have "0 \<le> (to1 - from1) div (12 * Hour)" using assms(1) pos by (simp add: pos_imp_zdiv_nonneg_iff)
    ultimately have "to1 - from1 \<le> ((to1 - from1) div (12 * Hour) + 1) * (12 * Hour)"
      by (simp only: distrib_right)
    with \<open>0 \<le> (to1 - from1) div (12 * Hour)\<close> show ?thesis by (simp add: n_def algebra_simps)
  qed
  moreover have "from1 < midnight z (?D + 1)" using day_of_instant by blast
  ultimately show False using assms(2) by linarith
qed

lemma run_days:
  assumes "from1 < to1"
  shows "set (days_until z to1 (day_fuel from1 to1) (add_days z (midnight z (daynum z from1)) (- 1))) =
     midnight z ` {e. daynum z from1 - 1 \<le> e \<and> midnight z e < to1}"
proof -
  have "{e. daynum z from1 - 1 \<le> e \<and> e < daynum z from1 - 1 + int (day_fuel from1 to1) \<and> midnight z e < to1} =
      {e. daynum z from1 - 1 \<le> e \<and> midnight z e < to1}"
    using day_fuel_enough [OF assms] by auto
  then show ?thesis
    using days_until_midnights [of to1 "day_fuel from1 to1" "daynum z from1 - 1"]
    by (simp add: add_days_midnight)
qed

lemma early_day_over:
  assumes "e < daynum z from1 - 1" "0 \<le> m" "m < 1440" "l \<le> Hour"
  shows "mk_time z e (m div 60) (m mod 60) + l \<le> from1"
proof -
  have "mk_time z e (m div 60) (m mod 60) < midnight z (e + 1)" using clock_in_day assms(2,3) by blast
  moreover have "midnight z (e + 1) + 12 * Hour \<le> midnight z (e + 1 + 1)" by (rule day_length)
  moreover have "midnight z (e + 1 + 1) \<le> midnight z (daynum z from1)" using assms(1) by (intro midnight_mono) simp
  moreover have "midnight z (daynum z from1) \<le> from1" using day_of_instant by blast
  ultimately show ?thesis using assms(4) by (simp add: duration_units)
qed

lemma late_day_after:
  "to1 \<le> midnight z e \<Longrightarrow> 0 \<le> m \<Longrightarrow> m < 1440 \<Longrightarrow> to1 \<le> mk_time z e (m div 60) (m mod 60)"
  using clock_in_day [of m e] by linarith

end

lemma fixed_zone_calendar: "day_calendar (fixed_zone off)"
proof
  fix d n m t :: int
  show "midnight (fixed_zone off) d + 12 * Hour \<le> midnight (fixed_zone off) (d + 1)"
    by (simp add: mk_time_fixed duration_units)
  show "add_days (fixed_zone off) (midnight (fixed_zone off) d) n = midnight (fixed_zone off) (d + n)"
    by (rule add_days_mk_time_fixed) simp_all
  show "daynum (fixed_zone off) (midnight (fixed_zone off) d) = d"
    by (rule daynum_mk_time_fixed) simp_all
  show "midnight (fixed_zone off) (daynum (fixed_zone off) t) \<le> t \<and>
      t < midnight (fixed_zone off) (daynum (fixed_zone off) t + 1)"
  proof -
    have "t div Second * Second \<le> t" "t < (t div Second + 1) * Second"
      unfolding Second_def by presburger+
    moreover have q: "q div 86400 * 86400 \<le> q" "q < (q div 86400 + 1) * 86400" for q :: int
      by presburger+
    have "(t div Second + off) div 86400 * 86400 \<le> t div Second + off"
      "t div Second + off < ((t div Second + off) div 86400 + 1) * 86400" by (rule q)+
    then have "((t div Second + off) div 86400 * 86400 - off) * Second \<le> t div Second * Second"
      "(t div Second + 1) * Second \<le> (((t div Second + off) div 86400 + 1) * 86400 - off) * Second"
      by (intro mult_right_mono; simp add: Second_def)+
    ultimately have "((t div Second + off) div 86400 * 86400 - off) * Second \<le> t"
      "t < (((t div Second + off) div 86400 + 1) * 86400 - off) * Second" by (meson order_trans less_le_trans)+
    then show ?thesis
      unfolding mk_time_fixed daynum_def local_seconds_fixed by (simp only: mult_zero_left add_0_right simp_thms)
  qed
  assume m: "0 \<le> m" "m < 1440"
  have "m div 60 * 3600 + m mod 60 * 60 = 60 * m" using div_mult_mod_eq [of m 60] by linarith
  with m show "midnight (fixed_zone off) d \<le> mk_time (fixed_zone off) d (m div 60) (m mod 60) \<and>
      mk_time (fixed_zone off) d (m div 60) (m mod 60) < midnight (fixed_zone off) (d + 1)"
    by (simp add: mk_time_fixed Second_def)
qed

interpretation fixed_offset: day_calendar "fixed_zone off"
  by (rule fixed_zone_calendar)

subsection \<open>All runs and the listed ones\<close>

text \<open>
  \<open>insert_run\<close> is what a run of an insert is, on any day; \<open>InsertSlots\<close> looks at the days from the
  one before its first instant on. The two agree because a run lasts an hour at most.
\<close>

definition run_on :: "sky \<Rightarrow> KioskConfig \<Rightarrow> InsertSlot \<Rightarrow> int \<Rightarrow> bool" where
  "run_on env k s day \<longleftrightarrow>
     (\<exists>minute\<in>set (slotMinutes env k (sl_Insert s) day).
        allows env k (sl_Insert s) day minute \<and>
        sl_Start s = mk_time (zone_of env) day (minute div 60) (minute mod 60))"

definition insert_run :: "sky \<Rightarrow> KioskConfig \<Rightarrow> InsertSlot \<Rightarrow> bool" where
  "insert_run env k s \<longleftrightarrow>
     sl_Index s < length (k_Inserts k) \<and> sl_Insert s = k_Inserts k ! sl_Index s \<and>
     insert_usable k (sl_Insert s) \<and> sl_End s = sl_Start s + insert_duration (sl_Insert s) \<and>
     (\<exists>day. run_on env k s day)"

lemma insert_duration_range: "0 \<le> insert_duration i" "insert_duration i \<le> Hour"
  by (simp_all add: insert_duration_def maxInsertDuration_def Let_def duration_units)

lemma minutes_from_range: "x \<in> set (minutes_from n m step) \<Longrightarrow> 0 \<le> x \<and> x < 1440"
  by (induction n m step rule: minutes_from.induct) (auto split: if_splits)

lemma slotMinutes_range:
  assumes "m \<in> set (slotMinutes env k p day)"
  shows "0 \<le> m \<and> m < 1440"
proof -
  have "0 \<le> int h * 60 + ins_Minute p \<and> int h * 60 + ins_Minute p < 1440"
    if "h < 24" "0 \<le> ins_Minute p" "ins_Minute p \<le> 59" for h using that by linarith
  with assms show ?thesis
    by (auto simp: slotMinutes_def List.map_filter_def dest: minutes_from_range ResolveClock_range
        split: if_splits)
qed

lemma set_map_filter_iff: "x \<in> set (List.map_filter f xs) \<longleftrightarrow> (\<exists>y\<in>set xs. f y = Some x)"
  by (force simp: List.map_filter_def)

lemma set_day_runs:
  "s \<in> set (day_runs env k from1 to1 index i day) \<longleftrightarrow>
     sl_Insert s = i \<and> sl_Index s = index \<and> sl_End s = sl_Start s + insert_duration i \<and>
     from1 < sl_End s \<and> sl_Start s < to1 \<and>
     run_on env k s (daynum (zone_of env) day)"
proof -
  have s: "s = \<lparr>sl_Insert = i, sl_Index = index, sl_Start = a, sl_End = b\<rparr> \<longleftrightarrow>
      sl_Insert s = i \<and> sl_Index s = index \<and> sl_Start s = a \<and> sl_End s = b" for a b
    by (cases s) auto
  let ?d = "daynum (zone_of env) day"
  let ?start = "\<lambda>m. mk_time (zone_of env) ?d (m div 60) (m mod 60)"
  have "s \<in> set (day_runs env k from1 to1 index i day) \<longleftrightarrow>
      (\<exists>m\<in>set (slotMinutes env k i ?d).
         \<not> (?start m + insert_duration i \<le> from1 \<or> to1 \<le> ?start m) \<and> allows env k i ?d m \<and>
         s = \<lparr>sl_Insert = i, sl_Index = index, sl_Start = ?start m, sl_End = ?start m + insert_duration i\<rparr>)"
    unfolding day_runs_def set_map_filter_iff Let_def
    by (intro bex_cong refl) auto
  then show ?thesis unfolding s run_on_def not_le de_Morgan_disj by metis
qed

lemma set_insert_runs:
  "s \<in> set (insert_runs env k from1 to1 days) \<longleftrightarrow>
   sl_Index s < length (k_Inserts k) \<and> sl_Insert s = k_Inserts k ! sl_Index s \<and>
   insert_usable k (sl_Insert s) \<and> sl_End s = sl_Start s + insert_duration (sl_Insert s) \<and>
   from1 < sl_End s \<and> sl_Start s < to1 \<and> (\<exists>day\<in>set days. run_on env k s (daynum (zone_of env) day))"
proof -
  have e: "(index, i) \<in> set (enumerate 0 xs) \<longleftrightarrow> index < length xs \<and> i = xs ! index" for index i and xs :: "PageInsert list"
    by (auto simp: in_set_enumerate_eq)
  have "s \<in> set (insert_runs env k from1 to1 days) \<longleftrightarrow>
      (\<exists>index i. (index, i) \<in> set (enumerate 0 (k_Inserts k)) \<and> insert_usable k i \<and>
        (\<exists>day\<in>set days. s \<in> set (day_runs env k from1 to1 index i day)))"
    unfolding insert_runs_def by (fastforce split: if_splits)
  then have "s \<in> set (insert_runs env k from1 to1 days) \<longleftrightarrow>
      sl_Index s < length (k_Inserts k) \<and> insert_usable k (k_Inserts k ! sl_Index s) \<and>
      (\<exists>day\<in>set days. s \<in> set (day_runs env k from1 to1 (sl_Index s) (k_Inserts k ! sl_Index s) day))"
    unfolding e set_day_runs by blast
  then show ?thesis unfolding set_day_runs by auto
qed

context day_calendar
begin

lemma InsertSlots_runs:
  assumes "from1 < to1" "z = zone_of env"
  shows "set (InsertSlots env k from1 to1) =
     {s. insert_run env k s \<and> from1 < sl_End s \<and> sl_Start s < to1}"
proof -
  let ?days = "days_until z to1 (day_fuel from1 to1) (add_days z (midnight z (daynum z from1)) (- 1))"
  have days: "(\<exists>day\<in>set ?days. run_on env k s (daynum z day)) \<longleftrightarrow> (\<exists>day. run_on env k s day)"
    if "sl_End s = sl_Start s + insert_duration (sl_Insert s)" "from1 < sl_End s" "sl_Start s < to1" for s
  proof
    assume "\<exists>day. run_on env k s day"
    then obtain day m where r: "run_on env k s day" "m \<in> set (slotMinutes env k (sl_Insert s) day)"
        "sl_Start s = mk_time z day (m div 60) (m mod 60)"
      using assms(2) by (auto simp: run_on_def)
    from slotMinutes_range [OF r(2)] have m: "0 \<le> m" "m < 1440" by auto
    have "daynum z from1 - 1 \<le> day"
    proof (rule ccontr)
      assume "\<not> daynum z from1 - 1 \<le> day"
      then have "sl_Start s + insert_duration (sl_Insert s) \<le> from1"
        unfolding r(3) by (intro early_day_over m insert_duration_range) simp
      with that show False by simp
    qed
    moreover have "midnight z day < to1"
    proof (rule ccontr)
      assume "\<not> midnight z day < to1"
      then have "to1 \<le> sl_Start s" unfolding r(3) by (intro late_day_after m) simp
      with that show False by simp
    qed
    ultimately have "midnight z day \<in> set ?days" using run_days [OF assms(1)] by blast
    with r(1) show "\<exists>day\<in>set ?days. run_on env k s (daynum z day)"
      by (intro bexI [of _ "midnight z day"]) (simp_all add: daynum_midnight)
  qed auto
  have slots: "set (InsertSlots env k from1 to1) = set (insert_runs env k from1 to1 ?days)"
    using assms by (simp add: InsertSlots_def Let_def)
  have "s \<in> set (InsertSlots env k from1 to1) \<longleftrightarrow>
     insert_run env k s \<and> from1 < sl_End s \<and> sl_Start s < to1" for s
    unfolding slots set_insert_runs insert_run_def assms(2) [symmetric] using days [of s] by blast
  then show ?thesis by blast
qed

end

end
