(* ===== verification/Config_Active.thy ===== *)
theory Config_Active
  imports Config_Inserts
begin

section \<open>The insert on screen\<close>

text \<open>
  Properties of \<^verbatim>\<open>InsertSlots\<close>, \<^verbatim>\<open>ActiveInsert\<close> and \<^verbatim>\<open>NextInsertChange\<close>: the listed runs are
  all runs of the enabled inserts, the run on screen wins against every run at the same time, and
  it stays the same until the next change.
\<close>

subsection \<open>The winner of a list of runs\<close>

definition slots_sorted :: "InsertSlot list \<Rightarrow> bool" where
  "slots_sorted ss \<longleftrightarrow> sorted (map (\<lambda>s. (sl_Start s, sl_Index s)) ss)"

lemma InsertSlots_sorted: "slots_sorted (InsertSlots env k from1 to1)"
  by (simp add: slots_sorted_def InsertSlots_def Let_def)

lemma slots_sorted_filter: "slots_sorted ss \<Longrightarrow> slots_sorted (filter P ss)"
  by (simp add: slots_sorted_def sorted_filter)

definition run_key :: "InsertSlot \<Rightarrow> standing \<times> time" where
  "run_key s = (standing_of s, sl_Start s)"

lemma best_run_Some: "best_run (Some b) ss \<noteq> None"
  by (induction ss arbitrary: b) auto

lemma best_run_in: "best_run best ss = Some s \<Longrightarrow> best = Some s \<or> s \<in> set ss"
  by (induction ss arbitrary: best) (fastforce split: option.splits if_splits)+

lemma best_run_least:
  assumes "best_run best ss = Some s" "slots_sorted ss"
    and "\<And>b x. best = Some b \<Longrightarrow> x \<in> set ss \<Longrightarrow> sl_Start b \<le> sl_Start x"
  shows "(\<forall>b. best = Some b \<longrightarrow> run_key s \<le> run_key b) \<and> (\<forall>x\<in>set ss. run_key s \<le> run_key x)"
  using assms
proof (induction ss arbitrary: best)
  case (Cons a ss)
  have sorted: "slots_sorted ss" and first: "\<And>x. x \<in> set ss \<Longrightarrow> sl_Start a \<le> sl_Start x"
    using Cons.prems(2) by (auto simp: slots_sorted_def)
  show ?case
  proof (cases best)
    case None
    with Cons.prems(1) have "best_run (Some a) ss = Some s" by simp
    from Cons.IH [OF this sorted] first None show ?thesis by auto
  next
    case (Some b)
    show ?thesis
    proof (cases "wins a b")
      case True
      with Some Cons.prems(1) have "best_run (Some a) ss = Some s" by simp
      from Cons.IH [OF this sorted] first have "run_key s \<le> run_key a" "\<forall>x\<in>set ss. run_key s \<le> run_key x" by auto
      moreover from True have "run_key a \<le> run_key b" by (auto simp: run_key_def wins_standing)
      ultimately show ?thesis using Some by auto
    next
      case False
      with Some Cons.prems(1) have "best_run (Some b) ss = Some s" by simp
      from Cons.IH [OF this sorted] Cons.prems(3) Some
      have "run_key s \<le> run_key b" "\<forall>x\<in>set ss. run_key s \<le> run_key x" by auto
      moreover from False Cons.prems(3) Some have "run_key b \<le> run_key a"
        by (auto simp: run_key_def wins_standing not_less)
      ultimately show ?thesis using Some by auto
    qed
  qed
qed simp

lemma best_run_None_iff: "best_run None ss = None \<longleftrightarrow> ss = []"
  using best_run_Some by (cases ss) auto

lemma insert_run_key_inj:
  assumes "insert_run env k s" "insert_run env k s'" "run_key s = run_key s'"
  shows "s = s'"
  using assms by (cases s, cases s') (auto simp: insert_run_def run_key_def standing_of_def)

lemma best_run_unique:
  assumes "slots_sorted ss" "slots_sorted ss'" "set ss = set ss'" "\<And>s. s \<in> set ss \<Longrightarrow> insert_run env k s"
  shows "best_run None ss = best_run None ss'"
proof (cases "best_run None ss")
  case None
  with assms(3) show ?thesis by (simp add: best_run_None_iff)
next
  case (Some s)
  then have "best_run None ss' \<noteq> None"
    using assms(3) best_run_in [OF Some] by (auto simp: best_run_None_iff)
  then obtain s' where s': "best_run None ss' = Some s'" by blast
  have "s \<in> set ss" "s' \<in> set ss" using best_run_in [OF Some] best_run_in [OF s'] assms(3) by auto
  moreover have "run_key s \<le> run_key s'"
    using best_run_least [OF Some assms(1)] \<open>s' \<in> set ss\<close> by simp
  moreover have "run_key s' \<le> run_key s"
    using best_run_least [OF s' assms(2)] \<open>s \<in> set ss\<close> assms(3) by simp
  ultimately have "s = s'" using insert_run_key_inj assms(4) by (meson order_antisym)
  with Some s' show ?thesis by simp
qed

subsection \<open>Runs at an instant\<close>

definition running :: "sky \<Rightarrow> KioskConfig \<Rightarrow> time \<Rightarrow> InsertSlot set" where
  "running env k t = {s. insert_run env k s \<and> sl_Start s \<le> t \<and> t < sl_End s}"

lemma insert_run_duration:
  "insert_run env k s \<Longrightarrow> sl_Start s < sl_End s \<and> sl_End s \<le> sl_Start s + Hour"
  using insert_duration_range by (auto simp: insert_run_def insert_usable_def)

lemma set_active:
  assumes "day_calendar (zone_of env)" "from1 < to1" "from1 \<le> t" "t < to1"
  shows "set (filter (\<lambda>s. \<not> (t < sl_Start s \<or> sl_End s \<le> t)) (InsertSlots env k from1 to1)) = running env k t"
  unfolding running_def using day_calendar.InsertSlots_runs [OF assms(1,2) refl] assms(3,4) by auto

lemma active_list_sorted:
  "slots_sorted (filter (\<lambda>s. \<not> (t < sl_Start s \<or> sl_End s \<le> t)) (InsertSlots env k from1 to1))"
  by (intro slots_sorted_filter InsertSlots_sorted)

lemma ActiveInsert_any_list:
  \<comment> \<open>the winner at \<open>t\<close> in any list of slots around \<open>t\<close> is the active insert at \<open>t\<close>\<close>
  assumes "day_calendar (zone_of env)" "from1 < to1" "from1 \<le> t" "t < to1"
  shows "best_run None (filter (\<lambda>s. \<not> (t < sl_Start s \<or> sl_End s \<le> t)) (InsertSlots env k from1 to1)) =
     ActiveInsert env k t"
  unfolding ActiveInsert_def
proof (rule best_run_unique [OF active_list_sorted active_list_sorted])
  have t: "t < t + Second" by simp
  show "set (filter (\<lambda>s. \<not> (t < sl_Start s \<or> sl_End s \<le> t)) (InsertSlots env k from1 to1)) =
      set (filter (\<lambda>s. \<not> (t < sl_Start s \<or> sl_End s \<le> t)) (InsertSlots env k t (t + Second)))"
    using set_active [OF assms] set_active [OF assms(1) t order_refl t] by simp
  show "insert_run env k s"
    if "s \<in> set (filter (\<lambda>s. \<not> (t < sl_Start s \<or> sl_End s \<le> t)) (InsertSlots env k from1 to1))" for s
    using that unfolding set_active [OF assms] by (simp add: running_def)
qed

lemma ActiveInsert_eq:
  assumes "day_calendar (zone_of env)" "running env k t = running env k t'"
  shows "ActiveInsert env k t = ActiveInsert env k t'"
  unfolding ActiveInsert_def
proof (rule best_run_unique [OF active_list_sorted active_list_sorted])
  have s: "u < u + Second" for u by simp
  note r = set_active [OF assms(1) s order_refl s]
  show "set (filter (\<lambda>s. \<not> (t < sl_Start s \<or> sl_End s \<le> t)) (InsertSlots env k t (t + Second))) =
      set (filter (\<lambda>s. \<not> (t' < sl_Start s \<or> sl_End s \<le> t')) (InsertSlots env k t' (t' + Second)))"
    unfolding r by (rule assms(2))
  show "insert_run env k s"
    if "s \<in> set (filter (\<lambda>s. \<not> (t < sl_Start s \<or> sl_End s \<le> t)) (InsertSlots env k t (t + Second)))" for s
    using that unfolding r by (simp add: running_def)
qed

subsection \<open>The next change\<close>

lemma earliest_after_result:
  assumes "0 \<le> now" "next1 = 0 \<or> now < next1"
  shows "let r = earliest_after now next1 ts in
     (r = 0 \<longrightarrow> next1 = 0 \<and> (\<forall>t\<in>set ts. t \<le> now)) \<and>
     (r \<noteq> 0 \<longrightarrow> now < r \<and> (r = next1 \<or> r \<in> set ts) \<and> (next1 \<noteq> 0 \<longrightarrow> r \<le> next1) \<and>
        (\<forall>t\<in>set ts. now < t \<longrightarrow> r \<le> t))"
  using assms
proof (induction ts arbitrary: next1)
  case (Cons t ts)
  let ?n = "if now < t \<and> (next1 = 0 \<or> t < next1) then t else next1"
  from Cons.prems have "?n = 0 \<or> now < ?n" by auto
  from Cons.IH [OF Cons.prems(1) this] Cons.prems show ?case
    unfolding Let_def earliest_after.simps by (auto split: if_splits)
qed (auto simp: Let_def)

lemma NextInsertChange_cases:
  assumes "0 \<le> now"
  shows "case NextInsertChange env k now of
       None \<Rightarrow> (\<forall>s\<in>set (InsertSlots env k now (now + 48 * Hour)). sl_Start s \<le> now \<and> sl_End s \<le> now)
     | Some n \<Rightarrow> now < n \<and>
         (\<exists>s\<in>set (InsertSlots env k now (now + 48 * Hour)). n = sl_Start s \<or> n = sl_End s) \<and>
         (\<forall>s\<in>set (InsertSlots env k now (now + 48 * Hour)).
            (now < sl_Start s \<longrightarrow> n \<le> sl_Start s) \<and> (now < sl_End s \<longrightarrow> n \<le> sl_End s))"
  using earliest_after_result [OF assms, of 0
      "concat (map (\<lambda>s. [sl_Start s, sl_End s]) (InsertSlots env k now (now + 48 * Hour)))"]
  by (auto simp: NextInsertChange_def Let_def)

lemma running_until_change:
  assumes cal: "day_calendar (zone_of env)" and now: "0 \<le> now" "now \<le> t"
    and before: "case NextInsertChange env k now of None \<Rightarrow> t < now + 48 * Hour | Some n \<Rightarrow> t < n"
  shows "running env k t = running env k now"
proof -
  have H: "now < now + 48 * Hour" by (simp add: duration_units)
  note slots = day_calendar.InsertSlots_runs [OF cal H refl, of k]
  note next1 = NextInsertChange_cases [OF now(1), of env k]
  have until: "t < now + 48 * Hour"
  proof (cases "NextInsertChange env k now")
    case (Some n)
    then obtain s where s: "s \<in> set (InsertSlots env k now (now + 48 * Hour))" "n = sl_Start s \<or> n = sl_End s"
      and n: "now < n" "now < sl_Start s \<Longrightarrow> n \<le> sl_Start s" using next1 by auto
    then have run: "insert_run env k s" "sl_Start s < now + 48 * Hour" using slots by auto
    have "n \<le> now + 48 * Hour"
    proof (cases "now < sl_Start s")
      case False
      with insert_run_duration [OF run(1)] s(2) n(1) show ?thesis by (auto simp: duration_units)
    qed (use n(2) run(2) in simp)
    with before Some show ?thesis by simp
  qed (use before in simp)
  have same: "(sl_Start s \<le> t \<and> t < sl_End s) = (sl_Start s \<le> now \<and> now < sl_End s)"
    if run: "insert_run env k s" for s
  proof (cases "now < sl_End s \<and> sl_Start s < now + 48 * Hour")
    case True
    with run have "s \<in> set (InsertSlots env k now (now + 48 * Hour))" using slots by auto
    with next1 before True have "(now < sl_Start s \<longrightarrow> t < sl_Start s) \<and> t < sl_End s"
      by (auto split: option.splits)
    with True now(2) show ?thesis by auto
  next
    case False
    with until now(2) show ?thesis by auto
  qed
  then show ?thesis by (auto simp: running_def)
qed

subsection \<open>Properties\<close>

definition demo_sky :: sky where
  "demo_sky = \<lparr>zone_of = utc_zone, SunTimes = (\<lambda>d lat lon. (0, 0, ''day''))\<rparr>"

definition demo_insert :: "string \<Rightarrow> PageInsert" where
  "demo_insert i = zero_insert\<lparr>ins_ID := i, ins_PageID := ''p'', ins_Repeat := ''hourly'', ins_Minute := 30,
     ins_DurationSeconds := 60\<rparr>"

definition demo_program :: KioskConfig where
  "demo_program = zero_kiosk\<lparr>
     k_Pages := [zero_page\<lparr>pg_PageID := ''p'', pg_URL := ''http://p''\<rparr>],
     k_Inserts := [demo_insert ''low'', (demo_insert ''high'')\<lparr>ins_Priority := 5\<rparr>]\<rparr>"

lemma demo_sky_calendar: "day_calendar (zone_of demo_sky)"
  by (simp add: demo_sky_def fixed_zone_calendar)

text \<open>C6: InsertSlots lists exactly the runs of the enabled inserts that overlap the given stretch of
  time, whatever day they belong to, ordered by their start and then by the position of the insert;
  no run is missed although the loop over the days starts only one day before.\<close>

theorem InsertSlots_complete:
  assumes "day_calendar (zone_of env)"
  shows "set (InsertSlots env k from1 to1) =
       {s. from1 < to1 \<and> insert_run env k s \<and> from1 < sl_End s \<and> sl_Start s < to1} \<and>
     sorted (map (\<lambda>s. (sl_Start s, sl_Index s)) (InsertSlots env k from1 to1))"
proof (cases "from1 < to1")
  case True
  with day_calendar.InsertSlots_runs [OF assms True refl] InsertSlots_sorted [of env k from1 to1]
  show ?thesis by (auto simp: slots_sorted_def)
qed (simp add: InsertSlots_def)

lemma InsertSlots_complete_witness:
  "set (InsertSlots demo_sky demo_program 0 Hour) =
     {s. insert_run demo_sky demo_program s \<and> 0 < sl_End s \<and> sl_Start s < Hour}"
  using InsertSlots_complete [OF demo_sky_calendar, of demo_program 0 Hour]
  by (simp add: duration_units)

text \<open>C8: The insert on screen at an instant is a run in progress that no other run in progress beats:
  every other one has a lower priority, or the same priority and a later place in the list, or is
  a later run of the same insert; there is none exactly when no run is in progress.\<close>

theorem ActiveInsert_wins:
  assumes "day_calendar (zone_of env)"
  shows "case ActiveInsert env k t of
       None \<Rightarrow> running env k t = {}
     | Some s \<Rightarrow> s \<in> running env k t \<and>
         (\<forall>s'\<in>running env k t. s' = s \<or> wins s s' \<or>
            sl_Index s' = sl_Index s \<and> sl_Start s < sl_Start s')"
proof -
  let ?ss = "filter (\<lambda>s. \<not> (t < sl_Start s \<or> sl_End s \<le> t)) (InsertSlots env k t (t + Second))"
  have t: "t < t + Second" by simp
  note set_ss = set_active [OF assms t order_refl t, of k]
  show ?thesis
  proof (cases "ActiveInsert env k t")
    case None
    then have "set ?ss = {}" by (simp only: ActiveInsert_def best_run_None_iff) simp
    then show ?thesis unfolding set_ss using None by simp
  next
    case (Some s)
    then have b: "best_run None ?ss = Some s" by (simp only: ActiveInsert_def)
    from best_run_in [OF b] have s: "s \<in> running env k t" unfolding set_ss by simp
    have "s' = s \<or> wins s s' \<or> sl_Index s' = sl_Index s \<and> sl_Start s < sl_Start s'"
      if s': "s' \<in> running env k t" for s'
    proof -
      have "run_key s \<le> run_key s'"
        using best_run_least [OF b active_list_sorted] s' unfolding set_ss by simp
      then consider "standing_of s < standing_of s'" | "run_key s = run_key s'"
        | "standing_of s = standing_of s'" "sl_Start s < sl_Start s'"
        by (auto simp: run_key_def order.order_iff_strict)
      then show ?thesis
      proof cases
        case 2
        with s s' have "s = s'" using insert_run_key_inj [of env k s s'] by (simp add: running_def)
        then show ?thesis by simp
      qed (auto simp: wins_standing standing_of_def)
    qed
    with Some s show ?thesis by simp
  qed
qed

lemma demo_active:
  "map_option (\<lambda>s. ins_ID (sl_Insert s)) (ActiveInsert demo_sky demo_program (1830 * Second)) = Some ''high''"
  by code_simp

lemma ActiveInsert_wins_witness:
  "\<exists>s. ActiveInsert demo_sky demo_program (1830 * Second) = Some s \<and>
     s \<in> running demo_sky demo_program (1830 * Second) \<and> ins_ID (sl_Insert s) = ''high''"
  using ActiveInsert_wins [OF demo_sky_calendar, of demo_program "1830 * Second"] demo_active
  by (auto split: option.splits)

text \<open>C7: Between now and the next change reported by NextInsertChange the insert on screen does not
  change, so nothing is missed when the scheduler sleeps until then; without a next change it stays
  the same for two days.\<close>

theorem NextInsertChange_stable:
  assumes "day_calendar (zone_of env)" "0 \<le> now" "now \<le> t"
    and "case NextInsertChange env k now of None \<Rightarrow> t < now + 48 * Hour | Some n \<Rightarrow> t < n"
  shows "ActiveInsert env k t = ActiveInsert env k now"
  using ActiveInsert_eq [OF assms(1) running_until_change [OF assms]] .

lemma demo_next: "NextInsertChange demo_sky demo_program 0 = Some (1800 * Second)"
  by code_simp

lemma NextInsertChange_stable_witness:
  "ActiveInsert demo_sky demo_program (1799 * Second) = ActiveInsert demo_sky demo_program 0"
proof -
  have "case NextInsertChange demo_sky demo_program 0 of
      None \<Rightarrow> 1799 * Second < 0 + 48 * Hour | Some n \<Rightarrow> 1799 * Second < n"
    unfolding demo_next by (simp add: Second_def)
  from NextInsertChange_stable [OF demo_sky_calendar order_refl _ this] show ?thesis
    by (simp add: Second_def)
qed

end
