(* ===== verification/Config_Program.thy ===== *)
theory Config_Program
  imports Config_Active
begin

section \<open>The programme of a stretch of time\<close>

text \<open>
  \<^verbatim>\<open>ProgramTimeline\<close> of \<^verbatim>\<open>internal/config/inserts.go\<close>: the stretch is cut at every start and end of
  a run, the insert on screen is found for each piece, and neighbouring pieces with the same insert
  are joined. The result tiles the stretch and agrees with \<^verbatim>\<open>ActiveInsert\<close> at every instant.
\<close>

record ProgramSegment =
  sg_Start :: time
  sg_End :: time
  sg_InsertID :: string
  sg_Name :: string
  sg_PageID :: string
  sg_Priority :: int

definition program_segment :: "InsertSlot list \<Rightarrow> time \<Rightarrow> time \<Rightarrow> ProgramSegment" where
  \<comment> \<open>the segment between two cuts\<close>
  "program_segment slots start end1 =
     (case best_run None (filter (\<lambda>s. \<not> (start < sl_Start s \<or> sl_End s \<le> start)) slots) of
        None \<Rightarrow> \<lparr>sg_Start = start, sg_End = end1, sg_InsertID = '''', sg_Name = '''', sg_PageID = '''',
                 sg_Priority = 0\<rparr>
      | Some best \<Rightarrow>
          \<lparr>sg_Start = start, sg_End = end1, sg_InsertID = ins_ID (sl_Insert best),
           sg_Name = ins_Name (sl_Insert best), sg_PageID = ins_PageID (sl_Insert best),
           sg_Priority = ins_Priority (sl_Insert best)\<rparr>)"

fun join_segments :: "InsertSlot list \<Rightarrow> ProgramSegment list \<Rightarrow> time list \<Rightarrow> ProgramSegment list" where
  "join_segments slots out (start # end1 # cuts) =
     (let segment = program_segment slots start end1
      in join_segments slots
           (if out \<noteq> [] \<and> sg_InsertID (last out) = sg_InsertID segment \<and> sg_End (last out) = start
            then butlast out @ [(last out)\<lparr>sg_End := end1\<rparr>]
            else out @ [segment])
           (end1 # cuts))"
| "join_segments slots out cuts = out"

definition program_cuts :: "InsertSlot list \<Rightarrow> time \<Rightarrow> time \<Rightarrow> time list" where
  "program_cuts slots from1 to1 =
     remdups_adj (sort ([from1, to1] @ concat (map (\<lambda>slot.
       (if from1 < sl_Start slot \<and> sl_Start slot < to1 then [sl_Start slot] else []) @
       (if from1 < sl_End slot \<and> sl_End slot < to1 then [sl_End slot] else [])) slots)))"

definition ProgramTimeline :: "sky \<Rightarrow> KioskConfig \<Rightarrow> time \<Rightarrow> time \<Rightarrow> ProgramSegment list" where
  "ProgramTimeline env k from1 to1 =
     (let slots = InsertSlots env k from1 to1
      in join_segments slots [] (program_cuts slots from1 to1))"

subsection \<open>Tilings\<close>

fun tiles :: "time \<Rightarrow> time \<Rightarrow> ProgramSegment list \<Rightarrow> bool" where
  \<comment> \<open>consecutive non-empty segments from the first instant to the second\<close>
  "tiles a b [] \<longleftrightarrow> a = b"
| "tiles a b (s # ss) \<longleftrightarrow> sg_Start s = a \<and> a < sg_End s \<and> tiles (sg_End s) b ss"

lemma tiles_append: "tiles a c (xs @ ys) \<longleftrightarrow> (\<exists>b. tiles a b xs \<and> tiles b c ys)"
  by (induction xs arbitrary: a) auto

lemma tiles_extend:
  assumes "tiles a b out" "out \<noteq> []" "b < c" "sg_End (last out) = b"
  shows "tiles a c (butlast out @ [(last out)\<lparr>sg_End := c\<rparr>])"
proof -
  have "tiles a b (butlast out @ [last out])" using assms(1,2) by simp
  then obtain m where "tiles a m (butlast out)" "tiles m b [last out]" unfolding tiles_append by blast
  then show ?thesis using assms(3,4) unfolding tiles_append by (intro exI [of _ m]) auto
qed

definition program_id :: "sky \<Rightarrow> KioskConfig \<Rightarrow> time \<Rightarrow> string" where
  \<comment> \<open>the identifier of the insert on screen, empty for the base programme\<close>
  "program_id env k t = (case ActiveInsert env k t of None \<Rightarrow> '''' | Some s \<Rightarrow> ins_ID (sl_Insert s))"

definition shows_program :: "sky \<Rightarrow> KioskConfig \<Rightarrow> ProgramSegment \<Rightarrow> bool" where
  "shows_program env k sg \<longleftrightarrow>
     (\<forall>t. sg_Start sg \<le> t \<and> t < sg_End sg \<longrightarrow> program_id env k t = sg_InsertID sg)"

lemma program_segment_simps [simp]:
  "sg_Start (program_segment slots a b) = a" "sg_End (program_segment slots a b) = b"
  by (simp_all add: program_segment_def split: option.split)

lemma shows_program_extend:
  assumes "shows_program env k s" "shows_program env k s'" "sg_InsertID s = sg_InsertID s'" "sg_Start s' = sg_End s"
  shows "shows_program env k (s\<lparr>sg_End := sg_End s'\<rparr>)"
  using assms by (auto simp: shows_program_def) (metis not_less)

lemma join_segments_tiles:
  assumes "sorted_wrt (<) (a # cuts)" "tiles from1 a out" "list_all (shows_program env k) out"
    and "\<And>x y xs ys. a # cuts = xs @ x # y # ys \<Longrightarrow> shows_program env k (program_segment slots x y)"
  shows "tiles from1 (last (a # cuts)) (join_segments slots out (a # cuts)) \<and>
     list_all (shows_program env k) (join_segments slots out (a # cuts))"
  using assms
proof (induction cuts arbitrary: a out)
  case (Cons b cuts)
  let ?seg = "program_segment slots a b"
  let ?join = "out \<noteq> [] \<and> sg_InsertID (last out) = sg_InsertID ?seg \<and> sg_End (last out) = a"
  let ?out = "if ?join then butlast out @ [(last out)\<lparr>sg_End := b\<rparr>] else out @ [?seg]"
  have ab: "a < b" using Cons.prems(1) by simp
  have seg: "shows_program env k ?seg" using Cons.prems(4) [of "[]" a b cuts] by simp
  have "tiles from1 b ?out"
    using tiles_extend [OF Cons.prems(2) _ ab] Cons.prems(2) ab by (auto simp: tiles_append)
  moreover have "list_all (shows_program env k) ?out"
  proof (cases ?join)
    case True
    then have "shows_program env k (last out)" using Cons.prems(3) by (simp add: list_all_iff)
    with seg True have "shows_program env k ((last out)\<lparr>sg_End := b\<rparr>)"
      using shows_program_extend [of env k "last out" ?seg] by simp
    moreover have "list_all (shows_program env k) (butlast out)"
      using Cons.prems(3) by (auto simp: list_all_iff dest: in_set_butlastD)
    ultimately show ?thesis using True by simp
  qed (use seg Cons.prems(3) in auto)
  moreover have "sorted_wrt (<) (b # cuts)" using Cons.prems(1) by simp
  moreover have "shows_program env k (program_segment slots x y)" if "b # cuts = xs @ x # y # ys" for x y xs ys
    using Cons.prems(4) [of "a # xs" x y ys] that by simp
  ultimately have "tiles from1 (last (b # cuts)) (join_segments slots ?out (b # cuts)) \<and>
     list_all (shows_program env k) (join_segments slots ?out (b # cuts))"
    using Cons.IH [of b ?out] by blast
  then show ?case by (simp add: Let_def)
qed simp

subsection \<open>Pieces between cuts\<close>

lemma program_cuts_set:
  "set (program_cuts slots from1 to1) = {from1, to1} \<union>
     {t. from1 < t \<and> t < to1 \<and> (\<exists>s\<in>set slots. t = sl_Start s \<or> t = sl_End s)}"
  unfolding program_cuts_def remdups_adj_set set_sort by (auto split: if_splits)

lemma strict_sorted_remdups_adj:
  fixes xs :: "time list"
  shows "sorted xs \<Longrightarrow> sorted_wrt (<) (remdups_adj xs)"
  by (induction xs rule: remdups_adj.induct) (auto simp: less_le)

lemma program_cuts_sorted: "sorted_wrt (<) (program_cuts slots from1 to1)"
  unfolding program_cuts_def by (rule strict_sorted_remdups_adj) (rule sorted_sort)

lemma between_cuts:
  fixes cuts :: "time list"
  assumes "sorted_wrt (<) cuts" "cuts = xs @ x # y # ys" "c \<in> set cuts" "x < c"
  shows "y \<le> c"
  using assms by (auto simp: sorted_wrt_append)

lemma program_cuts_bounds:
  assumes "from1 < to1"
  shows "hd (program_cuts slots from1 to1) = from1" "last (program_cuts slots from1 to1) = to1"
proof -
  let ?c = "program_cuts slots from1 to1"
  have mem: "from1 \<in> set ?c" "to1 \<in> set ?c" "\<And>t. t \<in> set ?c \<Longrightarrow> from1 \<le> t \<and> t \<le> to1"
    using assms by (auto simp: program_cuts_set)
  have ne: "?c \<noteq> []" using mem(1) by auto
  have s: "sorted ?c" using program_cuts_sorted strict_sorted_imp_sorted by blast
  show "hd ?c = from1"
    using s ne mem by (metis antisym hd_in_set list.exhaust_sel set_ConsD sorted_simps(2))
  show "last ?c = to1"
  proof -
    have "\<forall>t\<in>set ?c. t \<le> last ?c"
    proof
      fix t assume "t \<in> set ?c"
      moreover have "sorted (butlast ?c @ [last ?c])" using s ne by simp
      ultimately show "t \<le> last ?c"
        using ne by (metis Un_iff append_butlast_last_id list.set_intros(1) order_refl set_ConsD set_append sorted_append empty_iff list.set(1))
    qed
    then show ?thesis using mem ne by (meson antisym last_in_set)
  qed
qed

lemma running_between_cuts:
  assumes cal: "day_calendar (zone_of env)" and ft: "from1 < to1"
    and cuts: "program_cuts (InsertSlots env k from1 to1) from1 to1 = xs @ x # y # ys"
    and t: "x \<le> t" "t < y"
  shows "running env k t = running env k x"
proof -
  let ?slots = "InsertSlots env k from1 to1"
  let ?c = "program_cuts ?slots from1 to1"
  note slots = day_calendar.InsertSlots_runs [OF cal ft refl, of k]
  have "x \<in> set ?c" "y \<in> set ?c" unfolding cuts by simp_all
  with ft have b: "from1 \<le> x" "y \<le> to1" unfolding program_cuts_set by auto
  have nocut: "\<not> (x < c \<and> c \<le> t)" if "c \<in> set ?c" for c
    using between_cuts [OF program_cuts_sorted cuts that] t by auto
  have same: "(sl_Start s \<le> t \<and> t < sl_End s) = (sl_Start s \<le> x \<and> x < sl_End s)"
    if run: "insert_run env k s" for s
  proof -
    have len: "sl_Start s < sl_End s" using insert_run_duration [OF run] by simp
    have "\<not> (x < sl_Start s \<and> sl_Start s \<le> t)"
    proof
      assume a: "x < sl_Start s \<and> sl_Start s \<le> t"
      then have "s \<in> set ?slots" using run len b t slots by auto
      then have "sl_Start s \<in> set ?c" using a b t by (auto simp: program_cuts_set)
      with nocut a show False by blast
    qed
    moreover have "\<not> (x < sl_End s \<and> sl_End s \<le> t)"
    proof
      assume a: "x < sl_End s \<and> sl_End s \<le> t"
      then have "s \<in> set ?slots" using run len b t slots by auto
      then have "sl_End s \<in> set ?c" using a b t by (auto simp: program_cuts_set)
      with nocut a show False by blast
    qed
    ultimately show ?thesis using t by linarith
  qed
  then show ?thesis by (auto simp: running_def)
qed

lemma program_segment_shows:
  assumes cal: "day_calendar (zone_of env)" and ft: "from1 < to1"
    and cuts: "program_cuts (InsertSlots env k from1 to1) from1 to1 = xs @ x # y # ys"
  shows "shows_program env k (program_segment (InsertSlots env k from1 to1) x y)"
proof -
  let ?slots = "InsertSlots env k from1 to1"
  have mem: "x \<in> set (program_cuts ?slots from1 to1)" "y \<in> set (program_cuts ?slots from1 to1)"
    unfolding cuts by simp_all
  have "x < y" using program_cuts_sorted [of ?slots from1 to1] unfolding cuts by (simp add: sorted_wrt_append)
  with mem ft have x: "from1 \<le> x" "x < to1" unfolding program_cuts_set by auto
  have id: "sg_InsertID (program_segment ?slots x y) = program_id env k x"
    unfolding program_segment_def ActiveInsert_any_list [OF cal ft x]
    by (simp add: program_id_def split: option.split)
  have "program_id env k t = program_id env k x" if "x \<le> t" "t < y" for t
    unfolding program_id_def
    using ActiveInsert_eq [OF cal running_between_cuts [OF cal ft cuts that]] by simp
  then show ?thesis unfolding shows_program_def program_segment_simps id by blast
qed

text \<open>C5: The timeline of a stretch of time is a sequence of non-empty segments that follow one another
  without gap or overlap from its first to its last instant, and at every instant the segment names
  the insert that ActiveInsert puts on screen, or none when the base programme runs.\<close>

theorem ProgramTimeline_agrees:
  assumes "day_calendar (zone_of env)" "from1 < to1"
  shows "tiles from1 to1 (ProgramTimeline env k from1 to1) \<and>
     (\<forall>sg\<in>set (ProgramTimeline env k from1 to1). \<forall>t. sg_Start sg \<le> t \<and> t < sg_End sg \<longrightarrow>
        sg_InsertID sg = (case ActiveInsert env k t of None \<Rightarrow> '''' | Some s \<Rightarrow> ins_ID (sl_Insert s)))"
proof -
  let ?slots = "InsertSlots env k from1 to1"
  let ?c = "program_cuts ?slots from1 to1"
  obtain cuts where c: "?c = from1 # cuts"
    using program_cuts_bounds(1) [OF assms(2), of ?slots] program_cuts_set [of ?slots from1 to1]
    by (cases ?c) auto
  have "tiles from1 (last ?c) (join_segments ?slots [] ?c) \<and> list_all (shows_program env k) (join_segments ?slots [] ?c)"
    unfolding c
  proof (rule join_segments_tiles)
    show "sorted_wrt (<) (from1 # cuts)" using program_cuts_sorted c by metis
    show "shows_program env k (program_segment ?slots x y)" if "from1 # cuts = xs @ x # y # ys" for x y xs ys
      using program_segment_shows [OF assms] c that by simp
  qed simp_all
  then show ?thesis
    using program_cuts_bounds(2) [OF assms(2), of ?slots]
    by (auto simp: ProgramTimeline_def Let_def list_all_iff shows_program_def program_id_def)
qed

lemma ProgramTimeline_agrees_witness:
  "tiles 0 Hour (ProgramTimeline demo_sky demo_program 0 Hour)"
  using ProgramTimeline_agrees [OF demo_sky_calendar, of 0 Hour demo_program]
  by (simp add: duration_units)

end
