(* ===== verification/Signals.thy ===== *)
theory Signals
  imports Config_Inserts
begin

section \<open>Signals\<close>

text \<open>
  \<^verbatim>\<open>internal/signals/signals.go\<close>: the last value of every MQTT topic and the last presence
  detection. The change channel has room for one notification, so it is a flag. The interface of
  the look-up, locale \<open>topic_values\<close>, is what conditional inserts rely on; it is interpreted on the
  store.
\<close>

record Store =
  st_values :: "string \<rightharpoonup> string"
  st_presence :: time
  st_source :: string
  st_changes :: bool

definition New :: Store where
  "New = \<lparr>st_values = Map.empty, st_presence = 0, st_source = '''', st_changes = False\<rparr>"

definition notify :: "Store \<Rightarrow> Store" where
  "notify s = s\<lparr>st_changes := True\<rparr>"

definition Set :: "Store \<Rightarrow> string \<Rightarrow> string \<Rightarrow> Store" where
  "Set s topic v =
     (let t = trim_space topic;
          old = st_values s t;
          s' = s\<lparr>st_values := (st_values s)(t \<mapsto> v)\<rparr>
      in if old = None \<or> old \<noteq> Some v then notify s' else s')"

definition Value :: "Store \<Rightarrow> string \<Rightarrow> string option" where
  "Value s topic = st_values s (trim_space topic)"

definition NotePresence :: "Store \<Rightarrow> time \<Rightarrow> string \<Rightarrow> Store" where
  "NotePresence s now source =
     (let wasOld = (st_presence s = 0 \<or> Minute < now - st_presence s);
          s' = s\<lparr>st_presence := now, st_source := source\<rparr>
      in if wasOld then notify s' else s')"

definition LastPresence :: "Store \<Rightarrow> time \<times> string" where
  "LastPresence s = (st_presence s, st_source s)"

lemmas store_defs = Set_def Value_def NotePresence_def LastPresence_def notify_def

lemma Value_Set: "Value (Set s t v) t' = (if trim_space t = trim_space t' then Some v else Value s t')"
  by (auto simp: store_defs Let_def)

subsection \<open>The interface of conditional inserts\<close>

locale topic_values =
  fixes put :: "'s \<Rightarrow> string \<Rightarrow> string \<Rightarrow> 's"
    and get :: "'s \<Rightarrow> string \<Rightarrow> string option"
    and same :: "string \<Rightarrow> string \<Rightarrow> bool"
  assumes get_put: "get (put s t v) t' = (if same t t' then Some v else get s t')"
begin

fun put_all :: "'s \<Rightarrow> (string \<times> string) list \<Rightarrow> 's" where
  "put_all s [] = s"
| "put_all s ((t, v) # ms) = put_all (put s t v) ms"

definition last_value :: "(string \<times> string) list \<Rightarrow> string \<Rightarrow> string option" where
  "last_value ms t = map_option snd (find (\<lambda>(t', v). same t' t) (rev ms))"

lemma find_append: "find P (xs @ ys) = (case find P xs of None \<Rightarrow> find P ys | Some x \<Rightarrow> Some x)"
  by (induction xs) auto

lemma get_put_all:
  "get (put_all s ms) t = (case last_value ms t of None \<Rightarrow> get s t | Some v \<Rightarrow> Some v)"
proof (induction ms arbitrary: s)
  case (Cons m ms)
  obtain t' v where "m = (t', v)" by (cases m) auto
  with Cons [of "put s t' v"] show ?case
    by (auto simp: last_value_def find_append get_put split: option.splits)
qed (simp add: last_value_def)

lemma ignored_messages:
  \<comment> \<open>messages on topics nobody asks for change nothing\<close>
  "(\<And>t' v. (t', v) \<in> set ms \<Longrightarrow> \<not> P t' \<Longrightarrow> \<not> same t' t) \<Longrightarrow>
   last_value (filter (\<lambda>(t', v). P t') ms) t = last_value ms t"
proof -
  assume h: "\<And>t' v. (t', v) \<in> set ms \<Longrightarrow> \<not> P t' \<Longrightarrow> \<not> same t' t"
  have "find (\<lambda>(t', v). same t' t) (filter (\<lambda>(t', v). P t') xs) = find (\<lambda>(t', v). same t' t) xs"
    if "set xs \<subseteq> set ms" for xs using that by (induction xs) (auto dest: h)
  from this [of "rev ms"] show ?thesis by (simp add: last_value_def rev_filter)
qed

end

interpretation signal_values: topic_values Set Value "\<lambda>t t'. trim_space t = trim_space t'"
  by unfold_locales (rule Value_Set)

lemma condition_topics_set:
  "set (condition_topics is out) = set out \<union>
     {ic_Topic c | i c. i \<in> set is \<and> ins_Condition i = Some c \<and> \<not> ins_Disabled i}"
proof (induction "is" arbitrary: out)
  case (Cons i "is")
  show ?case
  proof (cases "ins_Condition i")
    case None
    then show ?thesis by (auto simp: Cons.IH)
  next
    case (Some c)
    show ?thesis
    proof (cases "\<not> ins_Disabled i \<and> ic_Topic c \<notin> set out")
      case True
      with Some have "set (condition_topics (i # is) out) = set (condition_topics is (out @ [ic_Topic c]))" by simp
      then show ?thesis unfolding Cons.IH using Some True by auto
    next
      case False
      with Some have "set (condition_topics (i # is) out) = set (condition_topics is out)" by auto
      then show ?thesis unfolding Cons.IH using Some False by auto
    qed
  qed
qed simp

lemma condition_topics_distinct: "distinct out \<Longrightarrow> distinct (condition_topics is out)"
  by (induction "is" out rule: condition_topics.induct) (auto split: option.splits)

lemma InsertsWhere_cong:
  assumes "\<And>t. t \<in> set (ConditionTopics k) \<Longrightarrow> f t = g t"
  shows "InsertsWhere k (Some f) = InsertsWhere k (Some g)"
proof -
  have "insert_where f i = insert_where g i" if "i \<in> set (k_Inserts k)" for i
  proof (cases "ins_Condition i")
    case (Some c)
    then have "\<not> ins_Disabled i \<Longrightarrow> f (ic_Topic c) = g (ic_Topic c)"
      using that assms condition_topics_set [of "k_Inserts k" "[]"] by (auto simp: ConditionTopics_def)
    with Some show ?thesis by (simp add: insert_where_def)
  qed (simp add: insert_where_def)
  then show ?thesis by (simp add: InsertsWhere_def)
qed

text \<open>Conditional inserts depend only on the topics ConditionTopics names: after any sequence of
  messages the inserts that are enabled are the ones whose condition holds for the last message on
  their topic, and it makes no difference when messages on all other topics are not recorded.\<close>

theorem conditions_follow_last_message:
  assumes "\<And>t v. (t, v) \<in> set ms \<Longrightarrow> \<not> P t \<Longrightarrow> trim_space t \<notin> trim_space ` set (ConditionTopics k)"
  shows "InsertsWhere k (Some (Value (signal_values.put_all New (filter (\<lambda>(t, v). P t) ms)))) =
         InsertsWhere k (Some (signal_values.last_value ms)) \<and>
         InsertsWhere k (Some (Value (signal_values.put_all New ms))) =
         InsertsWhere k (Some (signal_values.last_value ms))"
proof -
  have new: "Value New t = None" for t by (simp add: Value_def New_def)
  have all: "Value (signal_values.put_all New xs) t = signal_values.last_value xs t" for xs t
    unfolding signal_values.get_put_all new by (simp split: option.split)
  show ?thesis
  proof (intro conjI InsertsWhere_cong)
    fix t assume t: "t \<in> set (ConditionTopics k)"
    have "signal_values.last_value (filter (\<lambda>(t, v). P t) ms) t = signal_values.last_value ms t"
      using assms t by (intro signal_values.ignored_messages) (metis image_eqI)
    then show "Value (signal_values.put_all New (filter (\<lambda>(t, v). P t) ms)) t = signal_values.last_value ms t"
      unfolding all .
  qed (simp add: all)
qed

lemma conditions_follow_last_message_witness:
  "map ins_Disabled (k_Inserts (InsertsWhere (zero_kiosk\<lparr>k_Inserts := [zero_insert\<lparr>ins_Condition :=
       Some \<lparr>ic_Topic = ''motion'', ic_Value = ''on'', ic_Negate = False\<rparr>\<rparr>]\<rparr>)
     (Some (Value (signal_values.put_all New [(''motion'', ''on''), (''motion '', ''off'')]))))) = [True]"
proof -
  let ?k = "zero_kiosk\<lparr>k_Inserts := [zero_insert\<lparr>ins_Condition :=
       Some \<lparr>ic_Topic = ''motion'', ic_Value = ''on'', ic_Negate = False\<rparr>\<rparr>]\<rparr>"
  let ?ms = "[(''motion'', ''on''), (''motion '', ''off'')]"
  have t: "trim_space ''motion '' = ''motion''" "trim_space ''motion'' = ''motion''"
    "equal_fold (trim_space ''off'') (trim_space ''on'') = False" by code_simp+
  have "signal_values.last_value ?ms ''motion'' = Some ''off''"
    by (simp add: signal_values.last_value_def t)
  then have "map ins_Disabled (k_Inserts (InsertsWhere ?k (Some (signal_values.last_value ?ms)))) = [True]"
    by (simp add: InsertsWhere_def insert_where_def zero_kiosk_def zero_insert_def Holds_def t(3))
  with conditions_follow_last_message [of ?ms "\<lambda>_. True" ?k] show ?thesis by simp
qed

text \<open>A presence detection that ends an absence wakes the scheduler at once, except one exactly a
  minute after the last detection when the timeout is that minute.\<close>

theorem NotePresence_wakes:
  assumes "ps_TimeoutMinutes p < 100000000" "0 < st_presence s" "st_presence s + PresenceTimeout p \<le> now" "0 < now"
    and "now \<noteq> st_presence s + Minute"
  shows "st_changes (NotePresence s now source) \<and> LastPresence (NotePresence s now source) = (now, source)"
proof -
  have "Minute \<le> PresenceTimeout p"
    using assms(1) by (auto simp: PresenceTimeout_def duration_units i64_id)
  with assms have "Minute < now - st_presence s" by linarith
  then show ?thesis by (simp add: store_defs Let_def)
qed

lemma NotePresence_wakes_witness:
  "st_changes (NotePresence (New\<lparr>st_presence := Hour\<rparr>) (2 * Hour) ''mqtt'')"
  using NotePresence_wakes [of "k_Presence zero_kiosk" "New\<lparr>st_presence := Hour\<rparr>" "2 * Hour" "''mqtt''"]
  by (simp add: zero_kiosk_def PresenceTimeout_def duration_units i64_id)

end
