(* ===== verification/Scheduler.thy ===== *)
theory Scheduler
  imports Signals Config_Active
begin

section \<open>The page scheduler\<close>

text \<open>
  The scheduler of \<^verbatim>\<open>internal/supervisor/browser.go\<close>: which page should be on screen
  (\<^verbatim>\<open>schedulerTarget\<close> with time rules, rotation, presence, inserts and the manual override), whether
  the display should be off, when to look again, and the scheduled reloads. The record \<open>Sched\<close> holds
  the fields of \<^verbatim>\<open>Browser\<close> these functions use. \<open>None\<close> is a run-time panic of the Go code (an index
  out of range). Days of \<^verbatim>\<open>growthReloadDay\<close> are day numbers, \<open>None\<close> for the empty string.
\<close>

subsection \<open>State\<close>

record SchedulerStatus =
  ss_Enabled :: bool
  ss_Mode :: string
  ss_Reason :: string
  ss_ActiveRule :: string
  ss_ActiveInsert :: string
  ss_NextSwitch :: "time option"
  ss_RotationIndex :: nat
  ss_Presence :: string
  ss_PresenceUntil :: "time option"

record ManualOverride =
  ov_Active :: bool
  ov_Page :: int
  ov_Source :: string
  ov_Started :: "time option"
  ov_Until :: "time option"

record Sched =
  sc_active :: int
  sc_override :: ManualOverride
  sc_rotationIndex :: nat
  sc_rotationUntil :: time
  sc_rotationCycles :: int
  sc_insertShowing :: bool
  sc_insertReturn :: int
  sc_scheduler :: SchedulerStatus
  sc_running :: bool
  sc_started :: time
  sc_idleBlanked :: bool
  sc_lastMaintenance :: time
  sc_memoryBaseline :: "64 word"
  sc_baselineAfter :: time
  sc_growthReloadDay :: "int option"
  sc_rssMB :: "64 word"
  sc_displayPower :: string

definition no_status :: SchedulerStatus where
  "no_status =
     \<lparr>ss_Enabled = False, ss_Mode = '''', ss_Reason = '''', ss_ActiveRule = '''', ss_ActiveInsert = '''',
      ss_NextSwitch = None, ss_RotationIndex = 0, ss_Presence = '''', ss_PresenceUntil = None\<rparr>"

definition no_override :: ManualOverride where
  "no_override = \<lparr>ov_Active = False, ov_Page = 0, ov_Source = '''', ov_Started = None, ov_Until = None\<rparr>"

subsection \<open>Clocks and pages\<close>

definition parseClock :: "string \<Rightarrow> int option" where
  "parseClock value =
     (case split_at CHR '':'' (trim_space value) of
        h # m # rest \<Rightarrow>
          if 1 < length rest then None
          else (case (atoi h, atoi m) of
             (Some hour, Some minute) \<Rightarrow>
               if hour < 0 \<or> 23 < hour \<or> minute < 0 \<or> 59 < minute then None
               else Some (hour * 60 + minute)
           | _ \<Rightarrow> None)
      | _ \<Rightarrow> None)"

definition ruleClock :: "sky \<Rightarrow> KioskConfig \<Rightarrow> string \<Rightarrow> time \<Rightarrow> int option" where
  "ruleClock env k value now =
     (case parseClock value of
        Some minute \<Rightarrow> Some minute
      | None \<Rightarrow> ResolveClock env k value (daynum (zone_of env) now))"

definition dayMatches :: "weekdays \<Rightarrow> nat \<Rightarrow> bool" where
  "dayMatches days weekday \<longleftrightarrow>
     days = [] \<or>
     list_ex (\<lambda>day. to_lower (trim_space day) = to_lower (take 3 (weekday_name weekday)) \<or>
       to_lower (trim_space day) = to_lower (weekday_name weekday)) days"

definition clampPage :: "int \<Rightarrow> int \<Rightarrow> int" where
  "clampPage page count =
     (if count \<le> 0 then - 1 else if page < 0 then 0 else if count \<le> page then count - 1 else page)"

definition pageBrightness :: "KioskConfig \<Rightarrow> int \<Rightarrow> int" where
  "pageBrightness k index =
     (let enabled = enabledPages k in
      if index < 0 \<or> int (length enabled) \<le> index then 0
      else case dsp_Brightness (pg_DisplayOptions (enabled ! nat index)) of
          None \<Rightarrow> 0
        | Some v \<Rightarrow> if v < 1 \<or> 100 < v then 0 else v)"

definition sched_firstNonEmpty :: "string list \<Rightarrow> string" where
  \<comment> \<open>\<^verbatim>\<open>firstNonEmpty\<close>\<close>
  "sched_firstNonEmpty vs = (case find (\<lambda>v. trim_space v \<noteq> '''') vs of Some v \<Rightarrow> v | None \<Rightarrow> '''')"

definition active_url :: "KioskConfig \<Rightarrow> int \<Rightarrow> string" where
  "active_url k active =
     (let urls = PageURLs k in
      if urls = [] then ''about:blank''
      else urls ! nat (if active < 0 \<or> int (length urls) \<le> active then 0 else active))"

subsection \<open>The base programme\<close>

definition rule_active :: "int \<Rightarrow> int \<Rightarrow> int \<Rightarrow> bool" where
  "rule_active start end1 current =
     (if start \<le> end1 then start \<le> current \<and> current < end1 else start \<le> current \<or> current < end1)"

definition time_rule_hit :: "sky \<Rightarrow> KioskConfig \<Rightarrow> time \<Rightarrow> TimeRule \<Rightarrow> (int \<times> string \<times> time) option" where
  \<comment> \<open>one round of the loop of \<^verbatim>\<open>timeRuleTarget\<close>\<close>
  "time_rule_hit env k now rule =
     (if tr_Disabled rule \<or> \<not> dayMatches (tr_Days rule) (weekday_of (zone_of env) now) then None
      else case (ruleClock env k (tr_Start rule) now, ruleClock env k (tr_End rule) now) of
        (Some start, Some end1) \<Rightarrow>
          (let current = minute_of_day (zone_of env) now in
           if \<not> rule_active start end1 current then None
           else
             let at_end = mk_time (zone_of env) (daynum (zone_of env) now) (end1 div 60) (end1 mod 60);
                 next1 = (if end1 < start \<and> start \<le> current then at_end + 24 * Hour else at_end);
                 name = (if tr_Name rule = '''' then tr_Start rule @ ''-'' @ tr_End rule else tr_Name rule)
             in Some (clampPage (tr_Page rule) (int (PageCount k)), name, next1))
      | _ \<Rightarrow> None)"

fun first_some :: "('a \<Rightarrow> 'b option) \<Rightarrow> 'a list \<Rightarrow> 'b option" where
  "first_some f [] = None"
| "first_some f (x # xs) = (case f x of Some y \<Rightarrow> Some y | None \<Rightarrow> first_some f xs)"

definition timeRuleTarget :: "sky \<Rightarrow> KioskConfig \<Rightarrow> time \<Rightarrow> (int \<times> string \<times> time) option" where
  "timeRuleTarget env k now = first_some (time_rule_hit env k now) (k_TimeRules k)"

definition rotation_duration :: "RotationItem \<Rightarrow> duration" where
  "rotation_duration item =
     (let d = i64 (rot_DurationSeconds item * Second) in if d \<le> 0 then Hour else d)"

definition rotation_advance :: "time \<Rightarrow> nat \<Rightarrow> Sched \<Rightarrow> Sched" where
  \<comment> \<open>the first \<^verbatim>\<open>if\<close> of \<^verbatim>\<open>rotationTarget\<close>\<close>
  "rotation_advance now count b =
     (if sc_rotationUntil b = 0 then b\<lparr>sc_rotationIndex := 0\<rparr>
      else if sc_rotationUntil b \<le> now then
        (let i = (sc_rotationIndex b + 1) mod count
         in b\<lparr>sc_rotationIndex := i,
              sc_rotationCycles := (if i = 0 then sc_rotationCycles b + 1 else sc_rotationCycles b)\<rparr>)
      else b)"

definition rotationTarget ::
  "time \<Rightarrow> KioskConfig \<Rightarrow> SchedulerStatus \<Rightarrow> Sched \<Rightarrow> ((int \<times> SchedulerStatus) \<times> Sched) option" where
  "rotationTarget now k status b =
     (let items = k_Rotation k in
      if items = [] then Some ((- 1, status\<lparr>ss_Reason := ''no rotation items''\<rparr>), b)
      else
        let b1 = rotation_advance now (length items) b; i = sc_rotationIndex b1 in
        if length items \<le> i then None
        else
          let b2 = (if sc_rotationUntil b1 = 0 \<or> sc_rotationUntil b1 \<le> now
                    then b1\<lparr>sc_rotationUntil := now + rotation_duration (items ! i)\<rparr> else b1);
              page = clampPage (rot_Page (items ! i)) (int (PageCount k))
          in Some ((page, status\<lparr>ss_Reason := ''rotation'', ss_RotationIndex := i,
               ss_NextSwitch := Some (sc_rotationUntil b2)\<rparr>), b2))"

definition schedulePageWantsPowerOff :: "KioskConfig \<Rightarrow> bool" where
  "schedulePageWantsPowerOff k \<longleftrightarrow>
     list_ex (\<lambda>p. \<not> pg_Disabled p \<and> pg_URL p \<noteq> '''' \<and>
       (pg_DisplayMode p = ''schedule'' \<or> dsp_PowerOffAfter (pg_DisplayOptions p))) (k_Pages k)"

definition baseTarget ::
  "sky \<Rightarrow> time \<Rightarrow> KioskConfig \<Rightarrow> Sched \<Rightarrow> ((int \<times> SchedulerStatus) \<times> Sched) option" where
  "baseTarget env now k b =
     (let status = no_status\<lparr>ss_Enabled := sd_Enabled (k_Scheduler k), ss_Mode := sd_Mode (k_Scheduler k)\<rparr> in
      if \<not> sd_Enabled (k_Scheduler k) \<or> PageCount k = 0 then Some ((- 1, status\<lparr>ss_Reason := ''disabled''\<rparr>), b)
      else
        let mode = (if sd_Mode (k_Scheduler k) = '''' then ''rotation'' else sd_Mode (k_Scheduler k));
            status = status\<lparr>ss_Mode := mode\<rparr>;
            timed = mode = ''time'' \<or> mode = ''hybrid''
        in case (if timed then timeRuleTarget env k now else None) of
          Some (page, rule, next1) \<Rightarrow>
            Some ((page, status\<lparr>ss_Reason := ''time'', ss_ActiveRule := rule, ss_NextSwitch := Some next1\<rparr>), b)
        | None \<Rightarrow>
            if timed \<and> (mode = ''time'' \<or> schedulePageWantsPowerOff k \<or> k_Rotation k = [])
            then Some ((- 1, status\<lparr>ss_Reason := ''no active time rule''\<rparr>), b)
            else if mode = ''rotation'' \<or> mode = ''hybrid'' then rotationTarget now k status b
            else Some ((- 1, status\<lparr>ss_Reason := ''unsupported mode''\<rparr>), b))"

subsection \<open>Presence, display power and inserts\<close>

definition switch_by :: "time \<Rightarrow> SchedulerStatus \<Rightarrow> SchedulerStatus" where
  \<comment> \<open>\<^verbatim>\<open>if status.NextSwitch == nil || t.Before(*status.NextSwitch) { status.NextSwitch = &t }\<close>\<close>
  "switch_by t status =
     (case ss_NextSwitch status of
        None \<Rightarrow> status\<lparr>ss_NextSwitch := Some t\<rparr>
      | Some n \<Rightarrow> if t < n then status\<lparr>ss_NextSwitch := Some t\<rparr> else status)"

definition applyPresence :: "time \<Rightarrow> KioskConfig \<Rightarrow> Store \<Rightarrow> SchedulerStatus \<Rightarrow> SchedulerStatus" where
  "applyPresence now k store status =
     (if \<not> ps_Enabled (k_Presence k) then status
      else
        let last1 = fst (LastPresence store); until = last1 + PresenceTimeout (k_Presence k) in
        if last1 = 0 \<or> until \<le> now then status\<lparr>ss_Presence := ''absent''\<rparr>
        else
          switch_by until (status\<lparr>ss_Presence := ''present'', ss_PresenceUntil := Some until\<rparr>))"

definition scheduleWantsDisplayOff :: "KioskConfig \<Rightarrow> int \<Rightarrow> SchedulerStatus \<Rightarrow> bool" where
  "scheduleWantsDisplayOff k target status =
     (if ss_Reason status = ''manual override'' \<or> ss_Mode status = ''override'' then False
      else if ss_Presence status = ''present'' then False
      else if ss_Presence status = ''absent'' \<and> ps_Mode (k_Presence k) = ''require'' then True
      else if \<not> sd_Enabled (k_Scheduler k) \<or> k_TimeRules k = [] then False
      else if (ss_Reason status = ''time'' \<or> ss_Reason status = ''insert'') \<and> 0 \<le> target then False
      else let mode = (if sd_Mode (k_Scheduler k) = '''' then ''rotation'' else sd_Mode (k_Scheduler k)) in
        if mode = ''time'' then True
        else if mode = ''hybrid'' then schedulePageWantsPowerOff k \<or> k_Rotation k = []
        else False)"

definition insert_switch :: "sky \<Rightarrow> time \<Rightarrow> KioskConfig \<Rightarrow> SchedulerStatus \<Rightarrow> SchedulerStatus" where
  "insert_switch env now k status =
     (case NextInsertChange env k now of None \<Rightarrow> status | Some next1 \<Rightarrow> switch_by next1 status)"

definition insert_due :: "sky \<Rightarrow> time \<Rightarrow> KioskConfig \<Rightarrow> int \<Rightarrow> SchedulerStatus \<Rightarrow> (InsertSlot \<times> int) option" where
  \<comment> \<open>the insert to show and its page, when the three conditions of \<^verbatim>\<open>applyInserts\<close> hold\<close>
  "insert_due env now k target status =
     (if scheduleWantsDisplayOff k target status then None
      else case ActiveInsert env k now of
          None \<Rightarrow> None
        | Some slot \<Rightarrow>
            (let page = EnabledPageIndex k (ins_PageID (sl_Insert slot)) in
             if 0 \<le> page then Some (slot, page) else None))"

definition applyInserts ::
  "sky \<Rightarrow> time \<Rightarrow> KioskConfig \<Rightarrow> int \<Rightarrow> SchedulerStatus \<Rightarrow> Sched \<Rightarrow> (int \<times> SchedulerStatus) \<times> Sched" where
  "applyInserts env now k target status b =
     (if k_Inserts k = [] then ((target, status), b\<lparr>sc_insertShowing := False\<rparr>)
      else
        let status = insert_switch env now k status in
        case insert_due env now k target status of
          Some (slot, page) \<Rightarrow>
            ((page, status\<lparr>ss_Reason := ''insert'',
                ss_ActiveInsert := sched_firstNonEmpty [ins_Name (sl_Insert slot), ins_ID (sl_Insert slot)]\<rparr>),
             if sc_insertShowing b then b else b\<lparr>sc_insertShowing := True, sc_insertReturn := sc_active b\<rparr>)
        | None \<Rightarrow>
            if sc_insertShowing b then
              ((if target < 0 \<and> \<not> scheduleWantsDisplayOff k target status
                then clampPage (sc_insertReturn b) (int (PageCount k)) else target, status),
               b\<lparr>sc_insertShowing := False\<rparr>)
            else ((target, status), b))"

definition expire_override :: "time \<Rightarrow> Sched \<Rightarrow> Sched" where
  "expire_override now b =
     (let ov = sc_override b in
      case ov_Until ov of
        Some until \<Rightarrow> if ov_Active ov \<and> until \<le> now then b\<lparr>sc_override := no_override\<rparr> else b
      | None \<Rightarrow> b)"

definition schedulerTarget ::
  "sky \<Rightarrow> time \<Rightarrow> KioskConfig \<Rightarrow> Store \<Rightarrow> Sched \<Rightarrow> ((int \<times> SchedulerStatus) \<times> Sched) option" where
  "schedulerTarget env now cfg store b =
     (let b = expire_override now b; ov = sc_override b in
      if ov_Active ov then
        Some ((ov_Page ov, applyPresence now cfg store
          (no_status\<lparr>ss_Enabled := True, ss_Mode := ''override'', ss_Reason := ''manual override'',
             ss_NextSwitch := ov_Until ov\<rparr>)), b)
      else
        let k = InsertsWhere cfg (Some (Value store)) in
        case baseTarget env now k b of
          None \<Rightarrow> None
        | Some ((target, status), b) \<Rightarrow>
            Some (applyInserts env now k target (applyPresence now k store status) b))"

subsection \<open>When to look again\<close>

definition nextSchedulerWake :: "time \<Rightarrow> duration \<Rightarrow> time option \<Rightarrow> duration" where
  "nextSchedulerWake now tick next1 =
     (case next1 of
        None \<Rightarrow> tick
      | Some n \<Rightarrow>
          (let until = n - now in
           if until < 0 then 0 else if until < tick then until + 50000000 else tick))"

definition schedulerInterval :: "KioskConfig \<Rightarrow> duration" where
  "schedulerInterval k =
     (let tick = sd_TickInterval (k_Scheduler k) in if tick \<le> 0 then 15 * Second else tick)"

subsection \<open>Scheduled reloads\<close>

definition memoryBaselineDelay :: duration where
  "memoryBaselineDelay = 10 * Minute"

definition memoryGrowthDueLocked :: "zone \<Rightarrow> time \<Rightarrow> int \<Rightarrow> Sched \<Rightarrow> bool" where
  "memoryGrowthDueLocked z now percent b =
     (if percent \<le> 0 \<or> sc_memoryBaseline b = 0 \<or> sc_rssMB b = 0 then False
      else if hour_of z now < 3 \<or> 5 \<le> hour_of z now then False
      else if sc_growthReloadDay b = Some (daynum z now) then False
      else sc_memoryBaseline b * word_of_int (100 + percent) \<le> sc_rssMB b * 100)"

definition maintenanceReloadDue :: "zone \<Rightarrow> time \<Rightarrow> KioskMaintenance \<Rightarrow> Sched \<Rightarrow> bool \<times> Sched" where
  "maintenanceReloadDue z now m b =
     (if \<not> sc_running b \<or> sc_idleBlanked b \<or> sc_started b = 0 then (False, b)
      else
        let last1 = (if sc_lastMaintenance b = 0 \<or> sc_lastMaintenance b < sc_started b
                     then sc_started b else sc_lastMaintenance b);
            due1 = (0 < mt_ReloadEveryMinutes m \<and> i64 (mt_ReloadEveryMinutes m * Minute) \<le> now - last1);
            due2 = (0 < mt_ReloadAfterCycles m \<and> mt_ReloadAfterCycles m \<le> sc_rotationCycles b);
            due3 = (case parseClock (mt_ReloadAt m) of
                None \<Rightarrow> False
              | Some clock \<Rightarrow>
                  let target = mk_time z (daynum z now) (clock div 60) (clock mod 60)
                  in target \<le> now \<and> last1 < target);
            plain = due1 \<or> due2 \<or> due3;
            growth = \<not> plain \<and> memoryGrowthDueLocked z now (GrowthPercent m) b;
            b1 = (if growth then b\<lparr>sc_growthReloadDay := Some (daynum z now)\<rparr> else b)
        in if plain \<or> growth
           then (True, b1\<lparr>sc_lastMaintenance := now, sc_rotationCycles := 0, sc_memoryBaseline := 0,
                   sc_baselineAfter := now + memoryBaselineDelay\<rparr>)
           else (False, b1))"

definition noteMemoryLocked :: "time \<Rightarrow> 64 word \<Rightarrow> Sched \<Rightarrow> Sched" where
  "noteMemoryLocked now rss b =
     (if sc_memoryBaseline b \<noteq> 0 \<or> rss = 0 \<or> sc_started b = 0 then b
      else
        let after = (if sc_baselineAfter b < sc_started b then sc_started b + memoryBaselineDelay
                     else sc_baselineAfter b)
        in if now < after then b else b\<lparr>sc_memoryBaseline := rss\<rparr>)"

subsection \<open>One round of the scheduler\<close>

text \<open>
  A round looks at the state and issues commands to the browser and the display; what becomes of
  them is given by \<open>results\<close>. \<^verbatim>\<open>showPage\<close> makes the page active before it talks to the browser, so
  the page is active even when an error is returned, unless the operation is refused: it does not
  get its turn before the deadline, or the authentication guard has tripped. It starts the browser
  when none is running, and restarts it when the page cannot be shown in the running one.
\<close>

datatype page_result =
    Refused
  | Shown
  | Started time
  | Failed bool \<comment> \<open>with an error; tells whether the browser is running\<close>

datatype command =
    ShowPage int bool
  | ReloadPage
  | SetDisplay string
  | BlankPage
  | RestorePage int

record results =
  has_display :: bool
  display_ok :: bool
  blank_ok :: bool
  switch_result :: page_result
  restore_result :: page_result

definition start_browser :: "time \<Rightarrow> Sched \<Rightarrow> Sched" where
  \<comment> \<open>the fields a started browser process resets\<close>
  "start_browser t b =
     b\<lparr>sc_running := True, sc_started := t, sc_memoryBaseline := 0,
       sc_baselineAfter := t + memoryBaselineDelay, sc_rssMB := 0\<rparr>"

definition showPage :: "KioskConfig \<Rightarrow> int \<Rightarrow> page_result \<Rightarrow> Sched \<Rightarrow> bool \<times> Sched" where
  \<comment> \<open>True when no error is returned\<close>
  "showPage k index result b =
     (if result = Refused \<or> index < 0 \<or> int (PageCount k) \<le> index then (False, b)
      else
        let b = b\<lparr>sc_active := index\<rparr> in
        case result of
          Started t \<Rightarrow> (True, start_browser t b)
        | Failed up \<Rightarrow> (False, b\<lparr>sc_running := up\<rparr>)
        | _ \<Rightarrow> (True, b))"

definition applyScheduleDisplayPower ::
  "results \<Rightarrow> KioskConfig \<Rightarrow> int \<Rightarrow> SchedulerStatus \<Rightarrow> Sched \<Rightarrow> command list \<times> Sched" where
  "applyScheduleDisplayPower r k target status b =
     (let want = (if scheduleWantsDisplayOff k target status then ''OFF'' else ''ON'') in
      if \<not> has_display r \<or> sc_displayPower b = want then ([], b)
      else ([SetDisplay want], if display_ok r then b\<lparr>sc_displayPower := want\<rparr> else b))"

definition blank_or_restore ::
  "results \<Rightarrow> KioskConfig \<Rightarrow> int \<Rightarrow> bool \<Rightarrow> Sched \<Rightarrow> command list \<times> Sched" where
  \<comment> \<open>the end of a round: blank the page when the display goes off, restore it when it comes on\<close>
  "blank_or_restore r k target wantOff b =
     (if wantOff \<and> \<not> sc_idleBlanked b then
        (if sc_running b
         then ([BlankPage], if blank_ok r then b\<lparr>sc_idleBlanked := True\<rparr> else b) else ([], b))
      else if \<not> wantOff \<and> sc_idleBlanked b then
        (let page = (if target < 0 then sc_active b else target)
         in ([RestorePage page], snd (showPage k page (restore_result r) (b\<lparr>sc_idleBlanked := False\<rparr>))))
      else ([], b))"

definition scheduler_round ::
  "sky \<Rightarrow> results \<Rightarrow> bool \<Rightarrow> time \<Rightarrow> time \<Rightarrow> KioskConfig \<Rightarrow> Store \<Rightarrow> Sched \<Rightarrow>
     (command list \<times> duration \<times> Sched) option" where
  \<comment> \<open>the timer branch of \<^verbatim>\<open>RunScheduler\<close> from \<open>now\<close> to \<open>later\<close>\<close>
  "scheduler_round env r paused now later k store b =
     (if paused then Some ([], schedulerInterval k, b)
      else case schedulerTarget env now k store b of
        None \<Rightarrow> None
      | Some ((target, status), b) \<Rightarrow>
          (let switch = 0 \<le> target \<and> target \<noteq> sc_active b;
               b = b\<lparr>sc_scheduler := status\<rparr>;
               b = (if switch then snd (showPage k target (switch_result r) b) else b);
               (due, b) = maintenanceReloadDue (zone_of env) now (k_Maintenance k) b;
               (power, b) = applyScheduleDisplayPower r k target status b;
               (blank, b) = blank_or_restore r k target (scheduleWantsDisplayOff k target status) b
           in Some ((if switch then [ShowPage target (ss_Reason status = ''insert'')] else []) @
                (if due then [ReloadPage] else []) @ power @ blank,
              nextSchedulerWake later (schedulerInterval k) (ss_NextSwitch status), b)))"

definition config_changed :: "Sched \<Rightarrow> Sched" where
  \<comment> \<open>the branch of \<^verbatim>\<open>RunScheduler\<close> for a changed configuration\<close>
  "config_changed b = b\<lparr>sc_rotationIndex := 0, sc_rotationUntil := 0\<rparr>"

subsection \<open>Overrides\<close>

definition SetOverride ::
  "time \<Rightarrow> KioskConfig \<Rightarrow> int \<Rightarrow> duration \<Rightarrow> string \<Rightarrow> page_result \<Rightarrow> Sched \<Rightarrow> bool \<times> Sched" where
  \<comment> \<open>with what becomes of \<^verbatim>\<open>SetActive\<close>; True when no error is returned\<close>
  "SetOverride now k page len source result b =
     (let d = (if len \<le> 0 then Hour else len);
          d = (if 24 * Hour < d then 24 * Hour else d);
          (ok, b1) = showPage k page result b
      in if \<not> ok then (False, b1)
         else (True, b1\<lparr>sc_override := \<lparr>ov_Active = True, ov_Page = page,
                  ov_Source = sched_firstNonEmpty [trim_space source, ''admin''],
                  ov_Started = Some now, ov_Until = Some (now + d)\<rparr>,
                sc_scheduler := no_status\<lparr>ss_Enabled := True, ss_Mode := ''override'',
                  ss_Reason := ''manual override'', ss_NextSwitch := Some (now + d)\<rparr>\<rparr>))"

definition ClearOverride ::
  "sky \<Rightarrow> time \<Rightarrow> KioskConfig \<Rightarrow> Store \<Rightarrow> page_result \<Rightarrow> Sched \<Rightarrow> (command list \<times> Sched) option" where
  "ClearOverride env now k store result b =
     (case schedulerTarget env now k store (b\<lparr>sc_override := no_override, sc_rotationUntil := 0\<rparr>) of
        None \<Rightarrow> None
      | Some ((target, status), b) \<Rightarrow>
          (let b = b\<lparr>sc_scheduler := status\<rparr> in
           Some (if 0 \<le> target then ([ShowPage target False], snd (showPage k target result b)) else ([], b))))"

definition NoteDisplayPower :: "string \<Rightarrow> Sched \<Rightarrow> Sched" where
  "NoteDisplayPower pw b =
     (let pw = to_upper (trim_space pw) in
      if pw \<noteq> ''ON'' \<and> pw \<noteq> ''OFF'' then b else b\<lparr>sc_displayPower := pw\<rparr>)"

definition OverrideSource :: "time \<Rightarrow> Sched \<Rightarrow> string option" where
  "OverrideSource now b =
     (let ov = sc_override b in
      if \<not> ov_Active ov \<or> (case ov_Until ov of None \<Rightarrow> False | Some until \<Rightarrow> until \<le> now) then None
      else Some (ov_Source ov))"

end
