(* ===== verification/Scheduler_Props.thy ===== *)
theory Scheduler_Props
  imports Scheduler
begin

section \<open>Properties of the scheduler\<close>

text \<open>
  What \<^verbatim>\<open>schedulerTarget\<close> returns (a page that exists, a next switch in the future), how the
  rotation proceeds from switch to switch and when its index is out of range, when the display goes
  off, and that a scheduled reload is not repeated.
\<close>

lemmas sched_split = if_splits option.splits prod.splits

lemma clampPage_range: "0 < count \<Longrightarrow> 0 \<le> clampPage p count \<and> clampPage p count < count"
  by (simp add: clampPage_def)

lemma dayMatches_weekdayMatches: "dayMatches days w \<longleftrightarrow> weekdayMatches days w"
proof -
  have "to_lower (take 3 s) = take 3 (to_lower s)" for s by (simp add: to_lower_def take_map)
  then show ?thesis by (simp add: dayMatches_def weekdayMatches_def Let_def)
qed

lemma parseClock_range: "parseClock v = Some m \<Longrightarrow> 0 \<le> m \<and> m < 1440"
  by (auto simp: parseClock_def split: list.splits option.splits if_splits)

lemma ruleClock_range: "ruleClock env k v now = Some m \<Longrightarrow> 0 \<le> m \<and> m < 1440"
  by (auto simp: ruleClock_def dest: parseClock_range ResolveClock_range split: option.splits)

lemma first_some_Some: "first_some f xs = Some y \<Longrightarrow> \<exists>x\<in>set xs. f x = Some y"
  by (induction xs) (auto split: option.splits)

lemma first_some_None: "first_some f xs = None \<longleftrightarrow> (\<forall>x\<in>set xs. f x = None)"
  by (induction xs) (auto split: option.splits)

subsection \<open>The rotation\<close>

lemma rotation_duration_pos: "0 < rotation_duration item"
  by (simp add: rotation_duration_def Let_def duration_units)

lemma rotationTarget_cases:
  assumes "k_Rotation k \<noteq> []"
  shows "rotationTarget now k status b =
    (let n = length (k_Rotation k); b1 = rotation_advance now n b; i = sc_rotationIndex b1 in
     if n \<le> i then None
     else let until = (if sc_rotationUntil b = 0 \<or> sc_rotationUntil b \<le> now
                       then now + rotation_duration (k_Rotation k ! i) else sc_rotationUntil b)
       in Some ((clampPage (rot_Page (k_Rotation k ! i)) (int (PageCount k)),
           status\<lparr>ss_Reason := ''rotation'', ss_RotationIndex := i, ss_NextSwitch := Some until\<rparr>),
           b1\<lparr>sc_rotationUntil := until\<rparr>))"
proof -
  have u: "sc_rotationUntil (rotation_advance now n b) = sc_rotationUntil b" for n
    by (simp add: rotation_advance_def Let_def)
  have id: "b\<lparr>sc_rotationUntil := sc_rotationUntil b\<rparr> = b" for b :: Sched by simp
  show ?thesis
    using assms id [of "rotation_advance now (length (k_Rotation k)) b"]
    by (auto simp: rotationTarget_def Let_def u)
qed

lemma rotation_advance_index:
  assumes "0 < n" "sc_rotationUntil b = 0 \<or> sc_rotationUntil b \<le> now"
  shows "sc_rotationIndex (rotation_advance now n b) < n"
  using assms by (auto simp: rotation_advance_def Let_def)

definition rotation_start :: "time \<Rightarrow> KioskConfig \<Rightarrow> nat \<Rightarrow> time" where
  \<comment> \<open>when the \<open>n\<close>-th page of a rotation that began at \<open>t\<close> is due\<close>
  "rotation_start t k n =
     t + sum_list (map (\<lambda>i. rotation_duration (k_Rotation k ! (i mod length (k_Rotation k)))) [0..<n])"

fun rotation_after :: "time \<Rightarrow> KioskConfig \<Rightarrow> SchedulerStatus \<Rightarrow> Sched \<Rightarrow> nat \<Rightarrow> Sched option" where
  \<comment> \<open>the state after \<open>rotationTarget\<close> has been asked at the first \<open>n + 1\<close> switching times\<close>
  "rotation_after t k status b 0 = map_option snd (rotationTarget t k status b)"
| "rotation_after t k status b (Suc n) =
     Option.bind (rotation_after t k status b n)
       (\<lambda>b'. map_option snd (rotationTarget (rotation_start t k (Suc n)) k status b'))"

lemma rotation_start_Suc:
  "rotation_start t k (Suc n) =
     rotation_start t k n + rotation_duration (k_Rotation k ! (n mod length (k_Rotation k)))"
  by (simp add: rotation_start_def)

lemma rotation_start_mono: "rotation_start t k n < rotation_start t k (Suc n)"
  using rotation_duration_pos by (simp add: rotation_start_Suc)

lemma rotation_start_pos: "0 < t \<Longrightarrow> 0 < rotation_start t k n"
proof (induction n)
  case (Suc n)
  then show ?case using rotation_start_mono [of t k n] by linarith
qed (simp add: rotation_start_def)

lemma Suc_mod_div:
  "0 < m \<Longrightarrow> (Suc (n mod m) mod m = Suc n mod m) \<and> (Suc n mod m = 0 \<longrightarrow> Suc n div m = Suc (n div m)) \<and>
   (Suc n mod m \<noteq> 0 \<longrightarrow> Suc n div m = n div m)"
  by (auto simp: mod_Suc div_Suc mod_Suc_eq)


definition demo_rotation :: KioskConfig where
  "demo_rotation = zero_kiosk\<lparr>
     k_Pages := [zero_page\<lparr>pg_PageID := ''p'', pg_URL := ''http://p''\<rparr>],
     k_Scheduler := \<lparr>sd_Enabled = True, sd_Mode = '''', sd_TickInterval = 0, sd_Latitude = 0, sd_Longitude = 0\<rparr>,
     k_Rotation := [\<lparr>rot_Page = 0, rot_DurationSeconds = 10\<rparr>, \<lparr>rot_Page = 0, rot_DurationSeconds = 0\<rparr>]\<rparr>"

definition demo_sched :: Sched where
  "demo_sched =
     \<lparr>sc_active = 0, sc_override = no_override, sc_rotationIndex = 0, sc_rotationUntil = 0,
      sc_rotationCycles = 0, sc_insertShowing = False, sc_insertReturn = 0, sc_scheduler = no_status,
      sc_running = True, sc_started = 1, sc_idleBlanked = False, sc_lastMaintenance = 0,
      sc_memoryBaseline = 0, sc_baselineAfter = 0, sc_growthReloadDay = None, sc_rssMB = 0,
      sc_displayPower = ''''\<rparr>"


text \<open>The rotation panics with an index out of range exactly when the rotation has become shorter
  than the current index while the current item still runs; when the index is in range, or when the
  current item is over, it does not panic and leaves the index in range.\<close>

theorem rotationTarget_panics_iff:
  "rotationTarget now k status b = None \<longleftrightarrow>
     k_Rotation k \<noteq> [] \<and> sc_rotationUntil b \<noteq> 0 \<and> now < sc_rotationUntil b \<and>
     length (k_Rotation k) \<le> sc_rotationIndex b"
proof (cases "k_Rotation k = []")
  case True
  then show ?thesis by (simp add: rotationTarget_def)
next
  case False
  then have n: "0 < length (k_Rotation k)" by simp
  show ?thesis
  proof (cases "sc_rotationUntil b = 0 \<or> sc_rotationUntil b \<le> now")
    case True
    from rotation_advance_index [OF n True] show ?thesis
      using False True by (auto simp: rotationTarget_cases Let_def not_le)
  next
    case f: False
    then have "rotation_advance now (length (k_Rotation k)) b = b" by (simp add: rotation_advance_def)
    with f False show ?thesis by (auto simp: rotationTarget_cases Let_def)
  qed
qed

lemma rotationTarget_index:
  "rotationTarget now k status b = Some ((p, st), b') \<Longrightarrow> k_Rotation k \<noteq> [] \<Longrightarrow>
   sc_rotationIndex b' < length (k_Rotation k)"
  by (auto simp: rotationTarget_cases Let_def split: if_splits)

lemma rotationTarget_panics_witness:
  "rotationTarget 3 demo_rotation no_status (demo_sched\<lparr>sc_rotationUntil := 9, sc_rotationIndex := 4\<rparr>) = None"
  using rotationTarget_panics_iff [of 3 demo_rotation no_status
      "demo_sched\<lparr>sc_rotationUntil := 9, sc_rotationIndex := 4\<rparr>"]
  by (simp add: demo_rotation_def)

subsection \<open>Targets\<close>

definition page_ok :: "KioskConfig \<Rightarrow> int \<Rightarrow> bool" where
  \<comment> \<open>no page, or one \<^verbatim>\<open>showPage\<close> accepts\<close>
  "page_ok k p \<longleftrightarrow> - 1 \<le> p \<and> p < int (PageCount k)"

lemma page_ok_clamp: "page_ok k (clampPage p (int (PageCount k)))"
  using clampPage_range [of "int (PageCount k)" p] by (auto simp: page_ok_def clampPage_def)

lemma page_ok_none: "page_ok k (- 1)"
  by (simp add: page_ok_def)

lemma time_rule_hit_Some:
  assumes "time_rule_hit env k now rule = Some (p, name, next1)"
  obtains start end1 where "ruleClock env k (tr_Start rule) now = Some start"
    "ruleClock env k (tr_End rule) now = Some end1"
    "rule_active start end1 (minute_of_day (zone_of env) now)"
    "p = clampPage (tr_Page rule) (int (PageCount k))"
    "next1 = (let at_end = mk_time (zone_of env) (daynum (zone_of env) now) (end1 div 60) (end1 mod 60) in
        if end1 < start \<and> start \<le> minute_of_day (zone_of env) now then at_end + 24 * Hour else at_end)"
proof (cases "ruleClock env k (tr_Start rule) now")
  case None
  with assms show thesis by (simp add: time_rule_hit_def split: if_splits)
next
  case s: (Some start)
  show thesis
  proof (cases "ruleClock env k (tr_End rule) now")
    case None
    with s assms show thesis by (simp add: time_rule_hit_def split: if_splits)
  next
    case (Some end1)
    show thesis
      by (rule that [OF s Some]) (use s Some assms in \<open>auto simp: time_rule_hit_def Let_def split: if_splits\<close>)
  qed
qed

lemma timeRuleTarget_page: "timeRuleTarget env k now = Some (p, name, next1) \<Longrightarrow> page_ok k p"
  unfolding timeRuleTarget_def
  by (drule first_some_Some) (auto elim!: time_rule_hit_Some simp: page_ok_clamp)

lemma rotationTarget_page:
  "rotationTarget now k status b = Some ((p, st), b') \<Longrightarrow> page_ok k p"
  by (cases "k_Rotation k = []")
    (auto simp: rotationTarget_cases Let_def page_ok_clamp page_ok_none rotationTarget_def split: if_splits)

lemma baseTarget_page: "baseTarget env now k b = Some ((p, st), b') \<Longrightarrow> page_ok k p"
  by (auto simp: baseTarget_def Let_def page_ok_none split: sched_split
      dest: timeRuleTarget_page rotationTarget_page)

lemma EnabledPageIndex_page_ok: "page_ok k (EnabledPageIndex k i)"
proof (cases "enabledPages k = []")
  case True
  then have "EnabledPageIndex k i = - 1" by (simp add: EnabledPageIndex_def Let_def)
  then show ?thesis by (simp add: page_ok_none)
next
  case False
  then have "PageCount k = length (enabledPages k)" by (simp add: PageCount_def PageURLs_shown)
  then show ?thesis using EnabledPageIndex_range [of k i] by (simp add: page_ok_def)
qed

lemma applyInserts_page:
  "applyInserts env now k target status b = ((p, st), b') \<Longrightarrow> page_ok k target \<Longrightarrow> page_ok k p"
  by (auto simp: applyInserts_def insert_due_def Let_def page_ok_clamp EnabledPageIndex_page_ok
      split: sched_split)

lemma PageCount_InsertsWhere [simp]: "PageCount (InsertsWhere k f) = PageCount k"
  by (simp add: InsertsWhere_def PageCount_def PageURLs_def split: option.split)

lemma page_ok_InsertsWhere [simp]: "page_ok (InsertsWhere k f) p \<longleftrightarrow> page_ok k p"
  by (simp add: page_ok_def)

subsection \<open>The next switch lies in the future\<close>

definition next_after :: "time \<Rightarrow> SchedulerStatus \<Rightarrow> bool" where
  "next_after now status \<longleftrightarrow> (\<forall>n. ss_NextSwitch status = Some n \<longrightarrow> now < n)"

lemma switch_by_next: "next_after now status \<Longrightarrow> now < t \<Longrightarrow> next_after now (switch_by t status)"
  by (auto simp: switch_by_def next_after_def split: option.split)

lemma switch_by_simps [simp]:
  "ss_Reason (switch_by t status) = ss_Reason status" "ss_Mode (switch_by t status) = ss_Mode status"
  "ss_Presence (switch_by t status) = ss_Presence status"
  by (simp_all add: switch_by_def split: option.split)

lemma applyPresence_next: "next_after now status \<Longrightarrow> next_after now (applyPresence now k store status)"
  unfolding applyPresence_def Let_def by (auto intro!: switch_by_next) (auto simp: next_after_def)

lemma applyPresence_simps [simp]:
  "ss_Reason (applyPresence now k store status) = ss_Reason status"
  "ss_Mode (applyPresence now k store status) = ss_Mode status"
  by (simp_all add: applyPresence_def Let_def)

lemma applyInserts_next:
  assumes "applyInserts env now k target status b = ((p, st), b')" "next_after now status" "0 \<le> now"
  shows "next_after now st"
proof -
  have n: "\<And>n. NextInsertChange env k now = Some n \<Longrightarrow> now < n"
    using NextInsertChange_cases [OF assms(3), of env k] by simp
  let ?st = "insert_switch env now k status"
  have "next_after now ?st"
    using assms(2) n by (auto simp: insert_switch_def intro: switch_by_next split: option.split)
  moreover have "st = status \<or> ss_NextSwitch st = ss_NextSwitch ?st"
    using assms(1) by (auto simp: applyInserts_def Let_def split: if_splits option.splits prod.splits)
  ultimately show ?thesis using assms(2) by (auto simp: next_after_def)
qed

lemma rotationTarget_next:
  assumes "rotationTarget now k status b = Some ((p, st), b')" "ss_NextSwitch status = None"
  shows "next_after now st"
  using assms rotation_duration_pos
  by (cases "k_Rotation k = []")
    (auto simp: rotationTarget_cases Let_def next_after_def rotationTarget_def split: if_splits)

lemma second_after: "now < (now div Second + 1) * Second"
  unfolding Second_def by presburger

lemma clock_after_fixed:
  assumes "minute_of_day (fixed_zone off) now < m" "m < 1440"
  shows "now < mk_time (fixed_zone off) (daynum (fixed_zone off) now) (m div 60) (m mod 60)"
proof -
  define L where "L = now div Second + off"
  have m: "m div 60 * 3600 + m mod 60 * 60 = 60 * m" using div_mult_mod_eq [of m 60] by linarith
  have "L mod 86400 div 60 < m" using assms(1) by (simp add: minute_of_day_div L_def)
  then have "L mod 86400 < 60 * m"
    using div_mult_mod_eq [of "L mod 86400" 60] pos_mod_bound [of 60 "L mod 86400"] by linarith
  then have "L < L div 86400 * 86400 + 60 * m" using div_mult_mod_eq [of L 86400] by linarith
  then have "now div Second + 1 \<le> L div 86400 * 86400 + 60 * m - off" by (simp add: L_def)
  then have "(now div Second + 1) * Second \<le> (L div 86400 * 86400 + 60 * m - off) * Second"
    by (rule mult_right_mono) (simp add: Second_def)
  moreover note second_after [of now]
  ultimately have "now < (L div 86400 * 86400 + (m div 60 * 3600 + m mod 60 * 60) - off) * Second"
    unfolding m by linarith
  then show ?thesis by (simp add: mk_time_fixed daynum_def L_def add.assoc)
qed

lemma clock_day_start_fixed:
  assumes "0 \<le> m"
  shows "now < mk_time (fixed_zone off) (daynum (fixed_zone off) now) (m div 60) (m mod 60) + 24 * Hour"
proof -
  define L where "L = now div Second + off"
  have m: "m div 60 * 3600 + m mod 60 * 60 = 60 * m" using div_mult_mod_eq [of m 60] by linarith
  have "L < L div 86400 * 86400 + 86400"
    using div_mult_mod_eq [of L 86400] pos_mod_bound [of 86400 L] by linarith
  with assms have "now div Second + 1 \<le> L div 86400 * 86400 + 60 * m - off + 86400" by (simp add: L_def)
  then have "(now div Second + 1) * Second \<le> (L div 86400 * 86400 + 60 * m - off + 86400) * Second"
    by (rule mult_right_mono) (simp add: Second_def)
  moreover note second_after [of now]
  ultimately have "now < (L div 86400 * 86400 + 60 * m - off) * Second + 86400 * Second"
    by (simp add: distrib_right)
  moreover have "86400 * Second = 24 * Hour" by (simp add: duration_units)
  moreover have "mk_time (fixed_zone off) (daynum (fixed_zone off) now) (m div 60) (m mod 60) =
      (L div 86400 * 86400 + 60 * m - off) * Second"
    by (simp add: mk_time_fixed daynum_def L_def add.assoc m)
  ultimately show ?thesis by simp
qed

lemma time_rule_hit_next:
  assumes "zone_of env = fixed_zone off" "time_rule_hit env k now rule = Some (p, name, next1)"
  shows "now < next1"
proof -
  let ?z = "fixed_zone off" and ?c = "minute_of_day (fixed_zone off) now"
  from assms obtain start end1 where r: "ruleClock env k (tr_Start rule) now = Some start"
      "ruleClock env k (tr_End rule) now = Some end1" "rule_active start end1 ?c"
    and n: "next1 = (let at_end = mk_time ?z (daynum ?z now) (end1 div 60) (end1 mod 60) in
        if end1 < start \<and> start \<le> ?c then at_end + 24 * Hour else at_end)"
    by (auto elim!: time_rule_hit_Some)
  have e: "0 \<le> end1" "end1 < 1440" using ruleClock_range [OF r(2)] by auto
  show ?thesis
  proof (cases "end1 < start \<and> start \<le> ?c")
    case True
    with clock_day_start_fixed [OF e(1), of now off] n show ?thesis by simp
  next
    case False
    with r(3) have "?c < end1" by (auto simp: rule_active_def split: if_splits)
    from clock_after_fixed [OF this e(2)] n False show ?thesis by auto
  qed
qed

lemma baseTarget_next:
  assumes "zone_of env = fixed_zone off" "baseTarget env now k b = Some ((p, st), b')"
  shows "next_after now st"
proof -
  have "now < n" if "timeRuleTarget env k now = Some (p, name, n)" for p name n
    using that time_rule_hit_next [OF assms(1)] unfolding timeRuleTarget_def by (auto dest!: first_some_Some)
  with assms(2) show ?thesis
    by (auto simp: baseTarget_def Let_def next_after_def no_status_def split: sched_split
        dest!: rotationTarget_next [unfolded next_after_def])
qed

lemma expire_override_next:
  "ov_Active (sc_override (expire_override now b)) \<Longrightarrow> ov_Until (sc_override (expire_override now b)) = Some u \<Longrightarrow> now < u"
  by (auto simp: expire_override_def Let_def no_override_def split: option.splits if_splits)



subsection \<open>The display\<close>

lemma InsertsWhere_fields [simp]:
  "k_Presence (InsertsWhere k f) = k_Presence k" "k_Scheduler (InsertsWhere k f) = k_Scheduler k"
  "k_TimeRules (InsertsWhere k f) = k_TimeRules k" "k_Rotation (InsertsWhere k f) = k_Rotation k"
  "k_Pages (InsertsWhere k f) = k_Pages k"
  by (simp_all add: InsertsWhere_def split: option.split)

lemma scheduleWantsDisplayOff_InsertsWhere [simp]:
  "scheduleWantsDisplayOff (InsertsWhere k f) t st = scheduleWantsDisplayOff k t st"
  unfolding scheduleWantsDisplayOff_def schedulePageWantsPowerOff_def InsertsWhere_fields ..

lemma rotationTarget_reason:
  "rotationTarget now k status b = Some ((p, st), b') \<Longrightarrow>
   ss_Reason st \<noteq> ''insert'' \<and> ss_Reason st \<noteq> ''manual override''"
  by (cases "k_Rotation k = []") (auto simp: rotationTarget_cases Let_def rotationTarget_def split: if_splits)

lemma baseTarget_reason:
  assumes "baseTarget env now k b = Some ((p, st), b')"
  shows "ss_Reason st \<noteq> ''insert'' \<and> ss_Reason st \<noteq> ''manual override''"
proof -
  have "(\<exists>s. rotationTarget now k s b = Some ((p, st), b')) \<or>
      ss_Reason st \<in> {''disabled'', ''no active time rule'', ''unsupported mode'', ''time''}"
    using assms unfolding baseTarget_def Let_def
    by (simp split: if_splits option.splits prod.splits) (fastforce simp: no_status_def)+
  then show ?thesis using rotationTarget_reason by auto
qed

lemma insert_switch_simps [simp]:
  "ss_Reason (insert_switch env now k st) = ss_Reason st" "ss_Mode (insert_switch env now k st) = ss_Mode st"
  "ss_Presence (insert_switch env now k st) = ss_Presence st"
  by (simp_all add: insert_switch_def split: option.split)

lemma applyInserts_insert:
  assumes "applyInserts env now k target status b = ((p, st), b')"
    and "ss_Reason status \<noteq> ''insert'' \<and> ss_Reason status \<noteq> ''manual override''"
    and "ss_Reason st = ''insert''"
  shows "0 \<le> p \<and> \<not> scheduleWantsDisplayOff k p st"
proof -
  from assms obtain slot where due: "insert_due env now k target (insert_switch env now k status) = Some (slot, p)"
    and st: "ss_Mode st = ss_Mode status" "ss_Presence st = ss_Presence status"
    by (auto simp: applyInserts_def Let_def split: if_splits option.splits prod.splits)
  from due have on: "\<not> scheduleWantsDisplayOff k target (insert_switch env now k status)" and p: "0 \<le> p"
    by (auto simp: insert_due_def Let_def split: if_splits option.splits)
  show ?thesis using on p st assms(2,3)
    by (auto simp: scheduleWantsDisplayOff_def Let_def split: if_splits)
qed

lemma maintenance_keeps:
  "maintenanceReloadDue z now m b = (due, b') \<Longrightarrow>
   sc_displayPower b' = sc_displayPower b \<and> sc_idleBlanked b' = sc_idleBlanked b \<and>
   sc_running b' = sc_running b \<and> sc_scheduler b' = sc_scheduler b \<and> sc_active b' = sc_active b"
  by (auto simp: maintenanceReloadDue_def Let_def split: if_splits)

lemma showPage_keeps [simp]:
  "sc_displayPower (snd (showPage k p r b)) = sc_displayPower b"
  "sc_idleBlanked (snd (showPage k p r b)) = sc_idleBlanked b"
  "sc_scheduler (snd (showPage k p r b)) = sc_scheduler b"
  by (auto simp: showPage_def start_browser_def Let_def split: page_result.split)

lemma showPage_running:
  "sc_running b \<Longrightarrow> r \<noteq> Failed False \<Longrightarrow> sc_running (snd (showPage k p r b))"
  by (auto simp: showPage_def start_browser_def Let_def split: page_result.split)

lemma applyInserts_keeps:
  "applyInserts env now k t st b = (r, b') \<Longrightarrow> sc_running b' = sc_running b \<and> sc_idleBlanked b' = sc_idleBlanked b \<and>
     sc_displayPower b' = sc_displayPower b"
  by (auto simp: applyInserts_def Let_def split: if_splits option.splits prod.splits)

lemma rotationTarget_keeps:
  "rotationTarget now k status b = Some (r, b') \<Longrightarrow> sc_running b' = sc_running b \<and> sc_idleBlanked b' = sc_idleBlanked b \<and>
     sc_displayPower b' = sc_displayPower b"
  by (cases "k_Rotation k = []")
    (auto simp: rotationTarget_cases rotation_advance_def Let_def rotationTarget_def split: if_splits)

lemma schedulerTarget_keeps:
  "schedulerTarget env now cfg store b = Some (r, b') \<Longrightarrow> sc_running b' = sc_running b \<and> sc_idleBlanked b' = sc_idleBlanked b \<and>
     sc_displayPower b' = sc_displayPower b"
  by (auto simp: schedulerTarget_def baseTarget_def expire_override_def Let_def
      split: if_splits option.splits prod.splits dest!: applyInserts_keeps rotationTarget_keeps)

lemma schedulerTarget_insert:
  assumes "schedulerTarget env now cfg store b = Some ((target, status), b')" "ss_Reason status = ''insert''"
  shows "0 \<le> target \<and> \<not> scheduleWantsDisplayOff cfg target status"
proof (cases "ov_Active (sc_override (expire_override now b))")
  case True
  with assms show ?thesis by (auto simp: schedulerTarget_def Let_def)
next
  case False
  let ?k = "InsertsWhere cfg (Some (Value store))"
  from False assms(1) obtain t st b1 where base: "baseTarget env now ?k (expire_override now b) = Some ((t, st), b1)"
    and fin: "applyInserts env now ?k t (applyPresence now ?k store st) b1 = ((target, status), b')"
    by (auto simp: schedulerTarget_def Let_def split: option.splits)
  from applyInserts_insert [OF fin _ assms(2)] baseTarget_reason [OF base] show ?thesis by simp
qed

text \<open>C16: After a round of the scheduler with a display that obeys, the display is off and the page
  recorded as blanked exactly when the schedule wants it, whatever state they were in before; an
  insert on screen means that the display is on.\<close>

theorem scheduler_round_display:
  assumes "schedulerTarget env now k store b = Some ((target, status), b1)"
    and "has_display r" "display_ok r" "blank_ok r" "sc_running b" "switch_result r \<noteq> Failed False"
  shows "\<exists>cmds wake b'. scheduler_round env r False now later k store b = Some (cmds, wake, b') \<and>
     (sc_displayPower b' = (if scheduleWantsDisplayOff k target status then ''OFF'' else ''ON'')) \<and>
     sc_idleBlanked b' = scheduleWantsDisplayOff k target status \<and>
     (ss_Reason (sc_scheduler b') = ''insert'' \<longrightarrow> sc_displayPower b' = ''ON'')"
proof -
  let ?off = "scheduleWantsDisplayOff k target status"
  define b2 where "b2 = (if 0 \<le> target \<and> target \<noteq> sc_active b1
    then snd (showPage k target (switch_result r) (b1\<lparr>sc_scheduler := status\<rparr>)) else b1\<lparr>sc_scheduler := status\<rparr>)"
  obtain due b3 where d: "maintenanceReloadDue (zone_of env) now (k_Maintenance k) b2 = (due, b3)" by fastforce
  obtain power b4 where p: "applyScheduleDisplayPower r k target status b3 = (power, b4)" by fastforce
  obtain blank b5 where bl: "blank_or_restore r k target ?off b4 = (blank, b5)" by fastforce
  have "\<exists>cmds wake. scheduler_round env r False now later k store b = Some (cmds, wake, b5)"
    using assms(1) d p bl by (simp add: scheduler_round_def Let_def b2_def [symmetric])
  moreover have run: "sc_running b3" and st: "sc_scheduler b3 = status"
    using schedulerTarget_keeps [OF assms(1)] maintenance_keeps [OF d] assms(5)
      showPage_running [OF _ assms(6)] by (simp_all add: b2_def)
  have b4: "sc_displayPower b4 = (if ?off then ''OFF'' else ''ON'')" "sc_running b4" "sc_scheduler b4 = status"
    using p assms(2,3) run st by (auto simp: applyScheduleDisplayPower_def Let_def split: if_splits)
  have "sc_displayPower b5 = sc_displayPower b4 \<and> sc_idleBlanked b5 = ?off \<and> sc_scheduler b5 = status"
    using bl b4 assms(4) by (auto simp: blank_or_restore_def Let_def split: if_splits)
  ultimately show ?thesis using b4(1) schedulerTarget_insert [OF assms(1)] by auto
qed

definition good_results :: results where
  "good_results = \<lparr>has_display = True, display_ok = True, blank_ok = True, switch_result = Shown,
     restore_result = Shown\<rparr>"

lemma scheduler_round_display_witness:
  "\<exists>cmds wake b'. scheduler_round demo_sky good_results False 5 6
     demo_rotation New demo_sched = Some (cmds, wake, b') \<and> sc_displayPower b' = ''ON'' \<and> \<not> sc_idleBlanked b'"
proof -
  have "map_option (\<lambda>((t, st), b). scheduleWantsDisplayOff demo_rotation t st)
      (schedulerTarget demo_sky 5 demo_rotation New demo_sched) = Some False" by code_simp
  then obtain t st b1 where r: "schedulerTarget demo_sky 5 demo_rotation New demo_sched = Some ((t, st), b1)"
      "\<not> scheduleWantsDisplayOff demo_rotation t st" by auto
  from scheduler_round_display [OF r(1), of good_results 6] r(2)
  show ?thesis by (simp add: demo_sched_def good_results_def) blast
qed

text \<open>While the display is off and the page is recorded as blanked, a page switch of the programme
  (as in the presence mode "require" with nobody there) still shows the next page, and the page is not
  blanked again.\<close>

theorem programme_unblanks:
  assumes "schedulerTarget env now k store b = Some ((target, status), b1)"
    and "sc_idleBlanked b" "scheduleWantsDisplayOff k target status" "0 \<le> target" "target \<noteq> sc_active b1"
    and "sc_displayPower b = ''OFF''"
  shows "\<exists>wake b'. scheduler_round env r False now later k store b =
      Some ([ShowPage target (ss_Reason status = ''insert'')], wake, b') \<and> sc_idleBlanked b'"
proof -
  let ?b2 = "snd (showPage k target (switch_result r) (b1\<lparr>sc_scheduler := status\<rparr>))"
  have b2: "sc_idleBlanked ?b2" "sc_displayPower ?b2 = ''OFF''"
    using schedulerTarget_keeps [OF assms(1)] assms(2,6) by simp_all
  then have "maintenanceReloadDue (zone_of env) now (k_Maintenance k) ?b2 = (False, ?b2)"
    by (simp add: maintenanceReloadDue_def)
  with b2 assms(1,3-5) show ?thesis
    by (simp add: scheduler_round_def applyScheduleDisplayPower_def blank_or_restore_def)
qed

definition demo_absent :: KioskConfig where
  "demo_absent = demo_rotation\<lparr>k_Presence := \<lparr>ps_Enabled = True, ps_Mode = ''require'', ps_Topic = '''',
     ps_Value = '''', ps_TimeoutMinutes = 0, ps_Touch = True\<rparr>\<rparr>"

definition demo_blanked :: Sched where
  "demo_blanked = demo_sched\<lparr>sc_active := 1, sc_idleBlanked := True, sc_displayPower := ''OFF''\<rparr>"

lemma programme_unblanks_witness:
  "\<exists>wake b' target. scheduler_round demo_sky good_results False 5 6 demo_absent New demo_blanked =
      Some ([ShowPage target False], wake, b') \<and> sc_idleBlanked b'"
proof -
  have "map_option (\<lambda>((t, st), b). scheduleWantsDisplayOff demo_absent t st \<and> 0 \<le> t \<and> t \<noteq> sc_active b \<and>
      ss_Reason st \<noteq> ''insert'')
      (schedulerTarget demo_sky 5 demo_absent New demo_blanked) = Some True" by code_simp
  then obtain t st b1 where r: "schedulerTarget demo_sky 5 demo_absent New demo_blanked = Some ((t, st), b1)"
      "scheduleWantsDisplayOff demo_absent t st" "0 \<le> t" "t \<noteq> sc_active b1" "ss_Reason st \<noteq> ''insert''" by auto
  from programme_unblanks [OF r(1) _ r(2-4), of good_results 6] r(5) show ?thesis
    by (auto simp: demo_blanked_def)
qed

subsection \<open>Scheduled reloads\<close>

text \<open>A scheduled reload is not repeated: once it has been ordered, none is due later on the same
  day while the reload interval has not passed, the reload time of the day has not come in between
  and the rotation has not completed another round.\<close>

theorem maintenance_reload_once:
  assumes "maintenanceReloadDue z now m b = (True, b1)" "now \<noteq> 0" "sc_started b \<le> now" "now \<le> t"
    and "0 < mt_ReloadEveryMinutes m \<Longrightarrow> t - now < i64 (mt_ReloadEveryMinutes m * Minute)"
    and "\<And>clock. parseClock (mt_ReloadAt m) = Some clock \<Longrightarrow>
      mk_time z (daynum z t) (clock div 60) (clock mod 60) \<le> now \<or> t < mk_time z (daynum z t) (clock div 60) (clock mod 60)"
  shows "maintenanceReloadDue z t m b1 = (False, b1)"
proof -
  have b1: "sc_lastMaintenance b1 = now" "sc_rotationCycles b1 = 0" "sc_memoryBaseline b1 = 0"
    "sc_started b1 = sc_started b"
    using assms(1) by (auto simp: maintenanceReloadDue_def Let_def split: if_splits)
  have "\<not> memoryGrowthDueLocked z t (GrowthPercent m) b1" using b1(3) by (simp add: memoryGrowthDueLocked_def)
  then show ?thesis using b1 assms(2-6)
    by (auto simp: maintenanceReloadDue_def Let_def split: option.split)
qed

lemma maintenance_reload_once_witness:
  "\<exists>b1. maintenanceReloadDue utc_zone (20 * Minute) \<lparr>mt_ReloadEveryMinutes = 10, mt_ReloadAt = '''',
      mt_ReloadAfterCycles = 0, mt_ReloadOnGrowthPercent = 0\<rparr> demo_sched = (True, b1) \<and>
    maintenanceReloadDue utc_zone (29 * Minute) \<lparr>mt_ReloadEveryMinutes = 10, mt_ReloadAt = '''',
      mt_ReloadAfterCycles = 0, mt_ReloadOnGrowthPercent = 0\<rparr> b1 = (False, b1)"
proof -
  let ?m = "\<lparr>mt_ReloadEveryMinutes = 10, mt_ReloadAt = '''', mt_ReloadAfterCycles = 0, mt_ReloadOnGrowthPercent = 0\<rparr>"
  have "fst (maintenanceReloadDue utc_zone (20 * Minute) ?m demo_sched)" by code_simp
  then obtain b1 where r: "maintenanceReloadDue utc_zone (20 * Minute) ?m demo_sched = (True, b1)"
    by (metis (full_types) prod.collapse)
  have "parseClock (mt_ReloadAt ?m) = None" by code_simp
  with maintenance_reload_once [OF r, of "29 * Minute"] r show ?thesis
    by (simp add: demo_sched_def duration_units i64_id)
qed

end
