(* ===== verification/Config_Conflicts.thy ===== *)
theory Config_Conflicts
  imports Scheduler_Props
begin

section \<open>Conflict warnings\<close>

text \<open>
  \<^verbatim>\<open>internal/config/conflicts.go\<close>: overlapping time rules, workflow rules with the same trigger and
  rules that listen to the topic of an MQTT page. The warnings are compared with what the scheduler
  does: rules without a warning are never active together for different pages.
\<close>

record Conflict =
  cf_Kind :: string
  cf_First :: string
  cf_Second :: string

definition firstNonEmpty2 :: "string \<Rightarrow> string \<Rightarrow> string" where
  \<comment> \<open>\<^verbatim>\<open>firstNonEmpty\<close> of two values\<close>
  "firstNonEmpty2 a b = (if trim_space a \<noteq> '''' then a else if trim_space b \<noteq> '''' then b else '''')"

definition timeRuleLabel :: "TimeRule \<Rightarrow> nat \<Rightarrow> string" where
  "timeRuleLabel rule index =
     firstNonEmpty2 (tr_Name rule) (''time rule '' @ itoa (int index + 1)) @
     '' ('' @ tr_Start rule @ ''-'' @ tr_End rule @ '')''"

definition ruleLabel :: "WorkflowRule \<Rightarrow> string" where
  "ruleLabel rule = firstNonEmpty2 (wr_Name rule) (wr_ID rule)"

definition segments_meet :: "(int \<times> int) list \<Rightarrow> (int \<times> int) list \<Rightarrow> bool" where
  "segments_meet xs ys \<longleftrightarrow>
     list_ex (\<lambda>(x0, x1). list_ex (\<lambda>(y0, y1). x0 < y1 \<and> y0 < x1) ys) xs"

definition timeRulesOverlap :: "TimeRule \<Rightarrow> TimeRule \<Rightarrow> bool" where
  "timeRulesOverlap a b =
     (if \<not> daysOverlap (tr_Days a) (tr_Days b) then False
      else if \<not> (validClock (tr_Start a) \<and> validClock (tr_End a)) \<or>
              \<not> (validClock (tr_Start b) \<and> validClock (tr_End b)) then False
      else segments_meet (clockSegments (clockMinutes (tr_Start a)) (clockMinutes (tr_End a)))
             (clockSegments (clockMinutes (tr_Start b)) (clockMinutes (tr_End b))))"

definition sameTrigger :: "RuleTrigger \<Rightarrow> RuleTrigger \<Rightarrow> bool" where
  "sameTrigger a b =
     (if rt_Type a \<noteq> rt_Type b then False
      else if rt_Type a = ''mqtt'' then
        (if trim_space (rt_Topic a) \<noteq> trim_space (rt_Topic b) then False
         else let pa = trim_space (rt_Payload a); pb = trim_space (rt_Payload b)
           in pa = '''' \<or> pb = '''' \<or> equal_fold pa pb)
      else if rt_Type a = ''time'' then rt_At a = rt_At b \<and> daysOverlap (rt_Days a) (rt_Days b)
      else if rt_Type a = ''touch'' then True
      else if rt_Type a = ''idle'' then rt_IdleSeconds a = rt_IdleSeconds b
      else False)"

fun time_conflicts :: "nat \<Rightarrow> TimeRule list \<Rightarrow> Conflict list" where
  "time_conflicts i [] = []"
| "time_conflicts i (a # rules) =
     map (\<lambda>(j, b). \<lparr>cf_Kind = ''time_rules_overlap'', cf_First = timeRuleLabel a i, cf_Second = timeRuleLabel b j\<rparr>)
       (filter (\<lambda>(j, b). tr_Page a \<noteq> tr_Page b \<and> timeRulesOverlap a b) (enumerate (Suc i) rules)) @
     time_conflicts (Suc i) rules"

definition page_conflicts :: "KioskConfig \<Rightarrow> WorkflowRule \<Rightarrow> Conflict list" where
  "page_conflicts k rule =
     (if rt_Type (wr_Trigger rule) \<noteq> ''mqtt'' then []
      else map (\<lambda>p. \<lparr>cf_Kind = ''rule_page_topic'', cf_First = ruleLabel rule,
                     cf_Second = firstNonEmpty2 (pg_Name p) (pg_URL p)\<rparr>)
        (filter (\<lambda>p. \<not> pg_Disabled p \<and> pg_DisplayMode p = ''mqtt'' \<and>
           trim_space (ptr_Topic (pg_Trigger p)) = trim_space (rt_Topic (wr_Trigger rule))) (k_Pages k)))"

fun workflow_conflicts :: "KioskConfig \<Rightarrow> WorkflowRule list \<Rightarrow> Conflict list" where
  "workflow_conflicts k [] = []"
| "workflow_conflicts k (a # rules) =
     map (\<lambda>b. \<lparr>cf_Kind = ''rules_same_trigger'', cf_First = ruleLabel a, cf_Second = ruleLabel b\<rparr>)
       (filter (\<lambda>b. sameTrigger (wr_Trigger a) (wr_Trigger b)) rules) @
     page_conflicts k a @ workflow_conflicts k rules"

definition Conflicts :: "KioskConfig \<Rightarrow> Conflict list" where
  "Conflicts k =
     time_conflicts 0 (filter (\<lambda>r. \<not> tr_Disabled r) (k_TimeRules k)) @
     workflow_conflicts k (filter (\<lambda>r. \<not> wr_Disabled r) (k_Rules k))"

subsection \<open>Warnings and the scheduler\<close>

lemma segments_meet_sym: "segments_meet xs ys \<longleftrightarrow> segments_meet ys xs"
  by (force simp: segments_meet_def list_ex_iff)

lemma timeRulesOverlap_sym: "timeRulesOverlap a b \<longleftrightarrow> timeRulesOverlap b a"
proof -
  have "daysOverlap (tr_Days a) (tr_Days b) = daysOverlap (tr_Days b) (tr_Days a)" by (rule daysOverlap_sym)
  then show ?thesis unfolding timeRulesOverlap_def using segments_meet_sym by auto
qed

lemma time_conflicts_complete:
  assumes "a \<in> set rules" "b \<in> set rules" "tr_Page a \<noteq> tr_Page b" "timeRulesOverlap a b"
  shows "\<exists>c\<in>set (time_conflicts i rules). cf_Kind c = ''time_rules_overlap''"
  using assms
proof (induction rules arbitrary: i)
  case (Cons r rules)
  show ?case
  proof (cases "a \<in> set rules \<and> b \<in> set rules")
    case True
    with Cons.IH [of "Suc i"] Cons.prems(3,4) show ?thesis by auto
  next
    case False
    with Cons.prems obtain x where x: "x \<in> set rules" "tr_Page r \<noteq> tr_Page x" "timeRulesOverlap r x"
      using timeRulesOverlap_sym by (metis set_ConsD)
    from x(1) obtain j where "j < length rules" "x = rules ! j" by (metis in_set_conv_nth)
    then have "(Suc i + j, x) \<in> set (enumerate (Suc i) rules)" by (auto simp: in_set_enumerate_eq)
    with x show ?thesis by force
  qed
qed simp

lemma workflow_conflicts_kind:
  "c \<in> set (workflow_conflicts k rules) \<Longrightarrow> cf_Kind c = ''rules_same_trigger'' \<or> cf_Kind c = ''rule_page_topic''"
  by (induction rules) (auto simp: page_conflicts_def split: if_splits)

lemma parseClock_valid:
  assumes "validClock v"
  shows "parseClock v = Some (clockMinutes v)"
proof -
  from assms obtain h m hour minute where
    "split_at CHR '':'' (trim_space v) = [h, m]" "atoi h = Some hour" "atoi m = Some minute"
    "0 \<le> hour" "hour \<le> 23" "0 \<le> minute" "minute \<le> 59"
    by (auto simp: validClock_def split: list.splits option.splits)
  then show ?thesis
    by (simp add: parseClock_def clockMinutes_def atoi_or_zero_atoi i64_id)
qed

lemma rule_active_segment:
  assumes "rule_active s e t" "0 \<le> t" "t < 1440"
  shows "\<exists>(x, y)\<in>set (clockSegments s e). x \<le> t \<and> t < y"
  using assms by (auto simp: rule_active_def clockSegments_def split: if_splits)

lemma active_rules_overlap:
  assumes "time_rule_hit env k now a \<noteq> None" "time_rule_hit env k now b \<noteq> None"
    and "validClock (tr_Start a)" "validClock (tr_End a)" "validClock (tr_Start b)" "validClock (tr_End b)"
  shows "timeRulesOverlap a b"
proof -
  let ?t = "minute_of_day (zone_of env) now"
  have day: "dayMatches (tr_Days a) (weekday_of (zone_of env) now)"
    "dayMatches (tr_Days b) (weekday_of (zone_of env) now)"
    using assms(1,2) by (auto simp: time_rule_hit_def split: if_splits)
  have "rule_active (clockMinutes (tr_Start r)) (clockMinutes (tr_End r)) ?t"
    if hit: "time_rule_hit env k now r \<noteq> None" and v: "validClock (tr_Start r)" "validClock (tr_End r)" for r
  proof -
    obtain p n t where "time_rule_hit env k now r = Some (p, n, t)" using hit by auto
    then show ?thesis using v by (auto elim!: time_rule_hit_Some simp: ruleClock_def parseClock_valid)
  qed
  with assms have "rule_active (clockMinutes (tr_Start a)) (clockMinutes (tr_End a)) ?t"
    "rule_active (clockMinutes (tr_Start b)) (clockMinutes (tr_End b)) ?t" by blast+
  from this [THEN rule_active_segment] minute_of_day_range
  obtain x0 x1 y0 y1 where "(x0, x1) \<in> set (clockSegments (clockMinutes (tr_Start a)) (clockMinutes (tr_End a)))"
    "(y0, y1) \<in> set (clockSegments (clockMinutes (tr_Start b)) (clockMinutes (tr_End b)))"
    "x0 \<le> ?t" "?t < x1" "y0 \<le> ?t" "?t < y1" by fastforce
  moreover from this have "x0 < y1 \<and> y0 < x1" by linarith
  ultimately have "segments_meet (clockSegments (clockMinutes (tr_Start a)) (clockMinutes (tr_End a)))
      (clockSegments (clockMinutes (tr_Start b)) (clockMinutes (tr_End b)))"
    unfolding segments_meet_def list_ex_iff by blast
  with day assms(3-) show ?thesis
    using daysOverlap_complete by (auto simp: timeRulesOverlap_def dayMatches_weekdayMatches)
qed

text \<open>When Conflicts reports no overlapping time rules, the rules with HH:MM times that the scheduler
  finds active at any one moment all name the same page, so the order of the rules does not matter.\<close>

theorem no_warning_no_clash:
  assumes "\<forall>c\<in>set (Conflicts k). cf_Kind c \<noteq> ''time_rules_overlap''"
    and "a \<in> set (k_TimeRules k)" "b \<in> set (k_TimeRules k)"
    and "time_rule_hit env k now a \<noteq> None" "time_rule_hit env k now b \<noteq> None"
    and "validClock (tr_Start a)" "validClock (tr_End a)" "validClock (tr_Start b)" "validClock (tr_End b)"
  shows "tr_Page a = tr_Page b"
proof (rule ccontr)
  assume "tr_Page a \<noteq> tr_Page b"
  moreover have "\<not> tr_Disabled a" "\<not> tr_Disabled b"
    using assms(4,5) by (auto simp: time_rule_hit_def split: if_splits)
  ultimately have "\<exists>c\<in>set (time_conflicts 0 (filter (\<lambda>r. \<not> tr_Disabled r) (k_TimeRules k))).
      cf_Kind c = ''time_rules_overlap''"
    using assms active_rules_overlap [OF assms(4-9)] by (intro time_conflicts_complete [of a _ b]) auto
  with assms(1) show False by (auto simp: Conflicts_def)
qed

definition demo_rule :: "string \<Rightarrow> string \<Rightarrow> int \<Rightarrow> TimeRule" where
  "demo_rule s e p = \<lparr>tr_Name = '''', tr_Page = p, tr_Start = s, tr_End = e, tr_Days = [], tr_Disabled = False\<rparr>"

lemma no_warning_no_clash_witness:
  "tr_Page (demo_rule ''00:00'' ''01:00'' 0) = tr_Page (demo_rule ''00:00'' ''02:00'' 0)"
proof (rule no_warning_no_clash [where now = "0" and env = demo_sky and
      k = "zero_kiosk\<lparr>k_TimeRules := [demo_rule ''00:00'' ''01:00'' 0, demo_rule ''00:00'' ''02:00'' 0]\<rparr>"])
  let ?k = "zero_kiosk\<lparr>k_TimeRules := [demo_rule ''00:00'' ''01:00'' 0, demo_rule ''00:00'' ''02:00'' 0]\<rparr>"
  show "\<forall>c\<in>set (Conflicts ?k). cf_Kind c \<noteq> ''time_rules_overlap''" by code_simp
  show "time_rule_hit demo_sky ?k 0 (demo_rule ''00:00'' ''01:00'' 0) \<noteq> None" by code_simp
  show "time_rule_hit demo_sky ?k 0 (demo_rule ''00:00'' ''02:00'' 0) \<noteq> None" by code_simp
  show "validClock (tr_Start (demo_rule ''00:00'' ''01:00'' 0))" by code_simp
  show "validClock (tr_End (demo_rule ''00:00'' ''01:00'' 0))" by code_simp
  show "validClock (tr_Start (demo_rule ''00:00'' ''02:00'' 0))" by code_simp
  show "validClock (tr_End (demo_rule ''00:00'' ''02:00'' 0))" by code_simp
qed (simp_all add: zero_kiosk_def)

text \<open>A time rule whose start and end are the same never becomes active, although the warnings
  treat it as a rule for the whole day and page inserts treat the same window as always open.\<close>

theorem zero_length_rule:
  assumes "validClock (tr_Start r)" "tr_Start r = tr_End r"
  shows "time_rule_hit env k now r = None \<and>
     (validClock (tr_Start b) \<and> validClock (tr_End b) \<and> tr_Days b = [] \<and> tr_Start b \<noteq> '''' \<and>
        clockMinutes (tr_Start b) < clockMinutes (tr_End b) \<longrightarrow> timeRulesOverlap r b)"
proof
  let ?m = "clockMinutes (tr_Start r)"
  have "ruleClock env k (tr_Start r) now = Some ?m"
    using assms(1) by (simp add: ruleClock_def parseClock_valid)
  moreover from this have "ruleClock env k (tr_End r) now = Some ?m" unfolding assms(2) .
  ultimately have "ruleClock env k (tr_Start r) now = Some ?m" "ruleClock env k (tr_End r) now = Some ?m"
    by blast+
  then show "time_rule_hit env k now r = None"
    by (simp add: time_rule_hit_def rule_active_def Let_def)
  show "validClock (tr_Start b) \<and> validClock (tr_End b) \<and> tr_Days b = [] \<and> tr_Start b \<noteq> '''' \<and>
        clockMinutes (tr_Start b) < clockMinutes (tr_End b) \<longrightarrow> timeRulesOverlap r b"
    using assms(1) clockMinutes_range [of "tr_Start b"] clockMinutes_range [of "tr_End b"]
    unfolding assms(2) [symmetric] timeRulesOverlap_def by (auto simp: timeRulesOverlap_def daysOverlap_def segments_meet_def clockSegments_def)
qed

lemma zero_length_rule_witness:
  "time_rule_hit demo_sky demo_rotation 0 (demo_rule ''00:00'' ''00:00'' 0) = None \<and>
   timeRulesOverlap (demo_rule ''00:00'' ''00:00'' 0) (demo_rule ''08:00'' ''09:00'' 1)"
proof -
  have v: "validClock ''00:00''" "validClock ''08:00''" "validClock ''09:00''"
    "clockMinutes ''08:00'' < clockMinutes ''09:00''" by code_simp+
  then show ?thesis
    using zero_length_rule [of "demo_rule ''00:00'' ''00:00'' 0" demo_sky demo_rotation 0
        "demo_rule ''08:00'' ''09:00'' 1"]
    by (simp add: demo_rule_def)
qed

end
