(* ===== verification/Page_Scripts.thy ===== *)
theory Page_Scripts
  imports Complex_Main Go_Time
begin

section \<open>Scripts for the kiosk page\<close>

text \<open>
  The JavaScript the workflow actions run in the page: \<^verbatim>\<open>internal/workflow/scripts.go\<close> and
  \<^verbatim>\<open>overlayScript\<close> of \<^verbatim>\<open>internal/supervisor/evaluate.go\<close>. Values reach a script through
  \<^verbatim>\<open>json.Marshal\<close> only; \<open>json_string\<close> is what the Go library documents for strings (UTF-8 with
  invalid bytes replaced, HTML characters and line separators escaped). \<open>read_literal\<close> reads a string
  literal the way a JavaScript engine does. The lemmas show that a literal ends where the script
  says and means the value, whatever the value holds.
\<close>

subsection \<open>UTF-8\<close>

abbreviation code :: "char \<Rightarrow> nat" where
  "code c \<equiv> of_char c"

definition continues :: "nat \<Rightarrow> nat \<Rightarrow> string \<Rightarrow> bool" where
  \<comment> \<open>the first byte lies in the range, the others are continuation bytes\<close>
  "continues lo hi s \<longleftrightarrow>
     s \<noteq> [] \<and> lo \<le> code (hd s) \<and> code (hd s) \<le> hi \<and> list_all (\<lambda>c. 128 \<le> code c \<and> code c \<le> 191) (tl s)"

definition utf8_tail :: "nat \<Rightarrow> nat \<times> nat \<times> nat" where
  \<comment> \<open>how many bytes follow a first byte, and the range of the first of them\<close>
  "utf8_tail b =
     (if 194 \<le> b \<and> b \<le> 223 then (1, 128, 191)
      else if b = 224 then (2, 160, 191)
      else if b = 237 then (2, 128, 159)
      else if 225 \<le> b \<and> b \<le> 239 then (2, 128, 191)
      else if b = 240 then (3, 144, 191)
      else if 241 \<le> b \<and> b \<le> 243 then (3, 128, 191)
      else if b = 244 then (3, 128, 143)
      else (0, 0, 0))"

definition rune_length :: "char \<Rightarrow> string \<Rightarrow> nat" where
  \<comment> \<open>the length of the character at the start, 0 for an invalid byte\<close>
  "rune_length c s =
     (if code c < 128 then 1
      else let (n, lo, hi) = utf8_tail (code c) in
        if n \<noteq> 0 \<and> n \<le> length s \<and> continues lo hi (take n s) then Suc n else 0)"

definition replacement :: string where
  "replacement = [CHR 0xEF, CHR 0xBF, CHR 0xBD]"

lemma rune_length_le: "rune_length c s \<le> Suc (length s)"
  by (auto simp: rune_length_def Let_def split: prod.splits)

function valid_text :: "string \<Rightarrow> string" where
  \<comment> \<open>\<^verbatim>\<open>strings.ToValidUTF8\<close> with the replacement character\<close>
  "valid_text [] = []"
| "valid_text (c # s) =
     (if rune_length c s = 0 then replacement @ valid_text s
      else take (rune_length c s) (c # s) @ valid_text (drop (rune_length c s) (c # s)))"
  by pat_completeness auto
termination
  by (relation "measure length") (auto simp: less_Suc_eq_le)

lemma valid_text_ascii: "list_all (\<lambda>c. code c < 128) s \<Longrightarrow> valid_text s = s"
  by (induction s) (simp_all add: rune_length_def)

subsection \<open>JSON strings\<close>

definition hex_digits :: string where
  "hex_digits = ''0123456789abcdef''"

definition json_ascii :: "char \<Rightarrow> string" where
  \<comment> \<open>an ASCII character inside a JSON string\<close>
  "json_ascii c =
     (let b = code c in
      if b = 34 \<or> b = 92 then [CHR 0x5C, c]
      else if b = 8 then [CHR 0x5C, CHR ''b'']
      else if b = 12 then [CHR 0x5C, CHR ''f'']
      else if b = 10 then [CHR 0x5C, CHR ''n'']
      else if b = 13 then [CHR 0x5C, CHR ''r'']
      else if b = 9 then [CHR 0x5C, CHR ''t'']
      else if b < 32 \<or> b = 60 \<or> b = 62 \<or> b = 38
      then [CHR 0x5C, CHR ''u'', CHR ''0'', CHR ''0'', hex_digits ! (b div 16), hex_digits ! (b mod 16)]
      else [c])"

function json_chars :: "string \<Rightarrow> string" where
  "json_chars [] = []"
| "json_chars (c # s) =
     (let n = rune_length c s; rune = take n (c # s) in
      if n = 0 then CHR 0x5C # ''ufffd'' @ json_chars s
      else (if n = 1 then json_ascii c
            else if rune = [CHR 0xE2, CHR 0x80, CHR 0xA8] then CHR 0x5C # ''u2028''
            else if rune = [CHR 0xE2, CHR 0x80, CHR 0xA9] then CHR 0x5C # ''u2029''
            else rune) @ json_chars (drop n (c # s)))"
  by pat_completeness auto
termination
  by (relation "measure length") (auto simp: less_Suc_eq_le)

definition json_string :: "string \<Rightarrow> string" where
  \<comment> \<open>\<^verbatim>\<open>json.Marshal\<close> of a string\<close>
  "json_string s = CHR 0x22 # json_chars s @ [CHR 0x22]"

subsection \<open>Scripts\<close>

definition script :: "string list \<Rightarrow> string" where
  "script ls = join [CHR 0x0A] ls"

definition deepQuery :: string where
  \<open>deepQuery =
     script [''const deepQuery = (selector, root = document) => {'',
       ''  const found = root.querySelector(selector);'',
       ''  if (found) return found;'',
       ''  for (const element of root.querySelectorAll("*")) {'',
       ''    if (element.shadowRoot) {'',
       ''      const nested = deepQuery(selector, element.shadowRoot);'',
       ''      if (nested) return nested;'',
       ''    }'',
       ''  }'',
       ''  return null;'',
       ''};'']\<close>

definition element_head :: string where
  \<comment> \<open>the beginning of \<^verbatim>\<open>clickScript\<close> and \<^verbatim>\<open>scrollScript\<close>, up to the first value\<close>
  \<open>element_head =
     script [''(() => {'', ''  ''] @ deepQuery @ script ['''', ''  const element = deepQuery('']\<close>

definition element_check :: string where
  \<open>element_check =
     script ['');'',
       ''  if (!element) throw new Error("no element matches " + '']\<close>

definition clickScript :: "string \<Rightarrow> string" where
  \<open>clickScript selector =
     (let encoded = json_string (trim_space selector) in
     element_head @ encoded @ element_check @ encoded @
     script ['');'',
       ''  element.click();'',
       ''})()''])\<close>

definition scroll_by :: "int \<Rightarrow> string" where
  \<open>scroll_by pixels =
     script [''(() => {'',
       ''  const target = document.scrollingElement || document.documentElement;'',
       ''  window.scrollBy({ top: ''] @
     itoa pixels @
     script ['', behavior: "smooth" });'',
       ''  if (target) target.scrollBy({ top: ''] @
     itoa pixels @
     script ['', behavior: "smooth" });'',
       ''})()'']\<close>

definition scrollScript :: "string \<Rightarrow> string" where
  \<open>scrollScript value =
     (case atoi (trim_space value) of
        Some pixels \<Rightarrow> scroll_by pixels
      | None \<Rightarrow> (let encoded = json_string (trim_space value) in
     element_head @ encoded @ element_check @ encoded @
     script ['');'',
       ''  element.scrollIntoView({ behavior: "smooth", block: "start" });'',
       ''})()'']))\<close>

definition chime :: string where
  \<open>chime =
     script [''(() => {'',
       ''  const context = new (window.AudioContext || window.webkitAudioContext)();'',
       ''  ['' @ ''[880, 0], [660, 0.22]].forEach(([frequency, start]) => {'',
       ''    const oscillator = context.createOscillator();'',
       ''    const gain = context.createGain();'',
       ''    oscillator.frequency.value = frequency;'',
       ''    gain.gain.setValueAtTime(0.25, context.currentTime + start);'',
       ''    gain.gain.exponentialRampToValueAtTime(0.001, context.currentTime + start + 0.2);'',
       ''    oscillator.connect(gain).connect(context.destination);'',
       ''    oscillator.start(context.currentTime + start);'',
       ''    oscillator.stop(context.currentTime + start + 0.2);'',
       ''  });'',
       ''  setTimeout(() => context.close(), 800);'',
       ''})()'']\<close>

definition soundScript :: "string \<Rightarrow> string" where
  \<open>soundScript url =
     (if trim_space url \<noteq> [] then script [''new Audio(''] @
     json_string (trim_space url) @
     script ['').play()'']
      else chime)\<close>

definition overlayScript :: "string \<Rightarrow> duration \<Rightarrow> string" where
  \<open>overlayScript txt d =
     (let d = (if d \<le> 0 then 10 * Second else d) in
     script [''(() => {'',
       ''  const id = "kioskmate-overlay";'',
       ''  document.getElementById(id)?.remove();'',
       ''  const box = document.createElement("div");'',
       ''  box.id = id;'',
       ''  box.textContent = ''] @
     json_string txt @
     script ['';'',
       ''  box.setAttribute("role", "status");'',
       ''  box.style.cssText = "position:fixed;left:50%;top:24px;transform:translateX(-50%);z-index:2147483647;max-width:min(90vw,960px);padding:18px 28px;border-radius:14px;background:rgba(10,14,18,.92);color:#fff;font:600 clamp(18px,2.4vw,34px)/1.3 system-ui,sans-serif;box-shadow:0 12px 40px rgba(0,0,0,.45);text-align:center;pointer-events:none";'',
       ''  document.documentElement.appendChild(box);'',
       ''  setTimeout(() => box.remove(), ''] @
     itoa (quot64 d 1000000) @
     script ['');'',
       ''})()''])\<close>

definition ShowOverlay :: "(string \<Rightarrow> 'w \<Rightarrow> string option \<times> 'w) \<Rightarrow> string \<Rightarrow> duration \<Rightarrow> 'w \<Rightarrow> string option \<times> 'w" where
  \<comment> \<open>with what \<^verbatim>\<open>Browser.Evaluate\<close> does\<close>
  "ShowOverlay evaluate txt d w =
     (let txt = trim_space txt in
      if txt = [] then (Some ''overlay text is empty'', w) else evaluate (overlayScript txt d) w)"

subsection \<open>Reading a literal\<close>

definition hex_val :: "char \<Rightarrow> nat option" where
  "hex_val c =
     (let b = code c in
      if 48 \<le> b \<and> b \<le> 57 then Some (b - 48)
      else if 97 \<le> b \<and> b \<le> 102 then Some (b - 87)
      else if 65 \<le> b \<and> b \<le> 70 then Some (b - 55)
      else None)"

definition hex4 :: "char \<Rightarrow> char \<Rightarrow> char \<Rightarrow> char \<Rightarrow> nat option" where
  "hex4 a b c d =
     (case (hex_val a, hex_val b, hex_val c, hex_val d) of
        (Some x, Some y, Some z, Some w) \<Rightarrow> Some (((x * 16 + y) * 16 + z) * 16 + w)
      | _ \<Rightarrow> None)"

definition utf8_encode :: "nat \<Rightarrow> string" where
  \<comment> \<open>of a code unit\<close>
  "utf8_encode n =
     (if n < 128 then [char_of n]
      else if n < 2048 then [char_of (192 + n div 64), char_of (128 + n mod 64)]
      else [char_of (224 + n div 4096), char_of (128 + n div 64 mod 64), char_of (128 + n mod 64)])"

definition simple_escape :: "char \<Rightarrow> char" where
  "simple_escape c =
     (if c = CHR ''b'' then CHR 0x08 else if c = CHR ''f'' then CHR 0x0C else if c = CHR ''n'' then CHR 0x0A
      else if c = CHR ''r'' then CHR 0x0D else if c = CHR ''t'' then CHR 0x09 else c)"

definition before :: "string \<Rightarrow> (string \<times> string) option \<Rightarrow> (string \<times> string) option" where
  "before xs r = map_option (\<lambda>(v, rest). (xs @ v, rest)) r"

fun read_body :: "string \<Rightarrow> (string \<times> string) option" where
  \<comment> \<open>the rest of a string literal: its value and what follows it\<close>
  "read_body [] = None"
| "read_body (c # s) =
     (if c = CHR 0x22 then Some ([], s)
      else if c = CHR 0x0A \<or> c = CHR 0x0D then None
      else if c \<noteq> CHR 0x5C then before [c] (read_body s)
      else (case s of
          [] \<Rightarrow> None
        | e # s' \<Rightarrow>
            if e \<noteq> CHR ''u'' then before [simple_escape e] (read_body s')
            else (case s' of
                h1 # h2 # h3 # h4 # s'' \<Rightarrow>
                  (case hex4 h1 h2 h3 h4 of
                     None \<Rightarrow> None | Some n \<Rightarrow> before (utf8_encode n) (read_body s''))
              | _ \<Rightarrow> None)))"

definition read_literal :: "string \<Rightarrow> (string \<times> string) option" where
  "read_literal s = (case s of CHR 0x22 # r \<Rightarrow> read_body r | _ \<Rightarrow> None)"

lemma before_before [simp]: "before xs (before ys r) = before (xs @ ys) r"
  by (cases r) (auto simp: before_def)

lemma before_Nil [simp]: "before [] r = r"
  by (cases r) (auto simp: before_def)

lemma read_plain:
  "list_all (\<lambda>c. 93 \<le> code c) xs \<Longrightarrow> read_body (xs @ s) = before xs (read_body s)"
proof (induction xs)
  case (Cons c xs)
  have "c \<noteq> CHR 0x22" "c \<noteq> CHR 0x0A" "c \<noteq> CHR 0x0D" "c \<noteq> CHR 0x5C" using Cons.prems by auto
  with Cons show ?case by simp
qed simp

lemma hex_val_digit: "n < 16 \<Longrightarrow> hex_val (hex_digits ! n) = Some n"
proof -
  have "list_all (\<lambda>n. hex_val (hex_digits ! n) = Some n) [0..<16]"
    by (simp add: upt_conv_Cons hex_val_def hex_digits_def)
  then show "n < 16 \<Longrightarrow> ?thesis" by (simp add: list_all_iff)
qed

lemma hex_escape:
  assumes "n < 128"
  shows "hex4 (CHR ''0'') (CHR ''0'') (hex_digits ! (n div 16)) (hex_digits ! (n mod 16)) = Some n"
proof -
  have "hex_val (CHR ''0'') = Some 0" by (simp add: hex_val_def)
  with assms show ?thesis by (simp add: hex4_def hex_val_digit less_mult_imp_div_less)
qed

lemma code_eq: "code c = n \<Longrightarrow> c = char_of n"
  by auto

lemma special_chars:
  "char_of (34 :: nat) = CHR 0x22" "char_of (92 :: nat) = CHR 0x5C" "char_of (8 :: nat) = CHR 0x08"
  "char_of (12 :: nat) = CHR 0x0C" "char_of (10 :: nat) = CHR 0x0A" "char_of (13 :: nat) = CHR 0x0D"
  "char_of (9 :: nat) = CHR 0x09" "char_of (239 :: nat) = CHR 0xEF" "char_of (191 :: nat) = CHR 0xBF"
  "char_of (189 :: nat) = CHR 0xBD" "char_of (226 :: nat) = CHR 0xE2" "char_of (128 :: nat) = CHR 0x80"
  "char_of (168 :: nat) = CHR 0xA8" "char_of (169 :: nat) = CHR 0xA9"
  by (rule code_eq [symmetric], simp)+

lemma unicode_escapes:
  "hex4 (CHR ''f'') (CHR ''f'') (CHR ''f'') (CHR ''d'') = Some 65533"
  "hex4 (CHR ''2'') (CHR ''0'') (CHR ''2'') (CHR ''8'') = Some 8232"
  "hex4 (CHR ''2'') (CHR ''0'') (CHR ''2'') (CHR ''9'') = Some 8233"
  "utf8_encode 65533 = replacement"
  "utf8_encode 8232 = [CHR 0xE2, CHR 0x80, CHR 0xA8]"
  "utf8_encode 8233 = [CHR 0xE2, CHR 0x80, CHR 0xA9]"
  by (simp_all add: hex4_def hex_val_def utf8_encode_def replacement_def special_chars)

lemma read_escape_u:
  "read_body (CHR 0x5C # CHR ''u'' # a # b # c # d # s) =
     (case hex4 a b c d of None \<Rightarrow> None | Some n \<Rightarrow> before (utf8_encode n) (read_body s))"
  by simp

lemma read_json_ascii:
  assumes "code c < 128"
  shows "read_body (json_ascii c @ s) = before [c] (read_body s)"
proof -
  note char = code_eq [of c]
  consider "code c = 34 \<or> code c = 92" | "code c = 8" | "code c = 12" | "code c = 10" | "code c = 13" | "code c = 9"
    | "code c < 32 \<or> code c = 60 \<or> code c = 62 \<or> code c = 38" "code c \<notin> {8, 9, 10, 12, 13, 34, 92}"
    | "\<not> code c < 32" "code c \<notin> {34, 38, 60, 62, 92}" by fastforce
  then show ?thesis
  proof cases
    case 1
    then have "c = CHR 0x22 \<or> c = CHR 0x5C" using char special_chars(1,2) by metis
    then show ?thesis by (auto simp: json_ascii_def simple_escape_def)
  next
    case 7
    then have "json_ascii c = [CHR 0x5C, CHR ''u'', CHR ''0'', CHR ''0'', hex_digits ! (code c div 16),
        hex_digits ! (code c mod 16)]" by (auto simp: json_ascii_def Let_def)
    with hex_escape [OF assms] assms show ?thesis by (simp add: utf8_encode_def)
  next
    case 8
    then have "json_ascii c = [c]" by (auto simp: json_ascii_def Let_def)
    moreover have "c \<noteq> CHR 0x22" "c \<noteq> CHR 0x0A" "c \<noteq> CHR 0x0D" "c \<noteq> CHR 0x5C" using 8 by auto
    ultimately show ?thesis by simp
  qed (drule char, simp add: special_chars json_ascii_def simple_escape_def)+
qed

lemma rune_bytes:
  assumes "rune_length c s = n" "1 < n"
  shows "list_all (\<lambda>b. 128 \<le> code b) (take n (c # s))"
proof -
  obtain m lo hi where t: "utf8_tail (code c) = (m, lo, hi)" by (metis prod_cases3)
  from assms have c: "128 \<le> code c" by (auto simp: rune_length_def split: if_splits)
  with assms t have n: "n = Suc m" "continues lo hi (take m s)"
    by (auto simp: rune_length_def split: if_splits)
  have "128 \<le> lo" using t n assms(2) by (auto simp: utf8_tail_def split: if_splits)
  with n(2) have "list_all (\<lambda>b. 128 \<le> code b) (take m s)"
    by (cases "take m s") (auto simp: continues_def list_all_iff)
  with c n(1) show ?thesis by simp
qed

lemma read_json_string: "read_literal (json_string v @ rest) = Some (valid_text v, rest)"
proof -
  have "read_body (json_chars v @ CHR 0x22 # rest) = Some (valid_text v, rest)"
  proof (induction v rule: json_chars.induct)
    case (2 c s)
    define n where "n = rune_length c s"
    show ?case
    proof (cases "n = 0")
      case True
      have "read_body (json_chars s @ CHR 0x22 # rest) = Some (valid_text s, rest)"
        using 2(1) [OF refl refl] True by (simp add: n_def)
      then show ?thesis using True
        by (simp add: n_def [symmetric] before_def unicode_escapes read_escape_u del: read_body.simps)
    next
      case False
      define rune where "rune = take n (c # s)"
      have IH: "read_body (json_chars (drop n (c # s)) @ CHR 0x22 # rest) = Some (valid_text (drop n (c # s)), rest)"
        using 2(2) [OF refl refl] False by (simp add: n_def)
      have valid: "valid_text (c # s) = rune @ valid_text (drop n (c # s))"
        using False by (simp add: n_def rune_def)
      define enc where "enc = (if n = 1 then json_ascii c
            else if rune = [CHR 0xE2, CHR 0x80, CHR 0xA8] then CHR 0x5C # ''u2028''
            else if rune = [CHR 0xE2, CHR 0x80, CHR 0xA9] then CHR 0x5C # ''u2029'' else rune)"
      have enc: "read_body (enc @ t) = before rune (read_body t)" for t
      proof (cases "n = 1")
        case True
        then have "code c < 128" by (auto simp: n_def rune_length_def Let_def split: if_splits prod.splits)
        with True show ?thesis by (simp add: enc_def read_json_ascii rune_def)
      next
        case n1: False
        have "list_all (\<lambda>b. 93 \<le> code b) rune"
          using rune_bytes [OF n_def [symmetric]] False n1 by (auto simp: rune_def list_all_iff)
        then show ?thesis using n1 read_plain [of rune t]
          by (simp add: enc_def read_escape_u unicode_escapes del: read_body.simps)
      qed
      have "json_chars (c # s) = enc @ json_chars (drop n (c # s))"
        using False by (simp only: json_chars.simps Let_def n_def [symmetric] rune_def [symmetric] enc_def if_False)
      then show ?thesis by (simp only: valid append_assoc enc IH before_def) simp
    qed
  qed simp
  then show ?thesis by (simp add: json_string_def read_literal_def)
qed

text \<open>A value cannot leave its place in a script: every script that carries one is a fixed program
  text with string literals in it, and whatever the value holds, each literal ends where the fixed
  text goes on and stands for the value (with invalid UTF-8 replaced).\<close>

theorem scripts_inject_nothing:
  "(\<exists>a b c. \<forall>v. \<exists>r1 r2. clickScript v = a @ r1 \<and>
      read_literal r1 = Some (valid_text (trim_space v), b @ r2) \<and> read_literal r2 = Some (valid_text (trim_space v), c)) \<and>
   (\<exists>a b c. \<forall>v. scrollScript v = scroll_by (the (atoi (trim_space v))) \<or> (\<exists>r1 r2. scrollScript v = a @ r1 \<and>
      read_literal r1 = Some (valid_text (trim_space v), b @ r2) \<and> read_literal r2 = Some (valid_text (trim_space v), c))) \<and>
   (\<exists>a b. \<forall>v. soundScript v = chime \<or>
      (\<exists>r. soundScript v = a @ r \<and> read_literal r = Some (valid_text (trim_space v), b))) \<and>
   (\<exists>a b c. \<forall>v d. \<exists>r n. overlayScript v d = a @ r \<and> read_literal r = Some (valid_text v, b @ itoa n @ c))"
proof (intro conjI)
  have "\<exists>c. \<forall>v. clickScript v =
      element_head @ json_string (trim_space v) @ element_check @ json_string (trim_space v) @ c"
    unfolding clickScript_def Let_def by (intro exI allI) (rule refl)
  then obtain c where "\<forall>v. clickScript v =
      element_head @ json_string (trim_space v) @ element_check @ json_string (trim_space v) @ c" ..
  then show "\<exists>a b c. \<forall>v. \<exists>r1 r2. clickScript v = a @ r1 \<and>
      read_literal r1 = Some (valid_text (trim_space v), b @ r2) \<and> read_literal r2 = Some (valid_text (trim_space v), c)"
    using read_json_string by metis
  have "\<exists>c. \<forall>v. atoi (trim_space v) = None \<longrightarrow> scrollScript v =
      element_head @ json_string (trim_space v) @ element_check @ json_string (trim_space v) @ c"
    unfolding scrollScript_def Let_def by (intro exI allI impI) simp
  then obtain c where "\<forall>v. atoi (trim_space v) = None \<longrightarrow> scrollScript v =
      element_head @ json_string (trim_space v) @ element_check @ json_string (trim_space v) @ c" ..
  moreover have "atoi (trim_space v) \<noteq> None \<Longrightarrow> scrollScript v = scroll_by (the (atoi (trim_space v)))" for v
    by (auto simp: scrollScript_def)
  ultimately show "\<exists>a b c. \<forall>v. scrollScript v = scroll_by (the (atoi (trim_space v))) \<or>
      (\<exists>r1 r2. scrollScript v = a @ r1 \<and> read_literal r1 = Some (valid_text (trim_space v), b @ r2) \<and>
        read_literal r2 = Some (valid_text (trim_space v), c))"
    using read_json_string by metis
  have "\<exists>a b. \<forall>v. trim_space v \<noteq> [] \<longrightarrow> soundScript v = a @ json_string (trim_space v) @ b"
    unfolding soundScript_def by (intro exI allI impI) simp
  moreover have "trim_space v = [] \<Longrightarrow> soundScript v = chime" for v by (simp add: soundScript_def)
  ultimately show "\<exists>a b. \<forall>v. soundScript v = chime \<or>
      (\<exists>r. soundScript v = a @ r \<and> read_literal r = Some (valid_text (trim_space v), b))"
    using read_json_string by metis
  have "\<exists>a b c. \<forall>v d. \<exists>n. overlayScript v d = a @ json_string v @ b @ itoa n @ c"
    unfolding overlayScript_def Let_def by (intro exI allI) (rule refl)
  then show "\<exists>a b c. \<forall>v d. \<exists>r n. overlayScript v d = a @ r \<and> read_literal r = Some (valid_text v, b @ itoa n @ c)"
    using read_json_string by metis
qed

end
