(* ===== verification/Workflow_Engine.thy ===== *)
theory Workflow_Engine
  imports Config_Rules Page_Scripts
begin

section \<open>The workflow engine\<close>

text \<open>
  \<^verbatim>\<open>internal/workflow/engine.go\<close>: rules triggered by MQTT messages, the time of day, webhooks,
  touches or idle time run their actions on the browser and the display. The two Go interfaces
  \<^verbatim>\<open>Browser\<close> and \<^verbatim>\<open>Hardware\<close> are the record \<open>api\<close> of functions on a world \<open>'w\<close> that includes the
  clock; a call returns the text of its error, if any, and the world after it. The record \<open>Engine\<close> has the fields of the Go type;
  \<open>en_journal\<close> holds the runs handed to the event journal, oldest first. Operations run one at a
  time here; \<open>Workflow_Props\<close> looks at the check and the start of a rule as separate steps.
\<close>

subsection \<open>State and interfaces\<close>

record Run =
  run_RuleID :: string
  run_Rule :: string
  run_Source :: string
  run_At :: time
  run_Result :: string
  run_Error :: string
  run_Skipped :: string

record Engine =
  en_lastFired :: "string \<rightharpoonup> time"
  en_timeFired :: "string \<rightharpoonup> int \<times> string"
  en_idleFired :: "string \<rightharpoonup> bool"
  en_history :: "Run list"
  en_started :: time
  en_displayTimer :: "(time \<times> string) option"
  en_journal :: "Run list"

definition new_engine :: "time \<Rightarrow> Engine" where
  "new_engine now =
     \<lparr>en_lastFired = Map.empty, en_timeFired = Map.empty, en_idleFired = Map.empty, en_history = [],
      en_started = now, en_displayTimer = None, en_journal = []\<rparr>"

record 'w api =
  Now :: "'w \<Rightarrow> time"
  br_SetOverride :: "int \<Rightarrow> duration \<Rightarrow> string \<Rightarrow> 'w \<Rightarrow> string option \<times> 'w"
  br_ClearOverride :: "'w \<Rightarrow> string option \<times> 'w"
  br_Reload :: "'w \<Rightarrow> string option \<times> 'w"
  br_Evaluate :: "string \<Rightarrow> 'w \<Rightarrow> string option \<times> 'w"
  br_ShowOverlay :: "string \<Rightarrow> duration \<Rightarrow> 'w \<Rightarrow> string option \<times> 'w"
  br_ActivePage :: "'w \<Rightarrow> int"
  br_NoteDisplayPower :: "string \<Rightarrow> 'w \<Rightarrow> 'w"
  br_OverrideSource :: "'w \<Rightarrow> string option"
  br_LastActivity :: "'w \<Rightarrow> time"
  hw_present :: bool
  hw_SetDisplay :: "string \<Rightarrow> 'w \<Rightarrow> string option \<times> 'w"
  hw_SetBrightness :: "int \<Rightarrow> 'w \<Rightarrow> string option \<times> 'w"

subsection \<open>Days and windows\<close>

definition rule_dayMatches :: "weekdays \<Rightarrow> nat \<Rightarrow> bool" where
  \<comment> \<open>\<^verbatim>\<open>dayMatches\<close>\<close>
  "rule_dayMatches days weekday \<longleftrightarrow>
     days = [] \<or>
     list_ex (\<lambda>day. to_lower (trim_space day) = to_lower (take 3 (weekday_name weekday)) \<or>
       to_lower (trim_space day) = to_lower (weekday_name weekday)) days"

definition getnum :: "bool \<Rightarrow> string \<Rightarrow> (nat \<times> string) option" where
  \<comment> \<open>one or two digits, as \<^verbatim>\<open>time.Parse\<close> reads an hour (not fixed) or a minute (fixed)\<close>
  "getnum fixed s =
     (case s of
        [] \<Rightarrow> None
      | c # r \<Rightarrow>
          (case digit_val c of
             None \<Rightarrow> None
           | Some a \<Rightarrow>
               (case r of
                  [] \<Rightarrow> if fixed then None else Some (a, r)
                | d # r' \<Rightarrow>
                    (case digit_val d of
                       None \<Rightarrow> if fixed then None else Some (a, r)
                     | Some b \<Rightarrow> Some (10 * a + b, r')))))"

definition rule_clockMinutes :: "string \<Rightarrow> int option" where
  \<comment> \<open>\<^verbatim>\<open>clockMinutes\<close>, with \<^verbatim>\<open>time.Parse("15:04", ...)\<close>\<close>
  "rule_clockMinutes value =
     (case getnum False (trim_space value) of
        Some (hour, CHR '':'' # r) \<Rightarrow>
          (case getnum True r of
             Some (minute, []) \<Rightarrow> if hour < 24 \<and> minute < 60 then Some (int hour * 60 + int minute) else None
           | _ \<Rightarrow> None)
      | _ \<Rightarrow> None)"

definition inWindow :: "zone \<Rightarrow> time \<Rightarrow> string \<Rightarrow> string \<Rightarrow> bool" where
  "inWindow z now start end1 =
     (case (rule_clockMinutes start, rule_clockMinutes end1) of
        (Some from1, Some to1) \<Rightarrow>
          (let current = minute_of_day z now in
           if from1 \<le> to1 then from1 \<le> current \<and> current < to1 else from1 \<le> current \<or> current < to1)
      | _ \<Rightarrow> False)"

definition two_digits :: "int \<Rightarrow> string" where
  "two_digits n = [digit_char (nat (n div 10)), digit_char (nat (n mod 10))]"

definition format_clock :: "zone \<Rightarrow> time \<Rightarrow> string" where
  \<comment> \<open>\<^verbatim>\<open>now.Format("15:04")\<close>\<close>
  "format_clock z now = two_digits (hour_of z now) @ '':'' @ two_digits (minute_of z now)"

subsection \<open>Actions\<close>

definition workflowSource :: string where
  "workflowSource = ''workflow''"

datatype action_error = ManualOverrideActive | Failure string

definition failure :: "string option \<times> 'w \<Rightarrow> action_error option \<times> 'w" where
  "failure r = (map_option Failure (fst r), snd r)"

definition manualOverride :: "'w api \<Rightarrow> 'w \<Rightarrow> bool" where
  "manualOverride A w = (case br_OverrideSource A w of None \<Rightarrow> False | Some s \<Rightarrow> s \<noteq> workflowSource)"

definition setDisplay :: "'w api \<Rightarrow> string \<Rightarrow> 'w \<Rightarrow> string option \<times> 'w" where
  "setDisplay A pw w =
     (case hw_SetDisplay A pw w of
        (Some e, w) \<Rightarrow> (Some e, w)
      | (None, w) \<Rightarrow> (None, br_NoteDisplayPower A pw w))"

definition scheduleDisplayRevert :: "time \<Rightarrow> string \<Rightarrow> duration \<Rightarrow> Engine \<Rightarrow> Engine" where
  "scheduleDisplayRevert now pw d e =
     e\<lparr>en_displayTimer :=
         (if d \<le> 0 then None else Some (now + d, if pw = ''OFF'' then ''ON'' else ''OFF''))\<rparr>"

definition run_action ::
  "'w api \<Rightarrow> KioskConfig \<Rightarrow> RuleAction \<Rightarrow> Engine \<times> 'w \<Rightarrow> action_error option \<times> Engine \<times> 'w" where
  \<comment> \<open>\<^verbatim>\<open>Engine.action\<close>\<close>
  "run_action A k a s =
     (let (e, w) = s; d = i64 (ra_DurationSeconds a * Second); t = ra_Type a;
          call = (\<lambda>r. (fst (failure r), e, snd (failure r)))
      in if t = ''show_page'' then
           (let index = EnabledPageIndex k (ra_PageID a) in
            if index < 0 then (Some (Failure ''page is disabled or missing''), e, w)
            else if manualOverride A w then (Some ManualOverrideActive, e, w)
            else call (br_SetOverride A index (if ra_UntilResume a then 24 * Hour else d) workflowSource w))
         else if t = ''resume_playlist'' then
           (case br_OverrideSource A w of
              None \<Rightarrow> (None, e, w)
            | Some source \<Rightarrow>
                if source \<noteq> workflowSource then (Some ManualOverrideActive, e, w)
                else call (br_ClearOverride A w))
         else if t = ''click'' then call (br_Evaluate A (clickScript (ra_Value a)) w)
         else if t = ''scroll'' then call (br_Evaluate A (scrollScript (ra_Value a)) w)
         else if t = ''sound'' then call (br_Evaluate A (soundScript (ra_Value a)) w)
         else if t = ''reload'' then call (br_Reload A w)
         else if t = ''overlay'' then call (br_ShowOverlay A (ra_Value a) d w)
         else if t = ''script'' then call (br_Evaluate A (ra_Value a) w)
         else if t = ''display'' then
           (if \<not> hw_present A then (Some (Failure ''display control unavailable''), e, w)
            else let pw = to_upper (trim_space (ra_Value a)) in
              (case setDisplay A pw w of
                 (Some err, w) \<Rightarrow> (Some (Failure err), e, w)
               | (None, w) \<Rightarrow> (None, scheduleDisplayRevert (Now A w) pw d e, w)))
         else if t = ''brightness'' then
           (if \<not> hw_present A then (Some (Failure ''brightness control unavailable''), e, w)
            else (case atoi (trim_space (ra_Value a)) of
                None \<Rightarrow> (Some (Failure ''invalid number''), e, w)
              | Some v \<Rightarrow> call (hw_SetBrightness A v w)))
         else (Some (Failure (''unsupported action '' @ t)), e, w))"

subsection \<open>Running a rule\<close>

definition record_run :: "Run \<Rightarrow> Engine \<Rightarrow> Engine" where
  \<comment> \<open>\<^verbatim>\<open>Engine.record\<close>\<close>
  "record_run run e =
     e\<lparr>en_history := keep_last 50 (en_history e @ [run]), en_journal := en_journal e @ [run]\<rparr>"

fun run_actions ::
  "'w api \<Rightarrow> KioskConfig \<Rightarrow> nat \<Rightarrow> RuleAction list \<Rightarrow> string \<Rightarrow> string list \<Rightarrow> Engine \<times> 'w \<Rightarrow>
     string \<times> string list \<times> Engine \<times> 'w" where
  \<comment> \<open>the loop of \<^verbatim>\<open>execute\<close>, with \<^verbatim>\<open>run.Skipped\<close> and \<^verbatim>\<open>failures\<close>\<close>
  "run_actions A k index [] skipped failures s = (skipped, failures, s)"
| "run_actions A k index (a # actions) skipped failures s =
     (case run_action A k a s of
        (Some ManualOverrideActive, s) \<Rightarrow> run_actions A k (Suc index) actions ''manual_override'' failures s
      | (Some (Failure err), s) \<Rightarrow>
          run_actions A k (Suc index) actions skipped
            (failures @ [itoa (int index + 1) @ '' '' @ ra_Type a @ '': '' @ err]) s
      | (None, s) \<Rightarrow> run_actions A k (Suc index) actions skipped failures s)"

definition execute ::
  "'w api \<Rightarrow> KioskConfig \<Rightarrow> WorkflowRule \<Rightarrow> string \<Rightarrow> Engine \<times> 'w \<Rightarrow> string option \<times> Engine \<times> 'w" where
  "execute A k rule source s =
     (let at0 = Now A (snd s);
          (skipped, failures, e, w) = run_actions A k 0 (wr_Actions rule) '''' [] s;
          err = (if failures = [] then '''' else join ''; '' failures);
          run = \<lparr>run_RuleID = wr_ID rule, run_Rule = wr_Name rule, run_Source = source, run_At = at0,
                 run_Result = (if failures = [] then ''ok'' else ''failed''), run_Error = err,
                 run_Skipped = skipped\<rparr>
      in (if err = '''' then None else Some err, record_run run e, w))"

definition blocked :: "'w api \<Rightarrow> zone \<Rightarrow> KioskConfig \<Rightarrow> WorkflowRule \<Rightarrow> time \<Rightarrow> Engine \<times> 'w \<Rightarrow> string" where
  \<comment> \<open>a missing entry of \<^verbatim>\<open>lastFired\<close> reads as the zero time\<close>
  "blocked A z k rule now s =
     (let (e, w) = s; last1 = (case en_lastFired e (wr_ID rule) of None \<Rightarrow> 0 | Some t \<Rightarrow> t);
          c = wr_Conditions rule
      in if 0 < wr_CooldownSeconds rule \<and> last1 \<noteq> 0 \<and> now - last1 < i64 (wr_CooldownSeconds rule * Second)
         then ''cooldown''
         else if \<not> rule_dayMatches (rc_Days c) (weekday_of z now) then ''day''
         else if rc_Start c \<noteq> '''' \<and> \<not> inWindow z now (rc_Start c) (rc_End c) then ''time_window''
         else if rc_ActivePageID c \<noteq> '''' \<and> EnabledPageIndex k (rc_ActivePageID c) \<noteq> br_ActivePage A w
         then ''active_page''
         else '''')"

definition fire ::
  "'w api \<Rightarrow> zone \<Rightarrow> KioskConfig \<Rightarrow> WorkflowRule \<Rightarrow> string \<Rightarrow> Engine \<times> 'w \<Rightarrow> string option \<times> Engine \<times> 'w" where
  "fire A z k rule source s =
     (let (e, w) = s; now = Now A w; reason = blocked A z k rule now s in
      if reason \<noteq> '''' then
        (None, record_run \<lparr>run_RuleID = wr_ID rule, run_Rule = wr_Name rule, run_Source = source,
                 run_At = now, run_Result = ''skipped'', run_Error = '''', run_Skipped = reason\<rparr> e, w)
      else execute A k rule source (e\<lparr>en_lastFired := (en_lastFired e)(wr_ID rule \<mapsto> now)\<rparr>, w))"

subsection \<open>Triggers\<close>

definition time_due :: "zone \<Rightarrow> time \<Rightarrow> WorkflowRule \<Rightarrow> bool" where
  \<comment> \<open>the first test in the loop of \<^verbatim>\<open>checkTime\<close>\<close>
  "time_due z now rule \<longleftrightarrow>
     \<not> wr_Disabled rule \<and> rt_Type (wr_Trigger rule) = ''time'' \<and>
     rt_At (wr_Trigger rule) = format_clock z now \<and>
     rule_dayMatches (rt_Days (wr_Trigger rule)) (weekday_of z now)"

definition check_time_rule ::
  "'w api \<Rightarrow> zone \<Rightarrow> KioskConfig \<Rightarrow> time \<Rightarrow> WorkflowRule \<Rightarrow> Engine \<times> 'w \<Rightarrow> Engine \<times> 'w" where
  \<comment> \<open>one round of the loop of \<^verbatim>\<open>checkTime\<close>\<close>
  "check_time_rule A z k now rule s =
     (let (e, w) = s; stamp = (daynum z now, format_clock z now) in
      if \<not> time_due z now rule then s
      else if en_timeFired e (wr_ID rule) = Some stamp then s
      else snd (fire A z k rule ''time'' (e\<lparr>en_timeFired := (en_timeFired e)(wr_ID rule \<mapsto> stamp)\<rparr>, w)))"

definition checkTime :: "'w api \<Rightarrow> zone \<Rightarrow> KioskConfig \<Rightarrow> Engine \<times> 'w \<Rightarrow> Engine \<times> 'w" where
  "checkTime A z k s = fold (check_time_rule A z k (Now A (snd s))) (k_Rules k) s"

definition idle_due :: "duration \<Rightarrow> WorkflowRule \<Rightarrow> bool" where
  "idle_due idle rule \<longleftrightarrow>
     \<not> wr_Disabled rule \<and> rt_Type (wr_Trigger rule) = ''idle'' \<and>
     i64 (rt_IdleSeconds (wr_Trigger rule) * Second) \<le> idle"

definition check_idle_rule ::
  "'w api \<Rightarrow> zone \<Rightarrow> KioskConfig \<Rightarrow> duration \<Rightarrow> WorkflowRule \<Rightarrow> Engine \<times> 'w \<Rightarrow> Engine \<times> 'w" where
  "check_idle_rule A z k idle rule s =
     (let (e, w) = s in
      if \<not> idle_due idle rule then s
      else if en_idleFired e (wr_ID rule) = Some True then s
      else snd (fire A z k rule ''idle'' (e\<lparr>en_idleFired := (en_idleFired e)(wr_ID rule \<mapsto> True)\<rparr>, w)))"

definition idle_time :: "'w api \<Rightarrow> Engine \<times> 'w \<Rightarrow> duration" where
  "idle_time A s =
     (let (e, w) = s; last1 = br_LastActivity A w;
          last1 = (if last1 = 0 \<or> last1 < en_started e then en_started e else last1)
      in Now A w - last1)"

definition checkIdle :: "'w api \<Rightarrow> zone \<Rightarrow> KioskConfig \<Rightarrow> Engine \<times> 'w \<Rightarrow> Engine \<times> 'w" where
  "checkIdle A z k s = fold (check_idle_rule A z k (idle_time A s)) (k_Rules k) s"

definition HandleActivity :: "'w api \<Rightarrow> zone \<Rightarrow> KioskConfig \<Rightarrow> Engine \<times> 'w \<Rightarrow> Engine \<times> 'w" where
  "HandleActivity A z k s =
     fold (\<lambda>rule s. if \<not> wr_Disabled rule \<and> rt_Type (wr_Trigger rule) = ''touch''
                    then snd (fire A z k rule ''touch'' s) else s)
       (k_Rules k) ((fst s)\<lparr>en_idleFired := Map.empty\<rparr>, snd s)"

fun rule_topics :: "string list \<Rightarrow> WorkflowRule list \<Rightarrow> string list" where
  "rule_topics seen [] = []"
| "rule_topics seen (rule # rules) =
     (let topic = trim_space (rt_Topic (wr_Trigger rule)) in
      if wr_Disabled rule \<or> rt_Type (wr_Trigger rule) \<noteq> ''mqtt'' \<or> topic = '''' \<or> topic \<in> set seen
      then rule_topics seen rules
      else topic # rule_topics (topic # seen) rules)"

definition Topics :: "KioskConfig \<Rightarrow> string list" where
  "Topics k = rule_topics [] (k_Rules k)"

definition listens :: "string \<Rightarrow> WorkflowRule \<Rightarrow> bool" where
  "listens topic rule \<longleftrightarrow>
     \<not> wr_Disabled rule \<and> rt_Type (wr_Trigger rule) = ''mqtt'' \<and>
     trim_space (rt_Topic (wr_Trigger rule)) = topic"

definition payload_matches :: "string \<Rightarrow> WorkflowRule \<Rightarrow> bool" where
  "payload_matches payload rule \<longleftrightarrow>
     (let expected = trim_space (rt_Payload (wr_Trigger rule)) in
      expected = '''' \<or> equal_fold expected (trim_space payload))"

definition HandleMQTT ::
  "'w api \<Rightarrow> zone \<Rightarrow> KioskConfig \<Rightarrow> string \<Rightarrow> string \<Rightarrow> Engine \<times> 'w \<Rightarrow> bool \<times> Engine \<times> 'w" where
  "HandleMQTT A z k topic payload s =
     fold (\<lambda>rule (listened, s).
        if \<not> listens topic rule then (listened, s)
        else if \<not> payload_matches payload rule then (True, s)
        else (True, snd (fire A z k rule ''mqtt'' s)))
       (k_Rules k) (False, s)"

datatype webhook_error = ErrUnknownRule | RunFailed string

definition HandleWebhook ::
  "'w api \<Rightarrow> zone \<Rightarrow> KioskConfig \<Rightarrow> string \<Rightarrow> string \<Rightarrow> Engine \<times> 'w \<Rightarrow> webhook_error option \<times> Engine \<times> 'w" where
  "HandleWebhook A z k id1 token s =
     (case find (\<lambda>rule. \<not> (wr_ID rule \<noteq> id1 \<or> rt_Type (wr_Trigger rule) \<noteq> ''webhook'' \<or> wr_Disabled rule))
             (k_Rules k) of
        None \<Rightarrow> (Some ErrUnknownRule, s)
      | Some rule \<Rightarrow>
          (let expected = trim_space (rt_Token (wr_Trigger rule)) in
           if expected = '''' \<or> expected \<noteq> token then (Some ErrUnknownRule, s)
           else (case fire A z k rule ''webhook'' s of (err, s) \<Rightarrow> (map_option RunFailed err, s))))"

definition Test_rule :: "'w api \<Rightarrow> KioskConfig \<Rightarrow> string \<Rightarrow> Engine \<times> 'w \<Rightarrow> webhook_error option \<times> Engine \<times> 'w" where
  \<comment> \<open>\<^verbatim>\<open>Engine.Test\<close>\<close>
  "Test_rule A k id1 s =
     (case find (\<lambda>rule. wr_ID rule = id1) (k_Rules k) of
        None \<Rightarrow> (Some ErrUnknownRule, s)
      | Some rule \<Rightarrow> (case execute A k rule ''test'' s of (err, s) \<Rightarrow> (map_option RunFailed err, s)))"

definition History :: "Engine \<Rightarrow> Run list" where
  "History e = rev (en_history e)"

definition display_timer_fires :: "'w api \<Rightarrow> Engine \<times> 'w \<Rightarrow> Engine \<times> 'w" where
  \<comment> \<open>the function of \<^verbatim>\<open>time.AfterFunc\<close> in \<^verbatim>\<open>scheduleDisplayRevert\<close>, when its time has come\<close>
  "display_timer_fires A s =
     (let (e, w) = s in
      case en_displayTimer e of
        None \<Rightarrow> s
      | Some (t, pw) \<Rightarrow>
          if Now A w < t then s else (e\<lparr>en_displayTimer := None\<rparr>, snd (setDisplay A pw w)))"

end
