(* ===== verification/Workflow_Props.thy ===== *)
theory Workflow_Props
  imports Workflow_Engine Scheduler
begin

section \<open>Properties of the workflow engine\<close>

text \<open>
  What each step of the engine leaves alone and what it records; the locale \<open>marked_rounds\<close> for
  triggers that fire once per mark (time rules once a day, idle rules once per idle period); the
  cooldown; webhooks; and the locale \<open>browser_contract\<close> for what a rule may do to an override that
  somebody else has set, interpreted on the overrides of the scheduler.
\<close>

subsection \<open>What a step leaves alone\<close>

definition tables :: "Engine \<Rightarrow> (string \<rightharpoonup> time) \<times> (string \<rightharpoonup> int \<times> string) \<times> (string \<rightharpoonup> bool) \<times> Run list \<times> time \<times> Run list" where
  "tables e = (en_lastFired e, en_timeFired e, en_idleFired e, en_history e, en_started e, en_journal e)"

lemma run_action_tables: "run_action A k a (e, w) = (r, e', w') \<Longrightarrow> tables e' = tables e"
  by (auto simp: run_action_def Let_def tables_def scheduleDisplayRevert_def
      split: if_splits option.splits prod.splits)

lemma run_actions_tables:
  "run_actions A k n actions sk f (e, w) = (sk', f', e', w') \<Longrightarrow> tables e' = tables e"
proof (induction actions arbitrary: n sk f e w)
  case (Cons a actions)
  obtain r e1 w1 where r: "run_action A k a (e, w) = (r, e1, w1)" by (cases "run_action A k a (e, w)") auto
  have "tables e' = tables e1"
  proof (cases r)
    case None
    with Cons r show ?thesis by auto
  next
    case (Some x)
    with Cons r show ?thesis by (cases x) auto
  qed
  then show ?case using run_action_tables [OF r] by simp
qed simp

lemma execute_records:
  assumes "execute A k rule source (e, w) = (err, e', w')"
  shows "\<exists>run. run_RuleID run = wr_ID rule \<and> run_Source run = source \<and>
     run_Result run \<noteq> ''skipped'' \<and> tables e' = tables (record_run run e)"
proof -
  obtain sk f e1 w1 where r: "run_actions A k 0 (wr_Actions rule) '''' [] (e, w) = (sk, f, e1, w1)"
    by (metis prod_cases4)
  from run_actions_tables [OF r] assms show ?thesis
    by (auto simp: execute_def r Let_def record_run_def tables_def)
qed

lemma fire_records:
  assumes "fire A z k rule source (e, w) = (err, e', w')"
  shows "\<exists>run. run_RuleID run = wr_ID rule \<and> run_Source run = source \<and>
     (run_Result run = ''skipped'' \<longleftrightarrow> blocked A z k rule (Now A w) (e, w) \<noteq> '''') \<and>
     tables e' = tables (record_run run (e\<lparr>en_lastFired :=
       (if blocked A z k rule (Now A w) (e, w) = '''' then (en_lastFired e)(wr_ID rule \<mapsto> Now A w)
        else en_lastFired e)\<rparr>))"
proof (cases "blocked A z k rule (Now A w) (e, w) = ''''")
  case True
  then have "execute A k rule source (e\<lparr>en_lastFired := (en_lastFired e)(wr_ID rule \<mapsto> Now A w)\<rparr>, w) = (err, e', w')"
    using assms by (simp add: fire_def Let_def)
  from execute_records [OF this] True show ?thesis by (auto simp: tables_def)
next
  case False
  let ?run = "\<lparr>run_RuleID = wr_ID rule, run_Rule = wr_Name rule, run_Source = source, run_At = Now A w,
     run_Result = ''skipped'', run_Error = '''', run_Skipped = blocked A z k rule (Now A w) (e, w)\<rparr>"
  from False assms have "e' = record_run ?run e" by (auto simp: fire_def Let_def)
  with False show ?thesis by (intro exI [of _ ?run]) (simp add: tables_def)
qed

lemma fire_engine:
  obtains run where "run_RuleID run = wr_ID rule" "run_Source run = source"
    "en_journal (fst (snd (fire A z k rule source (e, w)))) = en_journal e @ [run]"
    "en_history (fst (snd (fire A z k rule source (e, w)))) = keep_last 50 (en_history e @ [run])"
    "en_timeFired (fst (snd (fire A z k rule source (e, w)))) = en_timeFired e"
    "en_idleFired (fst (snd (fire A z k rule source (e, w)))) = en_idleFired e"
    "en_started (fst (snd (fire A z k rule source (e, w)))) = en_started e"
    "en_lastFired (fst (snd (fire A z k rule source (e, w)))) =
       (if blocked A z k rule (Now A w) (e, w) = '''' then (en_lastFired e)(wr_ID rule \<mapsto> Now A w)
        else en_lastFired e)"
proof -
  obtain err e' w' where r: "fire A z k rule source (e, w) = (err, e', w')" by (metis prod_cases3)
  from fire_records [OF r] that show ?thesis by (auto simp: r tables_def record_run_def)
qed

subsection \<open>Triggers that fire once per mark\<close>

locale marked_rounds =
  fixes round1 :: "'x \<Rightarrow> 's \<Rightarrow> 's" and due :: "'x \<Rightarrow> bool" and mark :: "'x \<Rightarrow> 'k :: linorder"
    and marked :: "'s \<Rightarrow> 'k option" and fired :: "'s \<Rightarrow> nat"
  assumes marked_round: "marked (round1 x s) = (if due x then Some (mark x) else marked s)"
    and fired_round: "fired (round1 x s) = fired s + (if due x \<and> marked s \<noteq> Some (mark x) then 1 else 0)"
begin

lemma fired_rounds:
  assumes "sorted (map mark (filter due xs))"
    and "\<And>m x. marked s = Some m \<Longrightarrow> x \<in> set xs \<Longrightarrow> due x \<Longrightarrow> m \<le> mark x"
  shows "fired (fold round1 xs s) = fired s + card (mark ` {x \<in> set xs. due x} - set_option (marked s))"
  using assms
proof (induction xs arbitrary: s)
  case (Cons x xs)
  let ?s = "round1 x s" and ?M = "mark ` {x \<in> set xs. due x}"
  show ?case
  proof (cases "due x")
    case False
    then have "{y \<in> set (x # xs). due y} = {y \<in> set xs. due y}" by auto
    moreover have "fired (fold round1 xs ?s) = fired ?s + card (?M - set_option (marked ?s))"
      using Cons.prems False by (intro Cons.IH) (auto simp: marked_round)
    ultimately show ?thesis using False by (simp add: marked_round fired_round)
  next
    case True
    have later: "mark x \<le> mark y" if "y \<in> set xs" "due y" for y
      using Cons.prems(1) that True by auto
    have M: "mark ` {y \<in> set (x # xs). due y} = insert (mark x) ?M" using True by auto
    have IH: "fired (fold round1 xs ?s) = fired ?s + card (?M - {mark x})"
      using Cons.prems(1) True later Cons.IH [of ?s] by (auto simp: marked_round)
    show ?thesis
    proof (cases "marked s = Some (mark x)")
      case True
      with IH M show ?thesis by (simp add: fired_round)
    next
      case False
      have "set_option (marked s) \<inter> insert (mark x) ?M = {}"
      proof -
        have "m \<noteq> mark x \<and> m \<notin> ?M" if m: "marked s = Some m" for m
        proof -
          have "m < mark x" using Cons.prems(2) [OF m, of x] True False m by auto
          with later show ?thesis by fastforce
        qed
        then show ?thesis by (cases "marked s") auto
      qed
      then have d: "insert (mark x) ?M - set_option (marked s) = insert (mark x) ?M" by auto
      have "card (insert (mark x) ?M - set_option (marked s)) = Suc (card (?M - {mark x}))"
        unfolding d by (rule card.insert_remove) simp
      with IH M False True show ?thesis by (simp add: fired_round)
    qed
  qed
qed simp

end

definition runs_of :: "string \<Rightarrow> string \<Rightarrow> Engine \<Rightarrow> nat" where
  "runs_of id1 source e =
     length (filter (\<lambda>run. run_RuleID run = id1 \<and> run_Source run = source) (en_journal e))"

definition time_mark :: "WorkflowRule \<Rightarrow> Engine \<Rightarrow> int option" where
  \<comment> \<open>the day on which a time rule has fired last\<close>
  "time_mark rule e =
     (case en_timeFired e (wr_ID rule) of
        None \<Rightarrow> None | Some (day, clock) \<Rightarrow> if clock = rt_At (wr_Trigger rule) then Some day else None)"

definition idle_mark :: "WorkflowRule \<Rightarrow> Engine \<Rightarrow> nat option" where
  "idle_mark rule e = (if en_idleFired e (wr_ID rule) = Some True then Some 0 else None)"

lemma check_time_rule_same:
  assumes "wr_ID rule' = wr_ID rule \<longrightarrow> rule' = rule"
  shows "time_mark rule (fst (check_time_rule A z k now rule' (e, w))) =
      (if rule' = rule \<and> time_due z now rule then Some (daynum z now) else time_mark rule e)"
    and "runs_of (wr_ID rule) ''time'' (fst (check_time_rule A z k now rule' (e, w))) =
      runs_of (wr_ID rule) ''time'' e +
      (if rule' = rule \<and> time_due z now rule \<and> time_mark rule e \<noteq> Some (daynum z now) then 1 else 0)"
proof -
  let ?e = "e\<lparr>en_timeFired := (en_timeFired e)(wr_ID rule' \<mapsto> (daynum z now, format_clock z now))\<rparr>"
  obtain run where f: "run_RuleID run = wr_ID rule'" "run_Source run = ''time''"
    "en_journal (fst (snd (fire A z k rule' ''time'' (?e, w)))) = en_journal e @ [run]"
    "en_timeFired (fst (snd (fire A z k rule' ''time'' (?e, w)))) = en_timeFired ?e"
    by (rule fire_engine [of rule' "''time''" A z k ?e w]) auto
  have at1: "time_due z now rule' \<Longrightarrow> format_clock z now = rt_At (wr_Trigger rule')"
    by (simp add: time_due_def)
  show "time_mark rule (fst (check_time_rule A z k now rule' (e, w))) =
      (if rule' = rule \<and> time_due z now rule then Some (daynum z now) else time_mark rule e)"
    using assms f at1 by (auto simp: check_time_rule_def Let_def time_mark_def)
  show "runs_of (wr_ID rule) ''time'' (fst (check_time_rule A z k now rule' (e, w))) =
      runs_of (wr_ID rule) ''time'' e +
      (if rule' = rule \<and> time_due z now rule \<and> time_mark rule e \<noteq> Some (daynum z now) then 1 else 0)"
    using assms f at1
    by (auto simp: check_time_rule_def Let_def time_mark_def runs_of_def split: option.splits if_splits)
qed

lemma check_idle_rule_same:
  assumes "wr_ID rule' = wr_ID rule \<longrightarrow> rule' = rule"
  shows "idle_mark rule (fst (check_idle_rule A z k idle rule' (e, w))) =
      (if rule' = rule \<and> idle_due idle rule then Some 0 else idle_mark rule e)"
    and "runs_of (wr_ID rule) ''idle'' (fst (check_idle_rule A z k idle rule' (e, w))) =
      runs_of (wr_ID rule) ''idle'' e +
      (if rule' = rule \<and> idle_due idle rule \<and> idle_mark rule e \<noteq> Some 0 then 1 else 0)"
    and "en_started (fst (check_idle_rule A z k idle rule' (e, w))) = en_started e"
proof -
  let ?e = "e\<lparr>en_idleFired := (en_idleFired e)(wr_ID rule' \<mapsto> True)\<rparr>"
  obtain run where f: "run_RuleID run = wr_ID rule'" "run_Source run = ''idle''"
    "en_journal (fst (snd (fire A z k rule' ''idle'' (?e, w)))) = en_journal e @ [run]"
    "en_idleFired (fst (snd (fire A z k rule' ''idle'' (?e, w)))) = en_idleFired ?e"
    "en_started (fst (snd (fire A z k rule' ''idle'' (?e, w)))) = en_started e"
    by (rule fire_engine [of rule' "''idle''" A z k ?e w]) auto
  show "idle_mark rule (fst (check_idle_rule A z k idle rule' (e, w))) =
      (if rule' = rule \<and> idle_due idle rule then Some 0 else idle_mark rule e)"
    using assms f by (auto simp: check_idle_rule_def Let_def idle_mark_def)
  show "runs_of (wr_ID rule) ''idle'' (fst (check_idle_rule A z k idle rule' (e, w))) =
      runs_of (wr_ID rule) ''idle'' e +
      (if rule' = rule \<and> idle_due idle rule \<and> idle_mark rule e \<noteq> Some 0 then 1 else 0)"
    using assms f by (auto simp: check_idle_rule_def Let_def idle_mark_def runs_of_def split: if_splits)
  show "en_started (fst (check_idle_rule A z k idle rule' (e, w))) = en_started e"
    using f by (simp add: check_idle_rule_def Let_def)
qed

lemma check_time_fold:
  assumes "\<And>r. r \<in> set rules \<Longrightarrow> wr_ID r = wr_ID rule \<Longrightarrow> r = rule"
  shows "time_mark rule (fst (fold (check_time_rule A z k now) rules s)) =
      (if rule \<in> set rules \<and> time_due z now rule then Some (daynum z now) else time_mark rule (fst s)) \<and>
    runs_of (wr_ID rule) ''time'' (fst (fold (check_time_rule A z k now) rules s)) =
      runs_of (wr_ID rule) ''time'' (fst s) +
      (if rule \<in> set rules \<and> time_due z now rule \<and> time_mark rule (fst s) \<noteq> Some (daynum z now) then 1 else 0)"
  using assms
proof (induction rules arbitrary: s)
  case (Cons r rules)
  obtain e w where s: "s = (e, w)" by (cases s)
  have same: "wr_ID r = wr_ID rule \<longrightarrow> r = rule" using Cons.prems by simp
  note step = check_time_rule_same [OF same, of A z k now e w]
  have "\<And>r'. r' \<in> set rules \<Longrightarrow> wr_ID r' = wr_ID rule \<Longrightarrow> r' = rule" using Cons.prems by simp
  note IH = Cons.IH [OF this, of "check_time_rule A z k now r (e, w)"]
  show ?case using IH step by (cases "r = rule") (simp_all add: s)
qed simp

lemma check_idle_fold:
  assumes "\<And>r. r \<in> set rules \<Longrightarrow> wr_ID r = wr_ID rule \<Longrightarrow> r = rule"
  shows "idle_mark rule (fst (fold (check_idle_rule A z k idle) rules s)) =
      (if rule \<in> set rules \<and> idle_due idle rule then Some 0 else idle_mark rule (fst s)) \<and>
    runs_of (wr_ID rule) ''idle'' (fst (fold (check_idle_rule A z k idle) rules s)) =
      runs_of (wr_ID rule) ''idle'' (fst s) +
      (if rule \<in> set rules \<and> idle_due idle rule \<and> idle_mark rule (fst s) \<noteq> Some 0 then 1 else 0) \<and>
    en_started (fst (fold (check_idle_rule A z k idle) rules s)) = en_started (fst s)"
  using assms
proof (induction rules arbitrary: s)
  case (Cons r rules)
  obtain e w where s: "s = (e, w)" by (cases s)
  have same: "wr_ID r = wr_ID rule \<longrightarrow> r = rule" using Cons.prems by simp
  note step = check_idle_rule_same [OF same, of A z k idle e w]
  have "\<And>r'. r' \<in> set rules \<Longrightarrow> wr_ID r' = wr_ID rule \<Longrightarrow> r' = rule" using Cons.prems by simp
  note IH = Cons.IH [OF this, of "check_idle_rule A z k idle r (e, w)"]
  show ?case using IH step by (cases "r = rule") (simp_all add: s)
qed simp

interpretation one_time_rule: marked_rounds
  "\<lambda>(now, w) e. fst (check_time_rule A z k now rule (e, w))" "\<lambda>(now, w). time_due z now rule"
  "\<lambda>(now, w). daynum z now" "time_mark rule" "runs_of (wr_ID rule) ''time''"
  by unfold_locales (auto simp: check_time_rule_same)

interpretation one_idle_rule: marked_rounds
  "\<lambda>(idle, w) e. fst (check_idle_rule A z k idle rule (e, w))" "\<lambda>(idle, w). idle_due idle rule"
  "\<lambda>_. 0 :: nat" "idle_mark rule" "runs_of (wr_ID rule) ''idle''"
  by unfold_locales (auto simp: check_idle_rule_same)

definition time_rounds :: "'w api \<Rightarrow> zone \<Rightarrow> KioskConfig \<Rightarrow> 'w list \<Rightarrow> Engine \<Rightarrow> Engine" where
  \<comment> \<open>rounds of \<^verbatim>\<open>checkTime\<close> that find the given worlds\<close>
  "time_rounds A z k ws e = fold (\<lambda>w e. fst (checkTime A z k (e, w))) ws e"

definition idle_rounds :: "'w api \<Rightarrow> zone \<Rightarrow> KioskConfig \<Rightarrow> 'w list \<Rightarrow> Engine \<Rightarrow> Engine" where
  "idle_rounds A z k ws e = fold (\<lambda>w e. fst (checkIdle A z k (e, w))) ws e"

lemma unique_rule:
  "distinct (map wr_ID rules) \<Longrightarrow> rule \<in> set rules \<Longrightarrow> r \<in> set rules \<Longrightarrow> wr_ID r = wr_ID rule \<Longrightarrow> r = rule"
  by (metis distinct_map inj_onD)


definition demo_api :: "time api" where
  \<comment> \<open>a world that is just the time, with a browser and a display that accept everything\<close>
  "demo_api =
     \<lparr>Now = (\<lambda>w. w), br_SetOverride = (\<lambda>_ _ _ w. (None, w)), br_ClearOverride = (\<lambda>w. (None, w)),
      br_Reload = (\<lambda>w. (None, w)), br_Evaluate = (\<lambda>_ w. (None, w)), br_ShowOverlay = (\<lambda>_ _ w. (None, w)),
      br_ActivePage = (\<lambda>_. 0), br_NoteDisplayPower = (\<lambda>_ w. w), br_OverrideSource = (\<lambda>_. None),
      br_LastActivity = (\<lambda>_. 0), hw_present = True, hw_SetDisplay = (\<lambda>_ w. (None, w)),
      hw_SetBrightness = (\<lambda>_ w. (None, w))\<rparr>"

definition demo_workflow :: "string \<Rightarrow> WorkflowRule" where
  "demo_workflow kind =
     \<lparr>wr_ID = kind, wr_Name = '''', wr_Disabled = False,
      wr_Trigger = \<lparr>rt_Type = kind, rt_Topic = '''', rt_Payload = '''', rt_At = ''00:01'', rt_Days = [],
        rt_Token = ''0123456789abcdef'', rt_IdleSeconds = 60\<rparr>,
      wr_Conditions = \<lparr>rc_Days = [], rc_Start = '''', rc_End = '''', rc_ActivePageID = ''''\<rparr>,
      wr_Actions = [\<lparr>ra_Type = ''reload'', ra_PageID = '''', ra_DurationSeconds = 0, ra_UntilResume = False,
        ra_Value = ''''\<rparr>],
      wr_CooldownSeconds = 30\<rparr>"

definition demo_rules :: KioskConfig where
  "demo_rules = zero_kiosk\<lparr>k_Rules := map demo_workflow [''time'', ''idle'', ''webhook'', ''touch'']\<rparr>"

lemma demo_rules_ids: "k_Rules demo_rules = map demo_workflow [''time'', ''idle'', ''webhook'', ''touch'']"
  by (simp add: demo_rules_def)

lemma demo_rules_distinct: "distinct (map wr_ID (k_Rules demo_rules))"
  by (simp add: demo_rules_ids demo_workflow_def)


lemma HandleActivity_idle: "en_idleFired (fst (HandleActivity A z k s)) = Map.empty"
proof -
  have "en_idleFired (fst (fold (\<lambda>rule s. if \<not> wr_Disabled rule \<and> rt_Type (wr_Trigger rule) = ''touch''
      then snd (fire A z k rule ''touch'' s) else s) rules s)) = en_idleFired (fst s)" for rules s
  proof (induction rules arbitrary: s)
    case (Cons r rules)
    obtain e w where s: "s = (e, w)" by (cases s)
    show ?case unfolding s by (rule fire_engine [of r "''touch''" A z k e w]) (simp add: Cons.IH)
  qed simp
  then show ?thesis by (simp add: HandleActivity_def)
qed

text \<open>An idle rule runs once per idle period: over any rounds of the idle check without activity in
  between it is run once if some round finds the idle time long enough, and not at all otherwise;
  after an activity it is armed again.\<close>

theorem idle_rule_once:
  assumes "rule \<in> set (k_Rules k)" "distinct (map wr_ID (k_Rules k))" "idle_mark rule e = None"
  shows "runs_of (wr_ID rule) ''idle'' (idle_rounds A z k ws e) = runs_of (wr_ID rule) ''idle'' e +
      (if \<exists>w\<in>set ws. idle_due (idle_time A (e, w)) rule then 1 else 0) \<and>
    idle_mark rule (fst (HandleActivity A z k (e', w'))) = None"
proof -
  note idle_fold = check_idle_fold [where rules = "k_Rules k" and rule = rule, OF unique_rule [OF assms(2,1)]]
  have started: "idle_rounds A z k ws e = fold (\<lambda>w d. fst (fold (check_idle_rule A z k (idle_time A (e, w)))
      (k_Rules k) (d, w))) ws e" (is "_ = fold ?round ws e")
  proof -
    have "fold (\<lambda>w d. fst (checkIdle A z k (d, w))) ws d = fold ?round ws d"
      if "en_started d = en_started e" for d
      using that
    proof (induction ws arbitrary: d)
      case (Cons w ws)
      from Cons.prems have "idle_time A (d, w) = idle_time A (e, w)" by (simp add: idle_time_def Let_def)
      then have same: "fst (checkIdle A z k (d, w)) = ?round w d" by (simp add: checkIdle_def)
      have "en_started (?round w d) = en_started e" using Cons.prems by (simp add: idle_fold)
      from Cons.IH [OF this] show ?case using same by simp
    qed simp
    then show ?thesis by (simp add: idle_rounds_def)
  qed
  have m: "marked_rounds ?round (\<lambda>w. idle_due (idle_time A (e, w)) rule) (\<lambda>_. 0) (idle_mark rule)
      (runs_of (wr_ID rule) ''idle'')"
    using assms(1) by unfold_locales (simp_all add: idle_fold)
  have "runs_of (wr_ID rule) ''idle'' (idle_rounds A z k ws e) = runs_of (wr_ID rule) ''idle'' e +
      card ((\<lambda>_. 0 :: nat) ` {w \<in> set ws. idle_due (idle_time A (e, w)) rule} - set_option (idle_mark rule e))"
    using assms(3) unfolding started
    by (intro marked_rounds.fired_rounds [OF m]) (simp_all add: map_replicate_const)
  moreover have "(\<lambda>_. 0 :: nat) ` {w \<in> set ws. idle_due (idle_time A (e, w)) rule} =
      (if \<exists>w\<in>set ws. idle_due (idle_time A (e, w)) rule then {0} else {})" by auto
  ultimately show ?thesis using assms(3) HandleActivity_idle [of A z k "(e', w')"]
    by (simp add: idle_mark_def)
qed

lemma idle_rule_once_witness:
  "runs_of ''idle'' ''idle'' (idle_rounds demo_api utc_zone demo_rules [Second, 60 * Second, 65 * Second]
     (new_engine 0)) = 1"
proof -
  let ?ws = "[Second, 60 * Second, 65 * Second]" and ?rule = "demo_workflow ''idle''"
  have mem: "?rule \<in> set (k_Rules demo_rules)" by (simp add: demo_rules_ids)
  have none: "idle_mark ?rule (new_engine 0) = None" by (simp add: idle_mark_def new_engine_def)
  have "idle_due (idle_time demo_api (new_engine 0, 60 * Second)) ?rule" by code_simp
  then have "\<exists>w\<in>set ?ws. idle_due (idle_time demo_api (new_engine 0, w)) ?rule" by simp
  with idle_rule_once [OF mem demo_rules_distinct none, of demo_api utc_zone ?ws]
  have "runs_of (wr_ID ?rule) ''idle'' (idle_rounds demo_api utc_zone demo_rules ?ws (new_engine 0)) =
      runs_of (wr_ID ?rule) ''idle'' (new_engine 0) + 1" by simp
  then show ?thesis by (simp add: runs_of_def new_engine_def demo_workflow_def)
qed

subsection \<open>Cooldown\<close>

type_synonym 'w firing = "WorkflowRule \<times> string \<times> 'w"

fun fired_times :: "'w api \<Rightarrow> zone \<Rightarrow> KioskConfig \<Rightarrow> string \<Rightarrow> 'w firing list \<Rightarrow> Engine \<Rightarrow> time list" where
  \<comment> \<open>the times at which \<^verbatim>\<open>fire\<close> ran the actions of the given rule\<close>
  "fired_times A z k id1 [] e = []"
| "fired_times A z k id1 ((rule, source, w) # fs) e =
     (if wr_ID rule = id1 \<and> blocked A z k rule (Now A w) (e, w) = '''' then [Now A w] else []) @
     fired_times A z k id1 fs (fst (snd (fire A z k rule source (e, w))))"

lemma blocked_cooldown:
  assumes "blocked A z k rule now (e, w) = ''''" "0 < wr_CooldownSeconds rule"
    and "en_lastFired e (wr_ID rule) = Some t" "t \<noteq> 0"
  shows "t + i64 (wr_CooldownSeconds rule * Second) \<le> now"
  using assms by (auto simp: blocked_def Let_def split: if_splits)

lemma fired_times_after:
  assumes "\<forall>f\<in>set fs. wr_ID (fst f) = wr_ID rule \<longrightarrow> fst f = rule"
    and "0 < wr_CooldownSeconds rule" "wr_CooldownSeconds rule \<le> 86400"
    and "\<forall>f\<in>set fs. 0 < Now A (snd (snd f))" "sorted (map (\<lambda>f. Now A (snd (snd f))) fs)"
  shows "sorted_wrt (\<lambda>a b. a + wr_CooldownSeconds rule * Second \<le> b) (fired_times A z k (wr_ID rule) fs e) \<and>
     (\<forall>t. en_lastFired e (wr_ID rule) = Some t \<longrightarrow> 0 < t \<longrightarrow>
        (\<forall>b\<in>set (fired_times A z k (wr_ID rule) fs e). t + wr_CooldownSeconds rule * Second \<le> b))"
  using assms(1,4,5)
proof (induction fs arbitrary: e)
  case (Cons f fs)
  obtain r s w where f: "f = (r, s, w)" by (cases f)
  let ?e = "fst (snd (fire A z k r s (e, w)))" and ?C = "wr_CooldownSeconds rule * Second"
  have C: "i64 ?C = ?C" using assms(2,3) by (simp add: i64_id Second_def)
  have IH: "sorted_wrt (\<lambda>a b. a + ?C \<le> b) (fired_times A z k (wr_ID rule) fs ?e) \<and>
     (\<forall>t. en_lastFired ?e (wr_ID rule) = Some t \<longrightarrow> 0 < t \<longrightarrow>
        (\<forall>b\<in>set (fired_times A z k (wr_ID rule) fs ?e). t + ?C \<le> b))"
    using Cons.prems by (intro Cons.IH) (auto simp: f)
  have last1: "en_lastFired ?e = (if blocked A z k r (Now A w) (e, w) = ''''
      then (en_lastFired e)(wr_ID r \<mapsto> Now A w) else en_lastFired e)"
    by (rule fire_engine [of r s A z k e w]) simp
  have pos: "0 < Now A w" using Cons.prems(2) f by auto
  show ?case
  proof (cases "wr_ID r = wr_ID rule \<and> blocked A z k r (Now A w) (e, w) = ''''")
    case True
    then have r: "r = rule" using Cons.prems(1) f by auto
    have later: "\<forall>b\<in>set (fired_times A z k (wr_ID rule) fs ?e). Now A w + ?C \<le> b"
      using IH last1 True pos by simp
    have "t + ?C \<le> Now A w" if "en_lastFired e (wr_ID rule) = Some t" "0 < t" for t
      using blocked_cooldown [of A z k rule "Now A w" e w t] True r that assms(2) C by simp
    moreover have "0 \<le> ?C" using assms(2) by (simp add: Second_def)
    ultimately show ?thesis using IH later True by (force simp: f)
  next
    case False
    then have "en_lastFired ?e (wr_ID rule) = en_lastFired e (wr_ID rule)" using last1 by auto
    with IH False show ?thesis by (auto simp: f)
  qed
qed simp



subsection \<open>Webhooks\<close>

text \<open>With a configuration that passes validation, a webhook call runs something only when it names
  an enabled webhook rule and presents its token, which has at least 16 characters; any other call
  changes nothing and is answered as for an unknown rule.\<close>

theorem webhook_needs_token:
  assumes "validateRules k = None"
    and "\<not> (\<exists>rule\<in>set (k_Rules k). wr_ID rule = id1 \<and> \<not> wr_Disabled rule \<and>
      rt_Type (wr_Trigger rule) = ''webhook'' \<and> token = trim_space (rt_Token (wr_Trigger rule)) \<and> 16 \<le> length token)"
  shows "HandleWebhook A z k id1 token s = (Some ErrUnknownRule, s)"
proof (cases "find (\<lambda>rule. \<not> (wr_ID rule \<noteq> id1 \<or> rt_Type (wr_Trigger rule) \<noteq> ''webhook'' \<or> wr_Disabled rule))
    (k_Rules k)")
  case (Some rule)
  then have r: "rule \<in> set (k_Rules k)" "wr_ID rule = id1" "\<not> wr_Disabled rule"
      "rt_Type (wr_Trigger rule) = ''webhook''" by (auto simp: find_Some_iff)
  obtain seen where "validate_rule (map pg_PageID (k_Pages k)) seen rule = None"
    using validateRules_rule [OF assms(1) r(1)] by blast
  then have "validate_trigger (wr_Trigger rule) = None"
    by (auto simp: validate_rule_def Let_def split: if_splits option.splits)
  with r(4) have "16 \<le> length (trim_space (rt_Token (wr_Trigger rule)))"
    by (simp add: validate_trigger_def split: if_splits)
  with r assms(2) have "trim_space (rt_Token (wr_Trigger rule)) \<noteq> token" by blast
  with Some show ?thesis by (simp add: HandleWebhook_def)
qed (simp add: HandleWebhook_def)

lemma webhook_needs_token_witness:
  "HandleWebhook demo_api utc_zone demo_rules ''webhook'' ''0123456789abcde'' (new_engine 0, 5) =
     (Some ErrUnknownRule, (new_engine 0, 5))"
proof -
  have "validateRules demo_rules = None" by code_simp
  from webhook_needs_token [OF this, of "''webhook''" "''0123456789abcde''"] show ?thesis by simp
qed

subsection \<open>Valid commands\<close>

text \<open>C33: An action of a validated configuration asks the display hardware only for ON or OFF and for a
  brightness from 1 to 100: how the hardware treats any other request makes no difference, and the
  action is one that the engine knows.\<close>

theorem validated_actions_command:
  assumes "validateRules k = None" "rule \<in> set (k_Rules k)" "a \<in> set (wr_Actions rule)"
    and "f ''ON'' = hw_SetDisplay A ''ON''" "f ''OFF'' = hw_SetDisplay A ''OFF''"
    and "\<And>v. 1 \<le> v \<Longrightarrow> v \<le> 100 \<Longrightarrow> g v = hw_SetBrightness A v"
  shows "run_action (A\<lparr>hw_SetDisplay := f, hw_SetBrightness := g\<rparr>) k a s = run_action A k a s \<and>
     ra_Type a \<in> {''show_page'', ''resume_playlist'', ''click'', ''scroll'', ''sound'', ''reload'', ''overlay'',
       ''script'', ''display'', ''brightness''}"
proof -
  obtain seen where "validate_rule (map pg_PageID (k_Pages k)) seen rule = None"
    using validateRules_rule [OF assms(1,2)] by blast
  then have "validateRuleAction a (map pg_PageID (k_Pages k)) = None"
    using validate_rule_action assms(3) by blast
  then have v: "ra_Type a = ''display'' \<Longrightarrow> to_upper (trim_space (ra_Value a)) \<in> {''ON'', ''OFF''}"
    "ra_Type a = ''brightness'' \<Longrightarrow> \<exists>v. atoi (trim_space (ra_Value a)) = Some v \<and> 1 \<le> v \<and> v \<le> 100"
    and known: "ra_Type a \<in> {''show_page'', ''resume_playlist'', ''click'', ''scroll'', ''sound'', ''reload'', ''overlay'',
       ''script'', ''display'', ''brightness''}"
    by (auto simp: validateRuleAction_def Let_def split: if_splits option.splits)
  obtain e w where s: "s = (e, w)" by (cases s)
  let ?A = "A\<lparr>hw_SetDisplay := f, hw_SetBrightness := g\<rparr>"
  have "setDisplay ?A p w = setDisplay A p w" if "p \<in> {''ON'', ''OFF''}" for p
    using that assms(4,5) by (auto simp: setDisplay_def split: prod.split option.split)
  then have "run_action ?A k a s = run_action A k a s"
  proof (cases "ra_Type a = ''display'' \<or> ra_Type a = ''brightness''")
    case True
    then show ?thesis
    proof
      assume t: "ra_Type a = ''display''"
      then have "setDisplay ?A (to_upper (trim_space (ra_Value a))) w = setDisplay A (to_upper (trim_space (ra_Value a))) w"
        using v(1) \<open>\<And>p. p \<in> {''ON'', ''OFF''} \<Longrightarrow> setDisplay ?A p w = setDisplay A p w\<close> by blast
      with t show ?thesis by (simp add: run_action_def s Let_def split: prod.split option.split)
    next
      assume t: "ra_Type a = ''brightness''"
      with v(2) obtain n where "atoi (trim_space (ra_Value a)) = Some n" "1 \<le> n" "n \<le> 100" by blast
      with t assms(6) show ?thesis by (simp add: run_action_def s)
    qed
  next
    case False
    then show ?thesis by (simp add: run_action_def s manualOverride_def Let_def split: option.split)
  qed
  with known show ?thesis by blast
qed

definition demo_lamp :: KioskConfig where
  "demo_lamp = zero_kiosk\<lparr>k_Rules := [(demo_workflow ''touch'')\<lparr>wr_Actions :=
     [\<lparr>ra_Type = ''brightness'', ra_PageID = '''', ra_DurationSeconds = 0, ra_UntilResume = False,
       ra_Value = ''40''\<rparr>]\<rparr>]\<rparr>"

lemma validated_actions_command_witness:
  "run_action (demo_api\<lparr>hw_SetBrightness := \<lambda>v w. if 1 \<le> v \<and> v \<le> 100 then (None, w) else (Some ''burnt'', w)\<rparr>)
     demo_lamp (hd (wr_Actions (hd (k_Rules demo_lamp)))) (new_engine 0, 5) =
   run_action demo_api demo_lamp (hd (wr_Actions (hd (k_Rules demo_lamp)))) (new_engine 0, 5)"
proof -
  let ?rule = "hd (k_Rules demo_lamp)" and ?a = "hd (wr_Actions (hd (k_Rules demo_lamp)))"
    and ?g = "\<lambda>v w. if 1 \<le> v \<and> v \<le> 100 then (None, w) else (Some ''burnt'', w)"
  have v: "validateRules demo_lamp = None" by code_simp
  have m: "?rule \<in> set (k_Rules demo_lamp)" "?a \<in> set (wr_Actions ?rule)"
    by (simp_all add: demo_lamp_def)
  have "demo_api\<lparr>hw_SetDisplay := hw_SetDisplay demo_api, hw_SetBrightness := ?g\<rparr> = demo_api\<lparr>hw_SetBrightness := ?g\<rparr>"
    by simp
  moreover have "1 \<le> v \<Longrightarrow> v \<le> 100 \<Longrightarrow> ?g v = hw_SetBrightness demo_api v" for v
    by (simp add: demo_api_def)
  ultimately show ?thesis
    using validated_actions_command [OF v m, where A = demo_api and g = ?g and f = "hw_SetDisplay demo_api"
      and s = "(new_engine 0, 5)"] by (simp only: refl simp_thms)
qed

subsection \<open>Clock times of rules\<close>

lemma format_clock_shape:
  "\<exists>a b c d. format_clock z now = [digit_char a, digit_char b, CHR '':'', digit_char c, digit_char d] \<and>
     a < 10 \<and> b < 10 \<and> c < 10 \<and> d < 10"
proof -
  have "0 \<le> local_seconds z now mod 86400" "local_seconds z now mod 86400 < 86400"
    "0 \<le> local_seconds z now mod 3600" "local_seconds z now mod 3600 < 3600" by simp_all
  then have "0 \<le> hour_of z now" "hour_of z now < 24" "0 \<le> minute_of z now" "minute_of z now < 60"
    unfolding hour_of_def minute_of_def by linarith+
  then have "nat (hour_of z now div 10) < 10" "nat (minute_of z now div 10) < 10"
    "nat (hour_of z now mod 10) < 10" "nat (minute_of z now mod 10) < 10" by linarith+
  then show ?thesis unfolding format_clock_def two_digits_def by auto
qed

lemma digit_char_neq: "n < 10 \<Longrightarrow> digit_char n \<noteq> CHR '' '' \<and> digit_char n \<noteq> CHR ''+''"
proof -
  have "CHR '' '' \<notin> set digits" "CHR ''+'' \<notin> set digits" by code_simp+
  then show "n < 10 \<Longrightarrow> ?thesis" using digit_char_props by metis
qed

text \<open>A time rule whose clock time is written with a space in front or with a sign passes validation
  but never becomes due.\<close>

theorem odd_clock_never_due:
  assumes "rt_At (wr_Trigger rule) = '' 08:00'' \<or> rt_At (wr_Trigger rule) = ''+8:00''"
  shows "validate_trigger ((wr_Trigger rule)\<lparr>rt_Type := ''time''\<rparr>) = None \<and> \<not> time_due z now rule"
proof
  have "validClock '' 08:00''" "validClock ''+8:00''" by code_simp+
  with assms show "validate_trigger ((wr_Trigger rule)\<lparr>rt_Type := ''time''\<rparr>) = None"
    by (auto simp: validate_trigger_def)
  obtain a b c d where "format_clock z now = [digit_char a, digit_char b, CHR '':'', digit_char c, digit_char d]"
      "a < 10" using format_clock_shape by blast
  with assms digit_char_neq [of a] show "\<not> time_due z now rule" by (auto simp: time_due_def)
qed

lemma odd_clock_never_due_witness:
  "\<not> time_due utc_zone (8 * Hour) ((demo_workflow ''time'')\<lparr>wr_Trigger :=
      (wr_Trigger (demo_workflow ''time''))\<lparr>rt_At := '' 08:00''\<rparr>\<rparr>)"
  using odd_clock_never_due [of "(demo_workflow ''time'')\<lparr>wr_Trigger :=
      (wr_Trigger (demo_workflow ''time''))\<lparr>rt_At := '' 08:00''\<rparr>\<rparr>" utc_zone "8 * Hour"] by simp

subsection \<open>Overrides set by somebody else\<close>

definition call_keeps :: "'w api \<Rightarrow> ('w \<Rightarrow> ManualOverride) \<Rightarrow> ('w \<Rightarrow> int) \<Rightarrow> 'w \<Rightarrow> 'w \<Rightarrow> bool" where
  \<comment> \<open>a call that takes time but changes neither the override nor the page\<close>
  "call_keeps A ov page w w' \<longleftrightarrow> ov w' = ov w \<and> page w' = page w \<and> Now A w \<le> Now A w'"

definition held :: "ManualOverride \<Rightarrow> time \<Rightarrow> bool" where
  \<comment> \<open>an override of another source is in force\<close>
  "held o1 t \<longleftrightarrow> ov_Active o1 \<and> ov_Source o1 \<noteq> workflowSource \<and> (\<forall>u. ov_Until o1 = Some u \<longrightarrow> t < u)"

lemma held_earlier: "held o1 t \<Longrightarrow> s \<le> t \<Longrightarrow> held o1 s"
  by (auto simp: held_def)

lemma call_keeps_refl: "call_keeps A ov page w w"
  by (simp add: call_keeps_def)

lemma call_keeps_trans:
  "call_keeps A ov page w1 w2 \<Longrightarrow> call_keeps A ov page w2 w3 \<Longrightarrow> call_keeps A ov page w1 w3"
  by (auto simp: call_keeps_def)

locale browser_contract =
  fixes A :: "'w api" and ov :: "'w \<Rightarrow> ManualOverride" and page :: "'w \<Rightarrow> int"
  assumes override_source: "held (ov w) (Now A w) \<Longrightarrow> br_OverrideSource A w = Some (ov_Source (ov w))"
    and set_time: "Now A w \<le> Now A (snd (br_SetOverride A i d s w))"
    and clear_time: "Now A w \<le> Now A (snd (br_ClearOverride A w))"
    and calls_keep: "call_keeps A ov page w (snd (br_Reload A w))"
      "call_keeps A ov page w (snd (br_Evaluate A x w))"
      "call_keeps A ov page w (snd (br_ShowOverlay A x d w))"
      "call_keeps A ov page w (br_NoteDisplayPower A x w)"
      "call_keeps A ov page w (snd (hw_SetDisplay A x w))"
      "call_keeps A ov page w (snd (hw_SetBrightness A v w))"
begin

lemma setDisplay_keeps: "setDisplay A p w = (r, w') \<Longrightarrow> call_keeps A ov page w w'"
proof -
  assume s: "setDisplay A p w = (r, w')"
  obtain e w1 where d: "hw_SetDisplay A p w = (e, w1)" by (cases "hw_SetDisplay A p w")
  have "call_keeps A ov page w w1" using calls_keep(5) [of w p] d by simp
  then show ?thesis using s d calls_keep(4) [of w1 p]
    by (cases e) (auto simp: setDisplay_def intro: call_keeps_trans)
qed

lemma action_keeps:
  assumes "run_action A k a (e, w) = (r, e', w')"
  shows "Now A w \<le> Now A w' \<and> (held (ov w) (Now A w) \<longrightarrow> call_keeps A ov page w w')"
proof (cases "ra_Type a = ''display''")
  case True
  show ?thesis
  proof (cases "hw_present A")
    case p: True
    obtain err w1 where d: "setDisplay A (to_upper (trim_space (ra_Value a))) w = (err, w1)"
      by (cases "setDisplay A (to_upper (trim_space (ra_Value a))) w")
    with p True assms have "w' = w1" by (auto simp: run_action_def Let_def split: option.splits)
    with setDisplay_keeps [OF d] show ?thesis by (auto simp: call_keeps_def)
  qed (use True assms in \<open>simp add: run_action_def call_keeps_refl\<close>)
next
  case False
  note keeps = calls_keep [unfolded call_keeps_def]
  show ?thesis
  proof (cases "held (ov w) (Now A w)")
    case True
    then have "br_OverrideSource A w = Some (ov_Source (ov w))" "ov_Source (ov w) \<noteq> workflowSource"
      using override_source by (simp_all add: held_def)
    with False assms keeps show ?thesis
      by (auto simp: run_action_def Let_def manualOverride_def failure_def call_keeps_def
          split: if_splits option.splits)
  next
    case not_held: False
    with False assms keeps set_time clear_time show ?thesis
      by (auto simp: run_action_def Let_def failure_def call_keeps_def split: if_splits option.splits)
  qed
qed

lemma actions_keep:
  assumes "run_actions A k n actions sk f (e, w) = (sk', f', e', w')"
  shows "Now A w \<le> Now A w' \<and> (held (ov w) (Now A w') \<longrightarrow> call_keeps A ov page w w')"
  using assms
proof (induction actions arbitrary: n sk f e w)
  case (Cons a actions)
  obtain r e1 w1 where r: "run_action A k a (e, w) = (r, e1, w1)" by (metis prod_cases3)
  obtain n1 sk1 f1 where "run_actions A k n1 actions sk1 f1 (e1, w1) = (sk', f', e', w')"
    using Cons.prems r by (auto split: option.splits action_error.splits)
  then have rest: "Now A w1 \<le> Now A w'" "held (ov w1) (Now A w') \<Longrightarrow> call_keeps A ov page w1 w'"
    using Cons.IH by blast+
  note first = action_keeps [OF r]
  have "call_keeps A ov page w w'" if h: "held (ov w) (Now A w')"
  proof -
    have "held (ov w) (Now A w)" by (rule held_earlier [OF h]) (use first rest(1) in linarith)
    then have k1: "call_keeps A ov page w w1" using first by blast
    then have "held (ov w1) (Now A w')" using h by (simp add: call_keeps_def)
    with rest(2) k1 show ?thesis by (blast intro: call_keeps_trans)
  qed
  with first rest(1) show ?case by auto
qed (auto simp: call_keeps_refl)

lemma fire_keeps:
  assumes "fire A z k rule source (e, w) = (err, e', w')" "held (ov w) (Now A w')"
  shows "call_keeps A ov page w w'"
proof (cases "blocked A z k rule (Now A w) (e, w) = ''''")
  case True
  let ?e = "e\<lparr>en_lastFired := (en_lastFired e)(wr_ID rule \<mapsto> Now A w)\<rparr>"
  obtain sk f e1 w1 where r: "run_actions A k 0 (wr_Actions rule) '''' [] (?e, w) = (sk, f, e1, w1)"
    by (metis prod_cases4)
  from True assms(1) have "w' = w1" by (auto simp: fire_def execute_def r Let_def)
  with actions_keep [OF r] assms(2) show ?thesis by blast
next
  case False
  with assms(1) show ?thesis by (auto simp: fire_def Let_def call_keeps_refl)
qed

end

record kiosk_world =
  kw_now :: time
  kw_sched :: Sched
  kw_activity :: time

definition pass :: "(kiosk_world \<Rightarrow> string option \<times> nat) \<Rightarrow> kiosk_world \<Rightarrow> string option \<times> kiosk_world" where
  \<comment> \<open>a call that only takes time: its error and the nanoseconds it takes\<close>
  "pass answer w = (fst (answer w), w\<lparr>kw_now := kw_now w + int (snd (answer w))\<rparr>)"

definition kiosk_api ::
  "sky \<Rightarrow> KioskConfig \<Rightarrow> Store \<Rightarrow> (kiosk_world \<Rightarrow> page_result) \<Rightarrow> (kiosk_world \<Rightarrow> string option \<times> nat) \<Rightarrow> kiosk_world api" where
  \<comment> \<open>the browser supervisor as the engine sees it; \<open>result\<close> and \<open>answer\<close> are what page switches and
    other calls come to\<close>
  "kiosk_api env k store result answer =
     \<lparr>Now = kw_now,
      br_SetOverride = (\<lambda>i d source w.
        let w = snd (pass answer w);
            (ok, b) = SetOverride (kw_now w) k i d source (result w) (kw_sched w)
        in (if ok then None else Some ''page'', w\<lparr>kw_sched := b\<rparr>)),
      br_ClearOverride = (\<lambda>w.
        case ClearOverride env (kw_now w) k store (result w) (kw_sched w) of
          None \<Rightarrow> (Some ''panic'', w)
        | Some (_, b) \<Rightarrow> (None, (snd (pass answer w))\<lparr>kw_sched := b\<rparr>)),
      br_Reload = pass answer,
      br_Evaluate = (\<lambda>_. pass answer),
      br_ShowOverlay = ShowOverlay (\<lambda>_. pass answer),
      br_ActivePage = (\<lambda>w. sc_active (kw_sched w)),
      br_NoteDisplayPower = (\<lambda>p w. w\<lparr>kw_sched := NoteDisplayPower p (kw_sched w)\<rparr>),
      br_OverrideSource = (\<lambda>w. OverrideSource (kw_now w) (kw_sched w)),
      br_LastActivity = kw_activity,
      hw_present = True,
      hw_SetDisplay = (\<lambda>_. pass answer),
      hw_SetBrightness = (\<lambda>_. pass answer)\<rparr>"

lemma pass_keeps: "call_keeps (kiosk_api env k store result answer) (\<lambda>w. sc_override (kw_sched w))
    (\<lambda>w. sc_active (kw_sched w)) w (snd (pass answer w))"
  by (simp add: call_keeps_def pass_def kiosk_api_def)

interpretation kiosk_browser: browser_contract "kiosk_api env k store result answer"
  "\<lambda>w. sc_override (kw_sched w)" "\<lambda>w. sc_active (kw_sched w)"
proof unfold_locales
  let ?A = "kiosk_api env k store result answer"
  let ?keeps = "call_keeps ?A (\<lambda>w. sc_override (kw_sched w)) (\<lambda>w. sc_active (kw_sched w))"
  fix w x d v i s
  show "held (sc_override (kw_sched w)) (Now ?A w) \<Longrightarrow> br_OverrideSource ?A w = Some (ov_Source (sc_override (kw_sched w)))"
    by (auto simp: held_def kiosk_api_def OverrideSource_def Let_def not_le split: option.splits)
  show "Now ?A w \<le> Now ?A (snd (br_SetOverride ?A i d s w))"
    by (simp add: kiosk_api_def pass_def Let_def split: prod.split)
  show "Now ?A w \<le> Now ?A (snd (br_ClearOverride ?A w))"
    by (simp add: kiosk_api_def pass_def split: option.split prod.split)
  show "?keeps w (snd (br_Reload ?A w))" "?keeps w (snd (br_Evaluate ?A x w))"
    "?keeps w (snd (hw_SetDisplay ?A x w))" "?keeps w (snd (hw_SetBrightness ?A v w))"
    using pass_keeps [of env k store result answer w] by (simp_all add: kiosk_api_def)
  show "?keeps w (snd (br_ShowOverlay ?A x d w))"
    using pass_keeps [of env k store result answer w] call_keeps_refl
    by (auto simp: kiosk_api_def ShowOverlay_def Let_def)
  show "?keeps w (br_NoteDisplayPower ?A x w)"
    by (simp add: call_keeps_def kiosk_api_def NoteDisplayPower_def Let_def)
qed

text \<open>C32: A manual override beats the rules: while an override that the admin interface or Home Assistant
  has set lasts, no rule that fires changes it or the page on screen, whatever its actions are.\<close>

theorem manual_override_beats_rules:
  assumes "fire (kiosk_api env k store result answer) z k rule source (e, w) = (err, e', w')"
    and "ov_Active (sc_override (kw_sched w))" "ov_Source (sc_override (kw_sched w)) \<noteq> ''workflow''"
    and "\<And>u. ov_Until (sc_override (kw_sched w)) = Some u \<Longrightarrow> kw_now w' < u"
  shows "sc_override (kw_sched w') = sc_override (kw_sched w) \<and> sc_active (kw_sched w') = sc_active (kw_sched w)"
proof -
  have "held (sc_override (kw_sched w)) (Now (kiosk_api env k store result answer) w')"
    using assms(2-4) by (simp add: held_def workflowSource_def kiosk_api_def)
  from kiosk_browser.fire_keeps [OF assms(1) this] show ?thesis by (simp add: call_keeps_def)
qed

definition demo_kiosk :: kiosk_world where
  "demo_kiosk =
     \<lparr>kw_now = Hour,
      kw_sched =
       \<lparr>sc_active = 1,
        sc_override = \<lparr>ov_Active = True, ov_Page = 1, ov_Source = ''admin'', ov_Started = Some 1,
          ov_Until = Some (2 * Hour)\<rparr>,
        sc_rotationIndex = 0, sc_rotationUntil = 0, sc_rotationCycles = 0, sc_insertShowing = False,
        sc_insertReturn = 0, sc_scheduler = no_status, sc_running = True, sc_started = 1,
        sc_idleBlanked = False, sc_lastMaintenance = 0, sc_memoryBaseline = 0, sc_baselineAfter = 0,
        sc_growthReloadDay = None, sc_rssMB = 0, sc_displayPower = ''''\<rparr>,
      kw_activity = 0\<rparr>"

definition demo_sky0 :: sky where
  "demo_sky0 = \<lparr>zone_of = utc_zone, SunTimes = (\<lambda>_ _ _. (0, 0, ''''))\<rparr>"

definition demo_show :: KioskConfig where
  "demo_show = zero_kiosk\<lparr>
     k_Pages := map (\<lambda>i. zero_page\<lparr>pg_PageID := i, pg_URL := ''http://p''\<rparr>) [''a'', ''b''],
     k_Rules := [(demo_workflow ''touch'')\<lparr>wr_Actions :=
       [\<lparr>ra_Type = ''show_page'', ra_PageID = ''a'', ra_DurationSeconds = 0, ra_UntilResume = True,
         ra_Value = ''''\<rparr>]\<rparr>]\<rparr>"

lemma manual_override_beats_rules_witness:
  "\<exists>err e' w'. fire (kiosk_api demo_sky0 demo_show New (\<lambda>_. Shown) (\<lambda>_. (None, 5))) utc_zone demo_show
     (hd (k_Rules demo_show)) ''touch'' (new_engine 0, demo_kiosk) = (err, e', w') \<and>
     sc_active (kw_sched w') = 1 \<and> ov_Source (sc_override (kw_sched w')) = ''admin''"
proof -
  let ?r = "fire (kiosk_api demo_sky0 demo_show New (\<lambda>_. Shown) (\<lambda>_. (None, 5))) utc_zone demo_show
     (hd (k_Rules demo_show)) ''touch'' (new_engine 0, demo_kiosk)"
  obtain err e' w' where r: "?r = (err, e', w')" by (metis prod_cases3)
  have "kw_now (snd (snd ?r)) < 2 * Hour" by code_simp
  then have "kw_now w' < 2 * Hour" unfolding r by simp
  moreover have until: "ov_Until (sc_override (kw_sched demo_kiosk)) = Some (2 * Hour)"
    and source: "ov_Active (sc_override (kw_sched demo_kiosk))" "ov_Source (sc_override (kw_sched demo_kiosk)) = ''admin''"
    and page: "sc_active (kw_sched demo_kiosk) = 1" by (simp_all add: demo_kiosk_def)
  ultimately have "\<And>u. ov_Until (sc_override (kw_sched demo_kiosk)) = Some u \<Longrightarrow> kw_now w' < u" by simp
  from manual_override_beats_rules [OF r source(1) _ this] r source page show ?thesis by simp
qed

subsection \<open>What the engine records\<close>

definition recorded :: "Engine \<Rightarrow> bool" where
  \<comment> \<open>the history holds the last fifty runs of the journal\<close>
  "recorded e \<longleftrightarrow> en_history e = keep_last 50 (en_journal e)"

lemma record_run_recorded: "recorded e \<Longrightarrow> recorded (record_run run e)"
  by (simp add: recorded_def record_run_def keep_last_keep_last)

lemma fire_recorded: "recorded (fst s) \<Longrightarrow> recorded (fst (snd (fire A z k rule source s)))"
proof -
  assume r: "recorded (fst s)"
  obtain e w where s: "s = (e, w)" by (cases s)
  show ?thesis unfolding s
    by (rule fire_engine [of rule source A z k e w]) (use r s in \<open>simp add: recorded_def keep_last_keep_last\<close>)
qed

lemma execute_recorded: "recorded (fst s) \<Longrightarrow> recorded (fst (snd (execute A k rule source s)))"
proof -
  assume r: "recorded (fst s)"
  obtain e w where s: "s = (e, w)" by (cases s)
  obtain err e' w' where x: "execute A k rule source (e, w) = (err, e', w')" by (metis prod_cases3)
  from execute_records [OF x] r show ?thesis
    by (auto simp: s x recorded_def record_run_def tables_def keep_last_keep_last)
qed

lemma fold_recorded:
  "(\<And>x s. recorded (fst s) \<Longrightarrow> recorded (fst (f x s))) \<Longrightarrow> recorded (fst s) \<Longrightarrow> recorded (fst (fold f xs s))"
  by (induction xs arbitrary: s) auto

inductive engine_step :: "'w api \<Rightarrow> zone \<Rightarrow> KioskConfig \<Rightarrow> Engine \<times> 'w \<Rightarrow> Engine \<times> 'w \<Rightarrow> bool"
  for A :: "'w api" and z :: zone and k :: KioskConfig where
  time_step: "engine_step A z k s (checkTime A z k s)"
| idle_step: "engine_step A z k s (checkIdle A z k s)"
| activity_step: "engine_step A z k s (HandleActivity A z k s)"
| mqtt_step: "HandleMQTT A z k topic payload s = (listened, s') \<Longrightarrow> engine_step A z k s s'"
| webhook_step: "HandleWebhook A z k i token s = (err, s') \<Longrightarrow> engine_step A z k s s'"
| test_step: "Test_rule A k i s = (err, s') \<Longrightarrow> engine_step A z k s s'"
| timer_step: "engine_step A z k s (display_timer_fires A s)"
| world_step: "engine_step A z k (e, w) (e, w')"

inductive_cases engine_stepE: "engine_step A z k s s'"

lemma engine_step_recorded: "engine_step A z k s s' \<Longrightarrow> recorded (fst s) \<Longrightarrow> recorded (fst s')"
proof (induction rule: engine_step.induct)
  case (time_step s)
  have "recorded (fst (check_time_rule A z k now rule s))" if "recorded (fst s)" for now rule s
    using that fire_recorded [of "((fst s)\<lparr>en_timeFired := m\<rparr>, snd s)" for m]
    by (auto simp: check_time_rule_def Let_def recorded_def split: prod.splits)
  then show ?case using time_step fold_recorded [of "check_time_rule A z k (Now A (snd s))"]
    by (simp add: checkTime_def)
next
  case (idle_step s)
  have "recorded (fst (check_idle_rule A z k idle rule s))" if "recorded (fst s)" for idle rule s
    using that fire_recorded [of "((fst s)\<lparr>en_idleFired := m\<rparr>, snd s)" for m]
    by (auto simp: check_idle_rule_def Let_def recorded_def split: prod.splits)
  then show ?case using idle_step fold_recorded [of "check_idle_rule A z k (idle_time A s)"]
    by (simp add: checkIdle_def)
next
  case (activity_step s)
  then show ?case unfolding HandleActivity_def
    by (intro fold_recorded) (auto intro: fire_recorded, simp add: recorded_def)
next
  case (mqtt_step topic payload s listened s')
  let ?f = "\<lambda>rule (listened, s). if \<not> listens topic rule then (listened, s)
        else if \<not> payload_matches payload rule then (True, s) else (True, snd (fire A z k rule ''mqtt'' s))"
  have "recorded (fst (snd (fold ?f rules (l, s))))" if "recorded (fst s)" for rules l s
    using that
  proof (induction rules arbitrary: l s)
    case (Cons r rules)
    note fired = fire_recorded [OF Cons.prems, of A z k r "''mqtt''"]
    show ?case
      using Cons.IH [OF Cons.prems] Cons.IH [OF fired]
      by (cases "listens topic r"; cases "payload_matches payload r") simp_all
  qed simp
  from this [OF mqtt_step(2), of "k_Rules k" False]
  have "recorded (fst (snd (HandleMQTT A z k topic payload s)))" by (simp only: HandleMQTT_def)
  with mqtt_step(1) show ?case by simp
next
  case (webhook_step i token s err s')
  then show ?case using fire_recorded [of s]
    by (auto simp: HandleWebhook_def Let_def split: option.splits if_splits prod.splits) (metis fst_conv snd_conv)
next
  case (test_step i s err s')
  then show ?case using execute_recorded [of s]
    by (auto simp: Test_rule_def split: option.splits prod.splits) (metis fst_conv snd_conv)
next
  case (timer_step s)
  then show ?case
    by (auto simp: display_timer_fires_def Let_def recorded_def split: prod.splits option.splits)
qed simp

text \<open>Whatever happens, the history shown to the administrator is the last fifty runs handed to the
  journal, newest first.\<close>

theorem history_is_recent_journal:
  assumes "(engine_step A z k)\<^sup>*\<^sup>* (new_engine t, w) (e, w')"
  shows "History e = rev (keep_last 50 (en_journal e)) \<and> length (History e) \<le> 50"
proof -
  have "recorded (fst s')" if "(engine_step A z k)\<^sup>*\<^sup>* s s'" "recorded (fst s)" for s s'
    using that by (induction rule: rtranclp_induct) (auto intro: engine_step_recorded)
  from this [OF assms] have "recorded e" by (simp add: recorded_def new_engine_def keep_last_def)
  then show ?thesis by (simp add: History_def recorded_def)
qed

lemma history_is_recent_journal_witness:
  "length (History (fst (HandleActivity demo_api utc_zone demo_rules (new_engine 0, 5)))) \<le> 50"
proof -
  have "(engine_step demo_api utc_zone demo_rules)\<^sup>*\<^sup>* (new_engine 0, 5)
      (HandleActivity demo_api utc_zone demo_rules (new_engine 0, 5))"
    by (intro r_into_rtranclp activity_step)
  then have "(engine_step demo_api utc_zone demo_rules)\<^sup>*\<^sup>* (new_engine 0, 5)
      (fst (HandleActivity demo_api utc_zone demo_rules (new_engine 0, 5)),
       snd (HandleActivity demo_api utc_zone demo_rules (new_engine 0, 5)))" by simp
  from history_is_recent_journal [OF this] show ?thesis ..
qed

end
