(* ===== verification/Updater_Version.thy ===== *)
theory Updater_Version
  imports Go_Prelude "HOL-Library.List_Lexorder" "HOL-Library.Char_ord" "HOL-Library.Product_Lexorder"
begin

section \<open>Versions and releases\<close>

text \<open>
  The version comparison and the choice of a release in \<^verbatim>\<open>internal/updater/updater.go\<close>. A version is
  ordered by a key: its numbers without trailing zeros, whether it is a final release, and its
  pre-release identifiers; the keys are compared by the lexicographic orders of the library. The
  refinement lemma says that \<^verbatim>\<open>compareVersion\<close> decides this linear order, so that it is transitive
  and total, and the choice of the newest release rests on it.
\<close>

subsection \<open>Comparing versions\<close>

definition is_digit :: "char \<Rightarrow> bool" where
  "is_digit c \<longleftrightarrow> digit_val c \<noteq> None"

definition marks_prerelease :: "char \<Rightarrow> bool" where
  "marks_prerelease c \<longleftrightarrow> c = CHR ''-'' \<or> c = CHR ''~''"

definition isPrerelease :: "string \<Rightarrow> bool" where
  "isPrerelease version \<longleftrightarrow> list_ex marks_prerelease (trim_prefix version ''v'')"

definition prereleaseOf :: "string \<Rightarrow> string" where
  "prereleaseOf version = tl (dropWhile (\<lambda>c. \<not> marks_prerelease c) (trim_prefix version ''v''))"

definition field_value :: "string \<Rightarrow> int" where
  \<comment> \<open>the inner loop of \<^verbatim>\<open>versionParts\<close>: the digits at the start, wrapping at 64 bits\<close>
  "field_value field =
     foldl (\<lambda>value c. i64 (value * 10 + int (the (digit_val c)))) 0 (takeWhile is_digit field)"

definition core_fields :: "string \<Rightarrow> string list" where
  "core_fields version =
     split_at CHR ''.'' (takeWhile (\<lambda>c. \<not> marks_prerelease c) (trim_prefix version ''v''))"

definition versionParts :: "string \<Rightarrow> int list" where
  "versionParts version = map field_value (core_fields version)"

fun fields_func :: "(char \<Rightarrow> bool) \<Rightarrow> string \<Rightarrow> string \<Rightarrow> string list" where
  \<comment> \<open>\<^verbatim>\<open>strings.FieldsFunc\<close>, with the field read so far\<close>
  "fields_func sep cur [] = (if cur = [] then [] else [cur])"
| "fields_func sep cur (c # s) =
     (if sep c then (if cur = [] then [] else [cur]) @ fields_func sep [] s
      else fields_func sep (cur @ [c]) s)"

definition split_ident :: "string \<Rightarrow> string list" where
  \<comment> \<open>the body of the loop of \<^verbatim>\<open>prereleaseIdentifiers\<close>\<close>
  "split_ident field =
     (let word = takeWhile (\<lambda>c. \<not> is_digit c) field; number = dropWhile (\<lambda>c. \<not> is_digit c) field in
      if word \<noteq> [] \<and> number \<noteq> [] \<and> list_all is_digit number then [to_lower word, number]
      else [to_lower field])"

definition prereleaseIdentifiers :: "string \<Rightarrow> string list" where
  "prereleaseIdentifiers label =
     concat (map split_ident (fields_func (\<lambda>c. c = CHR ''.'' \<or> c = CHR ''-'') [] label))"

definition string_compare :: "string \<Rightarrow> string \<Rightarrow> int" where
  \<comment> \<open>\<^verbatim>\<open>strings.Compare\<close>\<close>
  "string_compare a b = (if a < b then - 1 else if a = b then 0 else 1)"

definition compare_ident :: "string \<Rightarrow> string \<Rightarrow> int" where
  \<comment> \<open>the \<^verbatim>\<open>switch\<close> of \<^verbatim>\<open>comparePrerelease\<close>; 0 lets the loop go on\<close>
  "compare_ident a b =
     (case (atoi a, atoi b) of
        (Some an, Some bn) \<Rightarrow> i64 (an - bn)
      | (Some _, None) \<Rightarrow> - 1
      | (None, Some _) \<Rightarrow> 1
      | (None, None) \<Rightarrow> string_compare a b)"

fun compare_idents :: "string list \<Rightarrow> string list \<Rightarrow> int" where
  "compare_idents (a # as) (b # bs) =
     (if compare_ident a b \<noteq> 0 then compare_ident a b else compare_idents as bs)"
| "compare_idents as bs = int (length as) - int (length bs)"

definition comparePrerelease :: "string \<Rightarrow> string \<Rightarrow> int" where
  "comparePrerelease left right =
     compare_idents (prereleaseIdentifiers left) (prereleaseIdentifiers right)"

fun compare_parts :: "int list \<Rightarrow> int list \<Rightarrow> int" where
  \<comment> \<open>the loop of \<^verbatim>\<open>compareVersion\<close>: a missing part counts as zero\<close>
  "compare_parts [] [] = 0"
| "compare_parts (a # as) [] = (if a \<noteq> 0 then i64 (a - 0) else compare_parts as [])"
| "compare_parts [] (b # bs) = (if 0 \<noteq> b then i64 (0 - b) else compare_parts [] bs)"
| "compare_parts (a # as) (b # bs) = (if a \<noteq> b then i64 (a - b) else compare_parts as bs)"

definition compareVersion :: "string \<Rightarrow> string \<Rightarrow> int" where
  "compareVersion left right =
     (let c = compare_parts (versionParts left) (versionParts right);
          leftPre = isPrerelease left; rightPre = isPrerelease right
      in if c \<noteq> 0 then c
         else if leftPre \<and> \<not> rightPre then - 1
         else if rightPre \<and> \<not> leftPre then 1
         else if leftPre \<and> rightPre then comparePrerelease (prereleaseOf left) (prereleaseOf right)
         else 0)"

subsection \<open>The order of versions\<close>

datatype ident = Number int | Word string

instantiation ident :: linorder
begin

fun less_eq_ident :: "ident \<Rightarrow> ident \<Rightarrow> bool" where
  "less_eq_ident (Number m) (Number n) \<longleftrightarrow> m \<le> n"
| "less_eq_ident (Number m) (Word s) \<longleftrightarrow> True"
| "less_eq_ident (Word s) (Number n) \<longleftrightarrow> False"
| "less_eq_ident (Word s) (Word t) \<longleftrightarrow> s \<le> t"

definition less_ident :: "ident \<Rightarrow> ident \<Rightarrow> bool" where
  "less_ident a b \<longleftrightarrow> a \<le> b \<and> \<not> b \<le> (a :: ident)"

instance
proof
  fix x y z :: ident
  show "(x < y) = (x \<le> y \<and> \<not> y \<le> x)" by (rule less_ident_def)
  show "x \<le> x" by (cases x) auto
  show "x \<le> y \<Longrightarrow> y \<le> z \<Longrightarrow> x \<le> z" by (cases x; cases y; cases z) auto
  show "x \<le> y \<Longrightarrow> y \<le> x \<Longrightarrow> x = y" by (cases x; cases y) auto
  show "x \<le> y \<or> y \<le> x" by (cases x; cases y) auto
qed

end

lemma less_ident_simps [simp]:
  "Number m < Number n \<longleftrightarrow> m < n" "Number m < Word s" "\<not> Word s < Number n" "Word s < Word t \<longleftrightarrow> s < t"
  by (auto simp: less_ident_def)

definition ord3 :: "'a :: linorder \<Rightarrow> 'a \<Rightarrow> int" where
  "ord3 a b = (if a < b then - 1 else if a = b then 0 else 1)"

lemma ord3_zero [simp]: "ord3 a b = 0 \<longleftrightarrow> a = b" "ord3 a a = 0"
  by (auto simp: ord3_def)

lemma ord3_pair: "ord3 (a, b) (c, d) = (if a \<noteq> c then ord3 a c else ord3 b d)"
  by (auto simp: ord3_def less_prod_def)

lemma Nil_less [simp]: "[] < xs \<longleftrightarrow> xs \<noteq> []"
  for xs :: "'a :: linorder list"
  by (cases xs) auto

lemma ord3_Cons: "ord3 (x # xs) (y # ys) = (if x \<noteq> y then ord3 x y else ord3 xs ys)"
  by (auto simp: ord3_def)

definition ident_of :: "string \<Rightarrow> ident" where
  "ident_of s = (case atoi s of Some n \<Rightarrow> Number n | None \<Rightarrow> Word s)"

fun strip_zeros :: "int list \<Rightarrow> int list" where
  "strip_zeros [] = []"
| "strip_zeros (x # xs) = (let r = strip_zeros xs in if x = 0 \<and> r = [] then [] else x # r)"

type_synonym version_key = "int list \<times> bool \<times> ident list"

definition version_key :: "string \<Rightarrow> version_key" where
  "version_key v =
     (strip_zeros (versionParts v), \<not> isPrerelease v,
      if isPrerelease v then map ident_of (prereleaseIdentifiers (prereleaseOf v)) else [])"

definition sane_version :: "string \<Rightarrow> bool" where
  \<comment> \<open>no number has more than eighteen digits, and no pre-release identifier is a signed number\<close>
  "sane_version v \<longleftrightarrow>
     list_all (\<lambda>f. length (takeWhile is_digit f) \<le> 18) (core_fields v) \<and>
     list_all (\<lambda>s. case atoi s of None \<Rightarrow> True | Some n \<Rightarrow> 0 \<le> n) (prereleaseIdentifiers (prereleaseOf v))"

lemma field_value_range:
  assumes "length (takeWhile is_digit f) \<le> 18"
  shows "0 \<le> field_value f \<and> field_value f < 10 ^ 18"
proof -
  have "0 \<le> foldl (\<lambda>value c. i64 (value * 10 + int (the (digit_val c)))) 0 cs \<and>
      foldl (\<lambda>value c. i64 (value * 10 + int (the (digit_val c)))) 0 cs < 10 ^ length cs"
    if "list_all is_digit cs" "length cs \<le> 18" for cs
    using that
  proof (induction cs rule: rev_induct)
    case (snoc c cs)
    define v where "v = foldl (\<lambda>value c. i64 (value * 10 + int (the (digit_val c)))) 0 cs"
    have v: "0 \<le> v" "v < 10 ^ length cs" using snoc by (simp_all add: v_def)
    obtain d where d: "digit_val c = Some d" "d < 10"
    proof -
      from snoc.prems obtain d where d: "digit_val c = Some d" by (auto simp: is_digit_def)
      moreover from d have "d \<in> set [0..<10]"
        unfolding digit_val_def by (blast dest: map_of_SomeD set_zip_rightD)
      then have "d < 10" by simp
      ultimately show ?thesis using that by blast
    qed
    have "v * 10 + int d < 10 ^ length (cs @ [c])"
      using v d(2) by simp
    moreover have "(10 :: int) ^ length (cs @ [c]) \<le> 10 ^ 18"
      using snoc.prems(2) by (intro power_increasing) auto
    ultimately have r: "v * 10 + int d < 10 ^ length (cs @ [c])" "v * 10 + int d < 2 ^ 63" by auto
    with v(1) have "i64 (v * 10 + int d) = v * 10 + int d" by (intro i64_id) auto
    with r v(1) d(1) show ?case by (simp add: v_def [symmetric])
  qed simp
  note run = this
  have "list_all is_digit (takeWhile is_digit f)" by (auto simp: list_all_iff dest: set_takeWhileD)
  from run [OF this assms] have "0 \<le> field_value f" "field_value f < 10 ^ length (takeWhile is_digit f)"
    by (simp_all only: field_value_def)
  moreover have "(10 :: int) ^ length (takeWhile is_digit f) \<le> 10 ^ 18"
    using assms by (intro power_increasing) auto
  ultimately show ?thesis by auto
qed

lemma compare_parts_ord:
  assumes "list_all (\<lambda>a. 0 \<le> a \<and> a < 10 ^ 18) as" "list_all (\<lambda>b. 0 \<le> b \<and> b < 10 ^ 18) bs"
  shows "sgn (compare_parts as bs) = ord3 (strip_zeros as) (strip_zeros bs)"
  using assms
proof (induction as bs rule: compare_parts.induct)
  case (2 a as)
  then show ?case by (auto simp: i64_id ord3_def Let_def split: if_splits)
next
  case (3 b bs)
  then show ?case by (auto simp: i64_id ord3_def Let_def split: if_splits)
next
  case (4 a as b bs)
  show ?case
  proof (cases "a = b")
    case True
    with 4 show ?thesis by (auto simp: Let_def ord3_Cons ord3_def)
  next
    case False
    with 4 have "i64 (a - b) = a - b" by (intro i64_id) auto
    with False 4 show ?thesis by (auto simp: Let_def ord3_def)
  qed
qed (simp add: ord3_def)

lemma compare_ident_ord:
  assumes "case atoi a of None \<Rightarrow> True | Some n \<Rightarrow> 0 \<le> n" "case atoi b of None \<Rightarrow> True | Some n \<Rightarrow> 0 \<le> n"
  shows "sgn (compare_ident a b) = ord3 (ident_of a) (ident_of b)"
proof -
  have "i64 (m - n) = m - n" if "atoi a = Some m" "atoi b = Some n" for m n
    using that assms atoi_range [of a] atoi_range [of b] by (intro i64_id) auto
  then show ?thesis
    by (auto simp: compare_ident_def ident_of_def ord3_def string_compare_def split: option.split)
qed

lemma compare_idents_ord:
  assumes "list_all (\<lambda>s. case atoi s of None \<Rightarrow> True | Some n \<Rightarrow> 0 \<le> n) as"
    and "list_all (\<lambda>s. case atoi s of None \<Rightarrow> True | Some n \<Rightarrow> 0 \<le> n) bs"
  shows "sgn (compare_idents as bs) = ord3 (map ident_of as) (map ident_of bs)"
  using assms
proof (induction as bs rule: compare_idents.induct)
  case (1 a as b bs)
  then have c: "sgn (compare_ident a b) = ord3 (ident_of a) (ident_of b)"
    by (intro compare_ident_ord) auto
  then have "compare_ident a b = 0 \<longleftrightarrow> ident_of a = ident_of b"
    by (metis ord3_zero(1) sgn_eq_0_iff)
  with 1 c show ?case by (auto simp: ord3_Cons)
qed (auto simp: ord3_def)

lemma compareVersion_ord:
  assumes "sane_version a" "sane_version b"
  shows "sgn (compareVersion a b) = ord3 (version_key a) (version_key b)"
proof -
  have parts: "list_all (\<lambda>x. 0 \<le> x \<and> x < 10 ^ 18) (versionParts v)" if "sane_version v" for v
    using that field_value_range by (auto simp: sane_version_def versionParts_def list_all_iff)
  let ?c = "compare_parts (versionParts a) (versionParts b)"
  have c: "sgn ?c = ord3 (strip_zeros (versionParts a)) (strip_zeros (versionParts b))"
    using assms parts by (intro compare_parts_ord)
  show ?thesis
  proof (cases "?c = 0")
    case False
    then have "strip_zeros (versionParts a) \<noteq> strip_zeros (versionParts b)"
      using c by (metis ord3_zero(2) sgn_eq_0_iff)
    with False c show ?thesis by (simp add: compareVersion_def version_key_def ord3_pair)
  next
    case True
    then have eq: "strip_zeros (versionParts a) = strip_zeros (versionParts b)"
      using c by (metis ord3_zero(1) sgn_eq_0_iff)
    have "sgn (comparePrerelease (prereleaseOf a) (prereleaseOf b)) =
        ord3 (map ident_of (prereleaseIdentifiers (prereleaseOf a))) (map ident_of (prereleaseIdentifiers (prereleaseOf b)))"
      using assms by (simp add: comparePrerelease_def sane_version_def compare_idents_ord)
    with True eq show ?thesis
      by (auto simp: compareVersion_def version_key_def ord3_pair) (simp_all add: ord3_def)
  qed
qed

end
