(* ===== verification/Updater_Package.thy ===== *)
theory Updater_Package
  imports Complex_Main Updater_Version Mqtt_Packet
begin

section \<open>Release packages\<close>

text \<open>
  What the updater checks of a release package and how it runs and reports a privileged command:
  \<^verbatim>\<open>selectAsset\<close>, \<^verbatim>\<open>verify\<close>, \<^verbatim>\<open>download\<close>, \<^verbatim>\<open>progressReader\<close>, \<^verbatim>\<open>buildPrivilegedCommand\<close>, \<^verbatim>\<open>jobWriter\<close> of
  updater.go, the Debian checks of preflight.go and \<^verbatim>\<open>parseDPKGHistory\<close> of history.go. The hash
  function, the architecture and what \<^verbatim>\<open>dpkg-deb\<close> reads from a file are parameters. \<open>sh_script\<close> reads
  a command line the way a shell does; \<open>log_lines\<close> is what a log of an output should hold.
\<close>

subsection \<open>Assets and digests\<close>

record Asset =
  as_Name :: string
  as_URL :: string
  as_Digest :: string
  as_Size :: int

record githubRelease =
  gr_TagName :: string
  gr_Draft :: bool
  gr_Prerelease :: bool
  gr_HTMLURL :: string
  gr_Body :: string
  gr_Assets :: "Asset list" \<comment> \<open>\<^verbatim>\<open>githubAsset\<close> has the fields of \<^verbatim>\<open>Asset\<close>\<close>
  gr_PublishedAt :: string

definition no_asset :: Asset where
  "no_asset = \<lparr>as_Name = '''', as_URL = '''', as_Digest = '''', as_Size = 0\<rparr>"

definition selectAsset :: "string \<Rightarrow> Asset list \<Rightarrow> Asset" where
  "selectAsset arch assets =
     (case find (\<lambda>a. has_prefix (as_Name a) ''kioskmate_'' \<and> has_suffix (as_Name a) (''_'' @ arch @ ''.deb'')) assets of
        None \<Rightarrow> no_asset | Some a \<Rightarrow> a)"

definition release_version :: "githubRelease \<Rightarrow> string" where
  "release_version r = trim_prefix (gr_TagName r) ''v''"

definition release_offered :: "bool \<Rightarrow> githubRelease \<Rightarrow> bool" where
  "release_offered prerelease r \<longleftrightarrow> \<not> (gr_Draft r \<or> gr_Prerelease r \<and> \<not> prerelease)"

fun newest_from :: "bool \<Rightarrow> githubRelease option \<Rightarrow> githubRelease list \<Rightarrow> githubRelease option" where
  "newest_from prerelease best [] = best"
| "newest_from prerelease best (r # rs) =
     newest_from prerelease
       (if \<not> release_offered prerelease r then best
        else (case best of
            None \<Rightarrow> Some r
          | Some b \<Rightarrow> if 0 < compareVersion (release_version r) (release_version b) then Some r else best)) rs"

definition newestRelease :: "githubRelease list \<Rightarrow> bool \<Rightarrow> githubRelease option" where
  "newestRelease releases prerelease = newest_from prerelease None releases"

definition find_release :: "string \<Rightarrow> githubRelease list \<Rightarrow> githubRelease option" where
  \<comment> \<open>the loop of \<^verbatim>\<open>releaseVersion\<close>\<close>
  "find_release version releases =
     find (\<lambda>r. \<not> gr_Draft r \<and> release_version r = trim_prefix version ''v'') releases"

definition hex_byte :: "byte \<Rightarrow> string" where
  "hex_byte b = [''0123456789abcdef'' ! (unat b div 16), ''0123456789abcdef'' ! (unat b mod 16)]"

definition verify :: "(bytes \<Rightarrow> bytes) \<Rightarrow> bytes \<Rightarrow> string \<Rightarrow> string option" where
  "verify sha256 data digest =
     (if digest = '''' then Some ''release asset has no SHA-256 digest''
      else
        let kind = takeWhile (\<lambda>c. c \<noteq> CHR '':'') digest; rest = drop (length kind) digest in
        if rest = '''' \<or> kind \<noteq> ''sha256'' then Some (''unsupported digest: '' @ digest)
        else if concat (map hex_byte (sha256 data)) \<noteq> tl rest then Some ''sha256 verification failed''
        else None)"

subsection \<open>Downloads\<close>

definition maxPackageSize :: int where
  "maxPackageSize = 512 * 2 ^ 20"

fun limit_chunks :: "int \<Rightarrow> bytes list \<Rightarrow> bytes list" where
  \<comment> \<open>the reads of an \<^verbatim>\<open>io.LimitReader\<close>\<close>
  "limit_chunks n [] = []"
| "limit_chunks n (c # cs) =
     (if n \<le> 0 then []
      else if int (length c) \<le> n then c # limit_chunks (n - int (length c)) cs
      else [take (nat n) c])"

record progressReader =
  pr_total :: int
  pr_read :: int
  pr_last :: int

definition progress_read :: "bytes \<Rightarrow> progressReader \<times> string list \<Rightarrow> progressReader \<times> string list" where
  \<comment> \<open>\<^verbatim>\<open>progressReader.Read\<close>, with the lines appended to the job\<close>
  "progress_read chunk s =
     (let (r, out) = s; r = r\<lparr>pr_read := pr_read r + int (length chunk)\<rparr> in
      if pr_total r \<le> 0 then (r, out)
      else
        let percent = quot64 (pr_read r * 100) (pr_total r) in
        if pr_last r + 10 \<le> percent \<or> percent = 100 then
          (r\<lparr>pr_last := (if 100 \<le> percent then 100 else percent - percent mod 10)\<rparr>,
           out @ [''download progress: '' @ itoa (min percent 100) @ ''%''])
        else (r, out))"

record response =
  rs_status :: int
  rs_length :: int
  rs_body :: "bytes list" \<comment> \<open>as the reads deliver it\<close>
  rs_error :: "string option" \<comment> \<open>what ends the body, if not its end\<close>

definition download :: "string + response \<Rightarrow> int \<Rightarrow> string list \<times> (string + bytes)" where
  \<comment> \<open>the progress lines and the contents of the file\<close>
  "download answer expectedSize =
     (case answer of
        Inl e \<Rightarrow> ([], Inl e)
      | Inr resp \<Rightarrow>
          if 300 \<le> rs_status resp then ([], Inl ''download failed'')
          else if maxPackageSize < rs_length resp \<or> maxPackageSize < expectedSize
          then ([], Inl ''release package exceeds 512 MiB safety limit'')
          else
            let total = (if expectedSize \<le> 0 then rs_length resp else expectedSize);
                reads = limit_chunks (maxPackageSize + 1) (rs_body resp);
                progress = fold progress_read reads (\<lparr>pr_total = total, pr_read = 0, pr_last = 0\<rparr>, []);
                written = int (length (concat reads))
            in (snd progress,
                case rs_error resp of
                  Some e \<Rightarrow> if written \<le> maxPackageSize then Inl e
                    else Inl ''release package exceeds 512 MiB safety limit''
                | None \<Rightarrow>
                    if maxPackageSize < written then Inl ''release package exceeds 512 MiB safety limit''
                    else if 0 < expectedSize \<and> written \<noteq> expectedSize then Inl ''release package size mismatch''
                    else Inr (concat reads)))"

subsection \<open>Debian packages\<close>

definition is_space_byte :: "char \<Rightarrow> bool" where
  "is_space_byte c \<longleftrightarrow> c \<in> {CHR '' '', CHR 0x09, CHR 0x0A, CHR 0x0B, CHR 0x0C, CHR 0x0D}"

definition go_fields :: "string \<Rightarrow> string list" where
  \<comment> \<open>\<^verbatim>\<open>strings.Fields\<close>, for text whose only white space is ASCII\<close>
  "go_fields s = fields_func is_space_byte [] s"

definition requiredDiskBytes :: "int \<Rightarrow> int" where
  "requiredDiskBytes packageSize =
     i64 ((if packageSize \<le> 0 then 16 * 2 ^ 20 else packageSize) * 3 + 64 * 2 ^ 20)"

definition validateDebMetadata :: "string \<Rightarrow> string \<Rightarrow> string \<Rightarrow> string \<Rightarrow> string \<Rightarrow> string option" where
  "validateDebMetadata name version architecture expectedVersion expectedArchitecture =
     (if name \<noteq> ''kioskmate'' then Some ''unexpected Debian package name''
      else if expectedArchitecture = '''' \<or> architecture \<noteq> expectedArchitecture
      then Some ''Debian package architecture does not match''
      else if trim_prefix version ''v'' \<noteq> trim_prefix expectedVersion ''v''
      then Some ''Debian package version does not match release''
      else None)"

definition containsDebPath :: "string \<Rightarrow> string \<Rightarrow> bool" where
  "containsDebPath listing expected =
     list_ex (\<lambda>line. go_fields line \<noteq> [] \<and>
       trim_prefix (last (go_fields line)) ''/'' = trim_prefix expected ''/'') (split_at CHR 0x0A listing)"

definition containsExecutableDebPath :: "string \<Rightarrow> string \<Rightarrow> bool" where
  "containsExecutableDebPath listing expected =
     (case find (\<lambda>line. \<not> (length (go_fields line) < 2 \<or>
         trim_prefix (last (go_fields line)) ''/'' \<noteq> trim_prefix expected ''/'')) (split_at CHR 0x0A listing) of
        None \<Rightarrow> False
      | Some line \<Rightarrow> (let mode = hd (go_fields line) in 4 \<le> length mode \<and> mode ! 3 = CHR ''x''))"

record dpkg =
  deb_field :: "bytes \<Rightarrow> string \<Rightarrow> string option"
  deb_contents :: "bytes \<Rightarrow> string option"

definition validateDebPackage :: "dpkg \<Rightarrow> bool \<Rightarrow> string \<Rightarrow> bytes \<Rightarrow> string \<Rightarrow> string option" where
  "validateDebPackage d linux arch file expectedVersion =
     (if \<not> linux then Some ''Debian package validation requires Linux''
      else case deb_field d file ''Package'' of
        None \<Rightarrow> Some ''read Debian Package''
      | Some name \<Rightarrow>
          if trim_space name \<noteq> ''kioskmate'' then Some ''unexpected Debian package name''
          else (case (deb_field d file ''Architecture'', deb_field d file ''Version'') of
              (None, _) \<Rightarrow> Some ''read Debian Architecture''
            | (_, None) \<Rightarrow> Some ''read Debian Version''
            | (Some architecture, Some version) \<Rightarrow>
                (let expected = (if arch = ''arm64'' \<or> arch = ''amd64'' then arch else '''') in
                 case validateDebMetadata (trim_space name) (trim_space version) (trim_space architecture)
                        expectedVersion expected of
                   Some e \<Rightarrow> Some e
                 | None \<Rightarrow>
                     (case deb_contents d file of
                        None \<Rightarrow> Some ''read Debian package contents''
                      | Some listing \<Rightarrow>
                          if \<not> containsExecutableDebPath listing ''./usr/bin/kioskmate''
                          then Some ''Debian package is missing executable /usr/bin/kioskmate''
                          else if \<not> containsDebPath listing ''./usr/lib/systemd/user/kioskmate.service''
                          then Some ''Debian package is missing kioskmate.service''
                          else None))))"

subsection \<open>Privileged commands\<close>

record privilegeCommand =
  pc_Mode :: string
  pc_Password :: string

definition sh_quote :: "string \<Rightarrow> string" where
  \<comment> \<open>the quoting of one word for \<^verbatim>\<open>su -c\<close>\<close>
  "sh_quote part =
     CHR 0x27 # concat (map (\<lambda>c. if c = CHR 0x27
       then [CHR 0x27, CHR 0x22, CHR 0x27, CHR 0x22, CHR 0x27] else [c]) part) @ [CHR 0x27]"

definition buildPrivilegedCommand ::
  "privilegeCommand \<Rightarrow> string \<Rightarrow> string list \<Rightarrow> (string \<times> string list \<times> string) option" where
  \<comment> \<open>program, arguments and standard input; \<open>None\<close> is the error\<close>
  "buildPrivilegedCommand p command args =
     (if pc_Mode p = ''sudo'' then
        Some (''sudo'',
          (if pc_Password p \<noteq> '''' then [''-S'', ''-p'', ''''] else [''-n'']) @ command # args,
          if pc_Password p \<noteq> '''' then pc_Password p @ [CHR 0x0A] else '''')
      else if pc_Mode p = ''su'' then
        Some (''su'', [''-'', ''root'', ''-c'', join '' '' (map sh_quote (command # args))],
          pc_Password p @ [CHR 0x0A])
      else None)"

subsection \<open>The log of a command\<close>

fun replace_crlf :: "string \<Rightarrow> string" where
  "replace_crlf (a # b # s) =
     (if a = CHR 0x0D \<and> b = CHR 0x0A then CHR 0x0A # replace_crlf s else a # replace_crlf (b # s))"
| "replace_crlf s = s"

definition cr_to_lf :: "string \<Rightarrow> string" where
  "cr_to_lf = map (\<lambda>c. if c = CHR 0x0D then CHR 0x0A else c)"

definition nonblank :: "string list \<Rightarrow> string list" where
  "nonblank ls = filter (\<lambda>l. l \<noteq> '''') (map trim_space ls)"

definition job_write :: "string \<Rightarrow> string \<times> string list \<Rightarrow> string \<times> string list" where
  \<comment> \<open>\<^verbatim>\<open>jobWriter.Write\<close>: what is pending and the lines appended so far\<close>
  "job_write p s =
     (let (pending, out) = s; ls = split_at CHR 0x0A (cr_to_lf (replace_crlf (pending @ p)))
      in (last ls, out @ nonblank (butlast ls)))"

definition job_flush :: "string \<times> string list \<Rightarrow> string list" where
  "job_flush s = snd s @ nonblank [fst s]"

subsection \<open>The log of the package manager\<close>

definition dpkg_entry :: "string \<Rightarrow> string \<Rightarrow> (string \<times> string \<times> string) option" where
  \<comment> \<open>the body of the loop of \<^verbatim>\<open>parseDPKGHistory\<close>: date and time, old version, new version\<close>
  "dpkg_entry current line =
     (let f = go_fields line in
      if length f < 6 \<or> f ! 2 \<noteq> ''upgrade'' \<and> f ! 2 \<noteq> ''downgrade'' \<or> \<not> has_prefix (f ! 3) ''kioskmate:''
      then None
      else
        let fromVersion = trim_prefix (f ! 4) ''v''; target = trim_prefix (f ! 5) ''v'' in
        if target \<noteq> trim_prefix current ''v'' \<or> fromVersion = target then None
        else Some (f ! 0 @ '' '' @ f ! 1, fromVersion, target))"

definition parseDPKGHistory :: "string \<Rightarrow> string \<Rightarrow> (string \<times> string \<times> string) option" where
  \<comment> \<open>the last matching line; the entry is built from it by the caller\<close>
  "parseDPKGHistory txt current =
     (case List.map_filter (dpkg_entry current) (rev (split_at CHR 0x0A txt)) of
        [] \<Rightarrow> None | e # _ \<Rightarrow> Some e)"

subsection \<open>The newest release\<close>

lemma newest_from_max:
  assumes "list_all (\<lambda>r. sane_version (release_version r)) rs"
    and "\<And>b. best = Some b \<Longrightarrow> sane_version (release_version b) \<and> release_offered pre b"
  shows "case newest_from pre best rs of
       None \<Rightarrow> best = None \<and> (\<forall>r\<in>set rs. \<not> release_offered pre r)
     | Some m \<Rightarrow> (m \<in> set rs \<or> best = Some m) \<and> release_offered pre m \<and>
         (\<forall>r\<in>set rs \<union> set_option best. release_offered pre r \<longrightarrow>
            version_key (release_version r) \<le> version_key (release_version m))"
  using assms
proof (induction pre best rs rule: newest_from.induct)
  case (1 pre best)
  then show ?case by (cases best) auto
next
  case (2 pre best r rs)
  let ?best = "if \<not> release_offered pre r then best
        else (case best of None \<Rightarrow> Some r
          | Some b \<Rightarrow> if 0 < compareVersion (release_version r) (release_version b) then Some r else best)"
  have sane: "sane_version (release_version r)" using "2.prems"(1) by simp
  have cmp: "0 < compareVersion (release_version r) (release_version b) \<longleftrightarrow>
      version_key (release_version b) < version_key (release_version r)" if "best = Some b" for b
  proof -
    have "sgn (compareVersion (release_version r) (release_version b)) =
        ord3 (version_key (release_version r)) (version_key (release_version b))"
      using compareVersion_ord sane "2.prems"(2) [OF that] by blast
    then show ?thesis by (auto simp: ord3_def sgn_if split: if_splits)
  qed
  have IH: "case newest_from pre ?best rs of
       None \<Rightarrow> ?best = None \<and> (\<forall>r\<in>set rs. \<not> release_offered pre r)
     | Some m \<Rightarrow> (m \<in> set rs \<or> ?best = Some m) \<and> release_offered pre m \<and>
         (\<forall>r\<in>set rs \<union> set_option ?best. release_offered pre r \<longrightarrow>
            version_key (release_version r) \<le> version_key (release_version m))"
    using "2.prems" sane by (intro "2.IH") (auto split: option.splits if_splits)
  show ?case
  proof (cases "release_offered pre r")
    case False
    with IH show ?thesis by (auto split: option.splits)
  next
    case True
    show ?thesis
    proof (cases best)
      case None
      with True IH show ?thesis by (auto split: option.splits)
    next
      case (Some b)
      note ob = "2.prems"(2) [OF Some]
      show ?thesis
      proof (cases "version_key (release_version b) < version_key (release_version r)")
        case less: True
        then have best': "?best = Some r" using True Some cmp by simp
        from IH less ob show ?thesis
          unfolding best' by (auto simp: Some True cmp split: option.splits)
      next
        case False
        then have best': "?best = Some b" using True Some cmp by simp
        from IH False ob show ?thesis
          unfolding best' by (auto simp: Some True cmp split: option.splits)
      qed
    qed
  qed
qed

text \<open>C27: The comparison of versions decides a linear order: numbers first, a missing number counting as
  zero, then pre-releases before the final release, then the identifiers one by one, numbers before
  words and fewer identifiers first; the release that is offered is a largest one in this order
  among those that are neither drafts nor (unless asked for) pre-releases.\<close>

theorem newestRelease_largest:
  assumes "list_all (\<lambda>r. sane_version (release_version r)) rs"
  shows "(\<forall>r\<in>set rs. \<forall>r'\<in>set rs. sgn (compareVersion (release_version r) (release_version r')) =
       ord3 (version_key (release_version r)) (version_key (release_version r'))) \<and>
     (case newestRelease rs prerelease of
        None \<Rightarrow> \<forall>r\<in>set rs. \<not> release_offered prerelease r
      | Some m \<Rightarrow> m \<in> set rs \<and> release_offered prerelease m \<and>
          (\<forall>r\<in>set rs. release_offered prerelease r \<longrightarrow>
             version_key (release_version r) \<le> version_key (release_version m)))"
  using newest_from_max [OF assms, of None prerelease] assms compareVersion_ord
  by (auto simp: newestRelease_def list_all_iff split: option.splits)

definition demo_release :: "string \<Rightarrow> bool \<Rightarrow> githubRelease" where
  "demo_release tag pre =
     \<lparr>gr_TagName = tag, gr_Draft = False, gr_Prerelease = pre, gr_HTMLURL = '''', gr_Body = '''',
      gr_Assets = [], gr_PublishedAt = ''''\<rparr>"

lemma newestRelease_largest_witness:
  "newestRelease [demo_release ''v1.2.0-rc.2'' True, demo_release ''v1.2'' False, demo_release ''v1.2.0-rc10'' True]
     True = Some (demo_release ''v1.2'' False) \<and>
   version_key ''1.2.0-rc10'' \<le> version_key ''1.2''"
proof
  let ?rs = "[demo_release ''v1.2.0-rc.2'' True, demo_release ''v1.2'' False, demo_release ''v1.2.0-rc10'' True]"
  have sane: "list_all (\<lambda>r. sane_version (release_version r)) ?rs" by code_simp
  show n: "newestRelease ?rs True = Some (demo_release ''v1.2'' False)" by code_simp
  have v: "release_version (demo_release ''v1.2.0-rc10'' True) = ''1.2.0-rc10''"
    "release_version (demo_release ''v1.2'' False) = ''1.2''" by code_simp+
  have offered: "release_offered True (demo_release ''v1.2.0-rc10'' True)" by code_simp
  have "demo_release ''v1.2.0-rc10'' True \<in> set ?rs" by simp
  with newestRelease_largest [OF sane, of True] offered
  have "version_key (release_version (demo_release ''v1.2.0-rc10'' True)) \<le>
      version_key (release_version (demo_release ''v1.2'' False))"
    unfolding n option.case by blast
  then show "version_key ''1.2.0-rc10'' \<le> version_key ''1.2''" by (simp only: v)
qed

subsection \<open>Quoting\<close>

datatype sh_mode = Plain | Single | Double

definition plain_chars :: string where
  \<comment> \<open>characters that mean themselves in a command line\<close>
  "plain_chars = lower_letters @ upper_letters @ digits @ ''-_./=:,+@%''"

definition word_of :: "string option \<Rightarrow> string" where
  "word_of cur = (case cur of None \<Rightarrow> [] | Some w \<Rightarrow> w)"

definition add_words :: "string option \<Rightarrow> string list list \<Rightarrow> string list list" where
  \<comment> \<open>the word read so far starts the first command\<close>
  "add_words cur cs = ((case cur of None \<Rightarrow> [] | Some w \<Rightarrow> [w]) @ hd cs) # tl cs"

fun sh_script :: "sh_mode \<Rightarrow> string option \<Rightarrow> string \<Rightarrow> string list list option" where
  \<comment> \<open>the commands of a line, as lists of words; \<open>None\<close> when the shell would do more than splitting and unquoting\<close>
  "sh_script Plain cur [] = Some (add_words cur [[]])"
| "sh_script Plain cur (c # s) =
     (if c = CHR '' '' then map_option (add_words cur) (sh_script Plain None s)
      else if c = CHR '';'' then map_option (\<lambda>cs. add_words cur ([] # cs)) (sh_script Plain None s)
      else if c = CHR 0x27 then sh_script Single (Some (word_of cur)) s
      else if c = CHR 0x22 then sh_script Double (Some (word_of cur)) s
      else if c = CHR 0x5C then
        (case s of
           [] \<Rightarrow> None
         | d # t \<Rightarrow> if d = CHR 0x0A then None else sh_script Plain (Some (word_of cur @ [d])) t)
      else if c \<in> set plain_chars then sh_script Plain (Some (word_of cur @ [c])) s
      else None)"
| "sh_script Single cur [] = None"
| "sh_script Single cur (c # s) =
     (if c = CHR 0x27 then sh_script Plain (Some (word_of cur)) s
      else sh_script Single (Some (word_of cur @ [c])) s)"
| "sh_script Double cur [] = None"
| "sh_script Double cur (c # s) =
     (if c = CHR 0x22 then sh_script Plain (Some (word_of cur)) s
      else if c \<in> {CHR 0x5C, CHR ''$'', CHR 0x60} then None
      else sh_script Double (Some (word_of cur @ [c])) s)"

lemma word_of_simps [simp]: "word_of None = []" "word_of (Some w) = w"
  by (simp_all add: word_of_def)

lemma add_words_simps [simp]: "add_words None (c # cs) = c # cs" "add_words (Some w) (c # cs) = (w # c) # cs"
  by (simp_all add: add_words_def)

lemma sh_single:
  "sh_script Single (Some w) (concat (map (\<lambda>c. if c = CHR 0x27
       then [CHR 0x27, CHR 0x22, CHR 0x27, CHR 0x22, CHR 0x27] else [c]) p) @ CHR 0x27 # t) =
   sh_script Plain (Some (w @ p)) t"
  by (induction p arbitrary: w) simp_all

lemma sh_quote_word: "sh_script Plain None (sh_quote p @ t) = sh_script Plain (Some p) t"
  using sh_single [of "[]" p t] by (simp add: sh_quote_def)

lemma sh_words_join: "ws \<noteq> [] \<Longrightarrow> sh_script Plain None (join '' '' (map sh_quote ws)) = Some [ws]"
proof (induction ws rule: induct_list012)
  case (2 w)
  then show ?case using sh_quote_word [of w "[]"] by simp
next
  case (3 w v ws)
  then show ?case using sh_quote_word [of w "'' '' @ join '' '' (map sh_quote (v # ws))"] by simp
qed simp

text \<open>C28: The command line handed to su means exactly the command and its arguments to the shell, whatever
  characters they hold; with sudo they are passed as they are. The password only goes to the
  standard input.\<close>

theorem privileged_command_words:
  assumes "buildPrivilegedCommand p command args = Some (program, argv, input)"
  shows "(program = ''sudo'' \<and> (\<exists>opts. argv = opts @ command # args \<and> set opts \<subseteq> {''-S'', ''-p'', '''', ''-n''}) \<or>
      program = ''su'' \<and> (\<exists>line. argv = [''-'', ''root'', ''-c'', line] \<and>
        sh_script Plain None line = Some [command # args])) \<and>
     (input = '''' \<or> input = pc_Password p @ [CHR 0x0A])"
  using assms sh_words_join [of "command # args"]
  by (auto simp: buildPrivilegedCommand_def split: if_splits)

lemma privileged_command_words_witness:
  "\<exists>line. buildPrivilegedCommand \<lparr>pc_Mode = ''su'', pc_Password = ''x''\<rparr> ''apt-get'' [''install'', ''a'' @ [CHR 0x27] @ ''; rm b'']
      = Some (''su'', [''-'', ''root'', ''-c'', line], ''x'' @ [CHR 0x0A]) \<and>
    sh_script Plain None line = Some [[''apt-get'', ''install'', ''a'' @ [CHR 0x27] @ ''; rm b'']]"
proof -
  let ?b = "buildPrivilegedCommand \<lparr>pc_Mode = ''su'', pc_Password = ''x''\<rparr> ''apt-get'' [''install'', ''a'' @ [CHR 0x27] @ ''; rm b'']"
  obtain line where b: "?b = Some (''su'', [''-'', ''root'', ''-c'', line], ''x'' @ [CHR 0x0A])"
    by (simp add: buildPrivilegedCommand_def)
  from privileged_command_words [OF b] have "sh_script Plain None line = Some [[''apt-get'', ''install'', ''a'' @ [CHR 0x27] @ ''; rm b'']]"
    by auto
  with b show ?thesis by blast
qed

subsection \<open>Logs do not depend on the chunks\<close>

definition log_lines :: "string \<Rightarrow> string list" where
  \<comment> \<open>the lines of an output, each ended by any of the usual line ends, without blank ones\<close>
  "log_lines output = nonblank (split_at CHR 0x0A (cr_to_lf output))"

lemma split_at_append:
  "split_at c (a @ b) = butlast (split_at c a) @ split_at c (last (split_at c a) @ b)"
proof (induction a)
  case (Cons d a)
  then show ?case
    by (cases "split_at c a"; cases "split_at c (last (split_at c a) @ b)") (auto split: list.splits)
qed simp

lemma split_at_sep: "split_at c (a @ c # b) = split_at c a @ split_at c b"
  by (induction a) (auto split: list.splits)

lemma nonblank_append: "nonblank (a @ b) = nonblank a @ nonblank b"
  by (simp add: nonblank_def)

lemma nonblank_split_sep:
  "nonblank (split_at c (a @ c # b)) = nonblank (split_at c a) @ nonblank (split_at c b)"
  by (simp add: split_at_sep nonblank_append)

lemma nonblank_crlf:
  "nonblank (split_at CHR 0x0A (p @ cr_to_lf (replace_crlf s) @ t)) =
   nonblank (split_at CHR 0x0A (p @ cr_to_lf s @ t))"
proof (induction s arbitrary: p rule: replace_crlf.induct)
  case (1 a b s)
  show ?case
  proof (cases "a = CHR 0x0D \<and> b = CHR 0x0A")
    case True
    have "nonblank (split_at CHR 0x0A (CHR 0x0A # x)) = nonblank (split_at CHR 0x0A x)" for x
      by (simp add: nonblank_def)
    moreover have "nonblank (split_at CHR 0x0A (cr_to_lf (replace_crlf s) @ t)) =
        nonblank (split_at CHR 0x0A (cr_to_lf s @ t))"
      using "1.IH"(1) [OF True, of "[]"] by simp
    ultimately show ?thesis using True by (simp add: cr_to_lf_def nonblank_split_sep)
  next
    case False
    from "1.IH"(2) [OF False, of "p @ [if a = CHR 0x0D then CHR 0x0A else a]"] False
    show ?thesis by (auto simp: cr_to_lf_def)
  qed
qed (simp_all add: cr_to_lf_def)

lemma last_split_at: "c \<notin> set (last (split_at c s))"
  using split_at_parts [of "last (split_at c s)" c s] by simp

lemma cr_to_lf_last: "CHR 0x0D \<notin> set (last (split_at CHR 0x0A (cr_to_lf s)))"
proof -
  have "set (last (split_at c u)) \<subseteq> set u" for c u
  proof (induction u)
    case (Cons d u)
    then show ?case by (cases "split_at c u") auto
  qed simp
  moreover have "CHR 0x0D \<notin> set (cr_to_lf s)" by (auto simp: cr_to_lf_def)
  ultimately show ?thesis by blast
qed

lemma job_write_lines:
  assumes "\<And>t. out @ nonblank (split_at CHR 0x0A (pending @ t)) = nonblank (split_at CHR 0x0A (cr_to_lf seen @ t))"
    and "CHR 0x0D \<notin> set pending" "job_write p (pending, out) = (pending', out')"
  shows "out' @ nonblank (split_at CHR 0x0A (pending' @ t)) =
     nonblank (split_at CHR 0x0A (cr_to_lf (seen @ p) @ t))"
    and "CHR 0x0D \<notin> set pending'"
proof -
  let ?ls = "split_at CHR 0x0A (cr_to_lf (replace_crlf (pending @ p)))"
  have w: "pending' = last ?ls" "out' = out @ nonblank (butlast ?ls)"
    using assms(3) by (auto simp: job_write_def Let_def)
  have "cr_to_lf pending = pending"
    using assms(2) by (auto simp: cr_to_lf_def intro: map_idI)
  then have pend: "cr_to_lf (pending @ p) = pending @ cr_to_lf p" by (simp add: cr_to_lf_def)
  have "nonblank (butlast ?ls) @ nonblank (split_at CHR 0x0A (last ?ls @ t)) =
      nonblank (split_at CHR 0x0A (cr_to_lf (replace_crlf (pending @ p)) @ t))"
    unfolding split_at_append [of _ "cr_to_lf (replace_crlf (pending @ p))" t] nonblank_append ..
  also have "\<dots> = nonblank (split_at CHR 0x0A (cr_to_lf (pending @ p) @ t))"
    using nonblank_crlf [of "[]"] by simp
  finally have "out' @ nonblank (split_at CHR 0x0A (pending' @ t)) =
      out @ nonblank (split_at CHR 0x0A (pending @ cr_to_lf p @ t))"
    using w pend by simp
  also have "\<dots> = nonblank (split_at CHR 0x0A (cr_to_lf seen @ cr_to_lf p @ t))" by (rule assms(1))
  finally show "out' @ nonblank (split_at CHR 0x0A (pending' @ t)) =
     nonblank (split_at CHR 0x0A (cr_to_lf (seen @ p) @ t))" by (simp add: cr_to_lf_def)
  show "CHR 0x0D \<notin> set pending'" unfolding w(1) by (rule cr_to_lf_last)
qed

lemma job_writes_lines:
  assumes "fold job_write chunks (pending, out) = (pending', out')" "CHR 0x0D \<notin> set pending"
    and "\<And>t. out @ nonblank (split_at CHR 0x0A (pending @ t)) = nonblank (split_at CHR 0x0A (cr_to_lf seen @ t))"
  shows "out' @ nonblank (split_at CHR 0x0A (pending' @ t)) =
     nonblank (split_at CHR 0x0A (cr_to_lf (seen @ concat chunks) @ t))"
  using assms
proof (induction chunks arbitrary: pending out seen)
  case (Cons p chunks)
  obtain pending1 out1 where w: "job_write p (pending, out) = (pending1, out1)" by fastforce
  note step = job_write_lines [OF Cons.prems(3,2) w]
  from Cons.IH [of pending1 out1 "seen @ p"] Cons.prems(1) w step show ?case by simp
qed simp

lemma job_pending_line: "c \<notin> set s \<Longrightarrow> split_at c s = [s]"
  by (induction s) auto

text \<open>C40: The log of a command does not depend on how its output arrives: whatever the chunks, the lines
  appended to the job are the non-blank lines of the whole output, trimmed, with a carriage return,
  a line feed or both ending a line.\<close>

theorem job_log_chunks:
  "job_flush (fold job_write chunks ('''', [])) = log_lines (concat chunks)"
proof -
  obtain pending out where f: "fold job_write chunks ('''', []) = (pending, out)" by fastforce
  have "out @ nonblank (split_at CHR 0x0A (pending @ [])) =
      nonblank (split_at CHR 0x0A (cr_to_lf ([] @ concat chunks) @ []))"
    using f by (rule job_writes_lines) (simp_all add: cr_to_lf_def)
  moreover have "CHR 0x0A \<notin> set pending"
  proof (cases chunks rule: rev_cases)
    case (snoc cs c)
    with f show ?thesis using last_split_at
      by (auto simp: job_write_def Let_def split: prod.splits)
  qed (use f in simp)
  ultimately show ?thesis by (simp add: f job_flush_def log_lines_def job_pending_line)
qed

end
