(* ===== verification/Updater_Jobs.thy ===== *)
theory Updater_Jobs
  imports Updater_Package
begin

section \<open>Update jobs\<close>

text \<open>
  The update service of \<^verbatim>\<open>internal/updater\<close>: checks for releases, installation and rollback jobs, their
  history, and what a new process makes of the history. A job is an object that outlives its place
  in the job table, so objects and table are separate. What the host answers (GitHub, files, the
  package manager, the clock) is the record \<open>host\<close>; what the service does to the host is the list of
  effects. Errors are their texts, without the parts that come from the system.
\<close>

subsection \<open>Data\<close>

record Job =
  jb_ID :: string
  jb_Name :: string
  jb_Stage :: string
  jb_Target :: string
  jb_Error :: string
  jb_Started :: int
  jb_Finished :: "int option"
  jb_ExitCode :: int
  jb_Output :: "string list"

record ReleaseInfo =
  ri_CurrentVersion :: string
  ri_LatestVersion :: string
  ri_UpdateAvailable :: bool
  ri_URL :: string
  ri_Changelog :: string
  ri_Asset :: Asset
  ri_Supported :: bool
  ri_Checking :: bool
  ri_Installing :: bool
  ri_CheckedAt :: "int option"
  ri_Error :: string
  ri_Channel :: string

record HistoryEntry =
  he_ID :: string
  he_Action :: string
  he_FromVersion :: string
  he_Target :: string
  he_Status :: string
  he_Stage :: string
  he_Started :: int
  he_Finished :: "int option"
  he_Error :: string
  he_BackupPath :: string

type_synonym event = "string \<times> string \<times> string \<times> (string \<times> string) list"

datatype effect =
    Backup string bytes
  | Package_Manager string "string list" string bytes \<comment> \<open>program, arguments, input, the package file\<close>
  | Restart

record Service =
  sv_version :: string
  sv_objects :: "string \<rightharpoonup> Job"
  sv_jobs :: "string list" \<comment> \<open>the keys of the job table\<close>
  sv_status :: ReleaseInfo
  sv_installing :: bool
  sv_history :: "HistoryEntry list"
  sv_saved :: "HistoryEntry list" \<comment> \<open>the history file\<close>
  sv_events :: "event list" \<comment> \<open>what was given to the journal\<close>
  sv_restart :: "string option" \<comment> \<open>the job whose restart is under way\<close>
  sv_effects :: "effect list"

record host =
  ho_now :: int
  ho_stamp :: string \<comment> \<open>the time in the name of the backup\<close>
  ho_releases :: "string + githubRelease list"
  ho_prerelease :: bool
  ho_os :: string
  ho_arch :: string
  ho_has :: "string \<Rightarrow> bool" \<comment> \<open>\<^verbatim>\<open>exec.LookPath\<close>\<close>
  ho_disk :: "string + int"
  ho_get :: "string \<Rightarrow> string + response"
  ho_mib :: "int \<Rightarrow> string" \<comment> \<open>a size for the log\<close>
  ho_sha256 :: "bytes \<Rightarrow> bytes"
  ho_dpkg :: dpkg
  ho_tmp :: string
  ho_dir :: string
  ho_config :: "string + bytes"
  ho_write :: "string option" \<comment> \<open>an error of writing the backup\<close>
  ho_apt :: "string list \<times> string option" \<comment> \<open>the output and the error of the package manager\<close>
  ho_reload :: "string option"
  ho_restart :: "string option"

definition ho_linux :: "host \<Rightarrow> bool" where
  "ho_linux h \<longleftrightarrow> ho_os h = ''linux''"

subsection \<open>Jobs\<close>

definition modify_job :: "string \<Rightarrow> (Job \<Rightarrow> Job) \<Rightarrow> Service \<Rightarrow> Service" where
  "modify_job jid f s = s\<lparr>sv_objects := (sv_objects s)(jid := map_option f (sv_objects s jid))\<rparr>"

definition job_append :: "string \<Rightarrow> string \<Rightarrow> Service \<Rightarrow> Service" where
  "job_append jid line = modify_job jid (\<lambda>j. j\<lparr>jb_Output := jb_Output j @ [line]\<rparr>)"

definition job_appends :: "string \<Rightarrow> string list \<Rightarrow> Service \<Rightarrow> Service" where
  "job_appends jid ls = fold (job_append jid) ls"

definition setExit :: "string \<Rightarrow> int \<Rightarrow> Service \<Rightarrow> Service" where
  "setExit jid c = modify_job jid (\<lambda>j. j\<lparr>jb_ExitCode := c\<rparr>)"

definition setStage :: "string \<Rightarrow> string \<Rightarrow> Service \<Rightarrow> Service" where
  "setStage jid stage = modify_job jid (\<lambda>j. j\<lparr>jb_Stage := stage\<rparr>)"

definition setTarget :: "string \<Rightarrow> string \<Rightarrow> Service \<Rightarrow> Service" where
  "setTarget jid target = modify_job jid (\<lambda>j. j\<lparr>jb_Target := target\<rparr>)"

definition setError :: "string \<Rightarrow> string \<Rightarrow> Service \<Rightarrow> Service" where
  "setError jid message = modify_job jid (\<lambda>j. j\<lparr>jb_Error := message\<rparr>)"

definition finishDefault :: "int \<Rightarrow> string \<Rightarrow> int \<Rightarrow> Service \<Rightarrow> Service" where
  "finishDefault now jid c = modify_job jid (\<lambda>j. j\<lparr>jb_ExitCode := (if jb_ExitCode j < 0 then c else jb_ExitCode j),
     jb_Finished := Some now\<rparr>)"

definition started_of :: "Service \<Rightarrow> string \<Rightarrow> int" where
  "started_of s jid = (case sv_objects s jid of None \<Rightarrow> 0 | Some j \<Rightarrow> jb_Started j)"

function prune_ids :: "nat \<Rightarrow> (string \<Rightarrow> int) \<Rightarrow> string list \<Rightarrow> string list" where
  "prune_ids keep started ids =
     (if length ids \<le> keep then ids
      else prune_ids keep started (remove1 (arg_min_list started ids) ids))"
  by pat_completeness auto
termination
proof (relation "measure (\<lambda>(keep, started, ids). length ids)", goal_cases)
  case (2 keep started ids)
  then have "ids \<noteq> []" by auto
  then have "arg_min_list started ids \<in> set ids" by (rule arg_min_list_in)
  then show ?case using length_pos_if_in_set by (fastforce simp: length_remove1)
qed simp

declare prune_ids.simps [simp del]

definition pruneJobsLocked :: "nat \<Rightarrow> Service \<Rightarrow> Service" where
  "pruneJobsLocked keep s = s\<lparr>sv_jobs := prune_ids keep (started_of s) (sv_jobs s)\<rparr>"

definition get_job :: "string \<Rightarrow> Service \<Rightarrow> Job option" where
  \<comment> \<open>\<^verbatim>\<open>Service.Job\<close>\<close>
  "get_job jid s = (if jid \<in> set (sv_jobs s) then sv_objects s jid else None)"

subsection \<open>History\<close>

definition save_history :: "Service \<Rightarrow> Service" where
  \<comment> \<open>\<^verbatim>\<open>saveHistoryLocked\<close>; the write is taken to succeed\<close>
  "save_history s = s\<lparr>sv_saved := sv_history s\<rparr>"

definition beginHistory :: "string \<Rightarrow> string \<Rightarrow> string \<Rightarrow> Service \<Rightarrow> Service" where
  "beginHistory jid action target s =
     (case sv_objects s jid of
        None \<Rightarrow> s
      | Some j \<Rightarrow>
          save_history (s\<lparr>sv_history := keep_last 50 (sv_history s @
            [\<lparr>he_ID = jb_ID j, he_Action = action, he_FromVersion = sv_version s, he_Target = target,
              he_Status = ''running'', he_Stage = jb_Stage j, he_Started = jb_Started j, he_Finished = None,
              he_Error = '''', he_BackupPath = ''''\<rparr>])\<rparr>))"

fun update_entry :: "string \<Rightarrow> (HistoryEntry \<Rightarrow> HistoryEntry) \<Rightarrow> HistoryEntry list \<Rightarrow> HistoryEntry list" where
  "update_entry jid f [] = []"
| "update_entry jid f (e # es) = (if he_ID e = jid then f e # es else e # update_entry jid f es)"

definition updateHistory :: "int \<Rightarrow> string \<Rightarrow> string \<Rightarrow> Service \<Rightarrow> Service" where
  "updateHistory now jid status s =
     (case sv_objects s jid of
        None \<Rightarrow> s
      | Some j \<Rightarrow>
          save_history (s\<lparr>sv_history := update_entry (jb_ID j) (\<lambda>e.
            e\<lparr>he_Target := jb_Target j, he_Stage := jb_Stage j, he_Status := status, he_Error := jb_Error j,
              he_Finished := (if status = ''failed'' \<or> status = ''installed'' then Some now else he_Finished e)\<rparr>)
            (sv_history s)\<rparr>))"

definition setHistoryBackup :: "string \<Rightarrow> string \<Rightarrow> Service \<Rightarrow> Service" where
  "setHistoryBackup jid path s =
     save_history (s\<lparr>sv_history := update_entry jid (\<lambda>e. e\<lparr>he_BackupPath := path\<rparr>) (sv_history s)\<rparr>)"

definition finalize_entry :: "string \<Rightarrow> int \<Rightarrow> HistoryEntry \<Rightarrow> HistoryEntry" where
  "finalize_entry version now e =
     (if he_Status e \<noteq> ''restarting'' then e
      else if he_Target e = version
      then e\<lparr>he_Finished := Some now, he_Status := ''installed'', he_Stage := ''completed''\<rparr>
      else e\<lparr>he_Finished := Some now, he_Status := ''failed'', he_Stage := ''restart_failed'',
             he_Error := ''service restarted with version '' @ version @ '' instead of '' @ he_Target e\<rparr>)"

definition finalizeHistoryAfterRestart :: "int \<Rightarrow> Service \<Rightarrow> Service" where
  "finalizeHistoryAfterRestart now s =
     (let s1 = s\<lparr>sv_history := map (finalize_entry (sv_version s) now) (sv_history s)\<rparr> in
      if list_ex (\<lambda>e. he_Status e = ''restarting'') (sv_history s) then save_history s1 else s1)"

definition rollbackTarget :: "HistoryEntry list \<Rightarrow> string \<Rightarrow> string" where
  "rollbackTarget entries current =
     (case find (\<lambda>e. he_Status e = ''installed'' \<and> he_Target e = current \<and> he_FromVersion e \<noteq> '''' \<and>
                      he_FromVersion e \<noteq> current) entries of
        None \<Rightarrow> '''' | Some e \<Rightarrow> he_FromVersion e)"

definition History_entries :: "Service \<Rightarrow> HistoryEntry list" where
  \<comment> \<open>newest first; jobs do not start at the same instant\<close>
  "History_entries s = sort_key (\<lambda>e. - he_Started e) (sv_history s)"

definition History_target :: "Service \<Rightarrow> string" where
  "History_target s = rollbackTarget (History_entries s) (sv_version s)"

definition loadHistory :: "int \<Rightarrow> HistoryEntry option \<Rightarrow> HistoryEntry list \<Rightarrow> Service \<Rightarrow> Service" where
  \<comment> \<open>with what the log of the package manager tells and what the history file holds\<close>
  "loadHistory now inferred saved s =
     (let s = s\<lparr>sv_history := keep_last 50 saved\<rparr>;
          s = (if sv_history s = [] then
                 (case inferred of None \<Rightarrow> s | Some e \<Rightarrow> save_history (s\<lparr>sv_history := [e]\<rparr>)) else s)
      in finalizeHistoryAfterRestart now s)"

definition no_info :: ReleaseInfo where
  "no_info = \<lparr>ri_CurrentVersion = '''', ri_LatestVersion = '''', ri_UpdateAvailable = False, ri_URL = '''',
     ri_Changelog = '''', ri_Asset = no_asset, ri_Supported = False, ri_Checking = False, ri_Installing = False,
     ri_CheckedAt = None, ri_Error = '''', ri_Channel = ''''\<rparr>"

definition new_service :: "string \<Rightarrow> int \<Rightarrow> HistoryEntry option \<Rightarrow> HistoryEntry list \<Rightarrow> Service" where
  "new_service version now inferred saved =
     loadHistory now inferred saved
       \<lparr>sv_version = version, sv_objects = Map.empty, sv_jobs = [],
        sv_status = no_info\<lparr>ri_CurrentVersion := version\<rparr>, sv_installing = False, sv_history = [],
        sv_saved = saved, sv_events = [], sv_restart = None, sv_effects = []\<rparr>"

definition safeVersion :: "string \<Rightarrow> string" where
  "safeVersion version =
     (let clean = filter (\<lambda>c. c \<in> set lower_letters \<or> c \<in> set upper_letters \<or> c \<in> set digits \<or>
                              c = CHR ''.'' \<or> c = CHR ''-'') version
      in if clean = '''' then ''unknown'' else clean)"

subsection \<open>Checks\<close>

definition recordEvent :: "string \<Rightarrow> string \<Rightarrow> string \<Rightarrow> (string \<times> string) list \<Rightarrow> Service \<Rightarrow> Service" where
  "recordEvent action status message details s =
     s\<lparr>sv_events := sv_events s @ [(action, status, message, details)]\<rparr>"

definition setChecking :: "bool \<Rightarrow> Service \<Rightarrow> Service" where
  "setChecking checking s =
     s\<lparr>sv_status := (sv_status s)\<lparr>ri_CurrentVersion := sv_version s, ri_Checking := checking\<rparr>\<rparr>"

definition storeCheck :: "int \<Rightarrow> ReleaseInfo \<Rightarrow> string option \<Rightarrow> Service \<Rightarrow> Service" where
  "storeCheck now info checkErr s =
     (let info = info\<lparr>ri_CurrentVersion := sv_version s, ri_Checking := False, ri_CheckedAt := Some now\<rparr>;
          old = sv_status s;
          info = (case checkErr of
              None \<Rightarrow> info
            | Some e \<Rightarrow> info\<lparr>ri_LatestVersion := ri_LatestVersion old, ri_UpdateAvailable := ri_UpdateAvailable old,
                ri_URL := ri_URL old, ri_Changelog := ri_Changelog old, ri_Asset := ri_Asset old,
                ri_Supported := ri_Supported old, ri_Error := e\<rparr>)
      in s\<lparr>sv_status := info\<lparr>ri_Installing := sv_installing s\<rparr>\<rparr>)"

definition channel :: "host \<Rightarrow> string" where
  "channel h = (if ho_prerelease h then ''prerelease'' else ''stable'')"

definition Status :: "host \<Rightarrow> Service \<Rightarrow> ReleaseInfo" where
  "Status h s = (sv_status s)\<lparr>ri_Installing := sv_installing s, ri_Channel := channel h\<rparr>"

definition latest :: "host \<Rightarrow> string + githubRelease" where
  "latest h =
     (case ho_releases h of
        Inl e \<Rightarrow> Inl e
      | Inr releases \<Rightarrow>
          (case newestRelease releases (ho_prerelease h) of
             None \<Rightarrow> Inl ''no release found'' | Some r \<Rightarrow> Inr r))"

definition release_info :: "host \<Rightarrow> string \<Rightarrow> githubRelease \<Rightarrow> bool \<Rightarrow> ReleaseInfo" where
  \<comment> \<open>the record built by \<^verbatim>\<open>Check\<close> and by \<^verbatim>\<open>releaseInfo\<close>\<close>
  "release_info h version r available =
     (let asset = selectAsset (ho_arch h) (gr_Assets r) in
      no_info\<lparr>ri_CurrentVersion := version, ri_LatestVersion := release_version r, ri_UpdateAvailable := available,
        ri_URL := gr_HTMLURL r, ri_Changelog := gr_Body r, ri_Asset := asset,
        ri_Supported := ho_linux h \<and> as_URL asset \<noteq> ''''\<rparr>)"

definition Check :: "host \<Rightarrow> Service \<Rightarrow> (string + ReleaseInfo) \<times> Service" where
  "Check h s =
     (let s = setChecking True s in
      case latest h of
        Inl e \<Rightarrow>
          (Inl e, recordEvent ''check'' ''error'' ''update check failed'' []
             (storeCheck (ho_now h) (no_info\<lparr>ri_CurrentVersion := sv_version s, ri_Error := e\<rparr>) (Some e) s))
      | Inr r \<Rightarrow>
          (let info = release_info h (sv_version s) r (0 < compareVersion (release_version r) (sv_version s));
               s = storeCheck (ho_now h) info None s;
               s = recordEvent ''check'' ''ok'' ''update check completed''
                 [(''state'', if ri_UpdateAvailable info then ''available'' else ''up_to_date''),
                  (''version'', ri_LatestVersion info)] s
           in (Inr (Status h s), s)))"

definition releaseVersion :: "host \<Rightarrow> string \<Rightarrow> string + githubRelease" where
  "releaseVersion h version =
     (case ho_releases h of
        Inl e \<Rightarrow> Inl e
      | Inr releases \<Rightarrow>
          (case find_release version releases of
             None \<Rightarrow> Inl (''release '' @ version @ '' not found'') | Some r \<Rightarrow> Inr r))"

definition releaseInfo :: "host \<Rightarrow> Service \<Rightarrow> githubRelease \<Rightarrow> ReleaseInfo" where
  "releaseInfo h s r =
     release_info h (sv_version s) r (compareVersion (release_version r) (sv_version s) \<noteq> 0)"

definition required_commands :: "string list" where
  "required_commands = [''apt-get'', ''dpkg-deb'', ''systemctl'']"

definition validateEnvironment :: "host \<Rightarrow> Asset \<Rightarrow> string option" where
  "validateEnvironment h asset =
     (if \<not> ho_linux h then Some (''updates require Linux, current platform is '' @ ho_os h)
      else case find (\<lambda>c. \<not> ho_has h c) required_commands of
        Some c \<Rightarrow> Some (''required command '' @ c @ '' is unavailable'')
      | None \<Rightarrow>
          (case ho_disk h of
             Inl e \<Rightarrow> Some (''check temporary disk space: '' @ e)
           | Inr available \<Rightarrow>
               (let required = requiredDiskBytes (as_Size asset) in
                if available < required then
                  Some (''insufficient temporary disk space: '' @ itoa (quot64 available (2 ^ 20)) @
                    '' MiB available, '' @ itoa (quot64 required (2 ^ 20)) @ '' MiB required'')
                else None)))"

subsection \<open>Privileges\<close>

type_synonym provider = "(string \<Rightarrow> string \<Rightarrow> string \<times> string \<times> bool) option"
type_synonym probe = "string \<Rightarrow> string list \<Rightarrow> string \<Rightarrow> string \<times> string option"
  \<comment> \<open>program, arguments and input to output and error\<close>

definition preparePrivilege :: "provider \<Rightarrow> probe \<Rightarrow> string \<Rightarrow> string \<Rightarrow> string + privilegeCommand" where
  "preparePrivilege provider probe mode0 password0 =
     (let (mode, password, configured) =
            (case provider of
               Some resolve \<Rightarrow> resolve mode0 password0
             | None \<Rightarrow> (mode0, password0, password0 \<noteq> '''' \<and> (mode0 = ''sudo'' \<or> mode0 = ''su'')));
          mode = (if mode = '''' then ''sudo'' else mode);
          required = ''administrator privileges are required to install updates''
      in
      if \<not> configured \<and> mode \<noteq> ''sudo'' then Inl required
      else if password \<noteq> '''' \<and> mode \<noteq> ''sudo'' \<and> mode \<noteq> ''su'' then Inl ''privilege mode must be sudo or su''
      else
        let (output, err) =
              (if password = '''' then probe ''sudo'' [''-n'', ''true''] ''''
               else if mode = ''sudo'' then probe ''sudo'' [''-S'', ''-p'', '''', ''-v''] (password @ [CHR 0x0A])
               else probe ''su'' [''-'', ''root'', ''-c'', ''true''] (password @ [CHR 0x0A]))
        in case err of
             None \<Rightarrow> Inr \<lparr>pc_Mode = mode, pc_Password = password\<rparr>
           | Some e \<Rightarrow>
               if password = '''' then Inl required
               else Inl (''administrator authentication failed: '' @
                 (if trim_space output = '''' then e else trim_space output)))"

subsection \<open>Installing\<close>

definition fail_job :: "host \<Rightarrow> string \<Rightarrow> string \<Rightarrow> Service \<Rightarrow> Service" where
  \<comment> \<open>\<^verbatim>\<open>Service.fail\<close>\<close>
  "fail_job h jid e s =
     updateHistory (ho_now h) jid ''failed''
       (setExit jid 1 (setError jid e (job_append jid (''error: '' @ e) s)))"

definition setJobStage :: "host \<Rightarrow> string \<Rightarrow> string \<Rightarrow> Service \<Rightarrow> Service" where
  "setJobStage h jid stage s = updateHistory (ho_now h) jid ''running'' (setStage jid stage s)"

definition base_name :: "string \<Rightarrow> string" where
  "base_name file = last (split_at CHR ''/'' file)"

definition download_job ::
  "host \<Rightarrow> string \<Rightarrow> string \<Rightarrow> string \<Rightarrow> int \<Rightarrow> Service \<Rightarrow> (string + bytes) \<times> Service" where
  \<comment> \<open>\<^verbatim>\<open>download\<close>, with its lines in the log of the job\<close>
  "download_job h jid url file expectedSize s =
     (let (ls, result) = download (ho_get h url) expectedSize;
          s = job_appends jid ((''downloading '' @ base_name file) # ls) s
      in (result, case result of
            Inl e \<Rightarrow> s
          | Inr data \<Rightarrow> job_append jid (''download complete: '' @ ho_mib h (int (length data)) @ '' MiB'') s))"

definition backupConfig :: "host \<Rightarrow> string \<Rightarrow> Service \<Rightarrow> (string + string) \<times> Service" where
  "backupConfig h jid s =
     (case ho_config h of
        Inl e \<Rightarrow> (Inl e, s)
      | Inr data \<Rightarrow>
          (case ho_write h of
             Some e \<Rightarrow> (Inl e, s)
           | None \<Rightarrow>
               (let path = ho_dir h @ ''/update-backups/config-'' @ ho_stamp h @ ''-v'' @
                      safeVersion (sv_version s) @ ''.json''
                in (Inr path, setHistoryBackup jid path (s\<lparr>sv_effects := sv_effects s @ [Backup path data]\<rparr>)))))"

definition runPrivileged ::
  "host \<Rightarrow> string \<Rightarrow> privilegeCommand \<Rightarrow> string \<Rightarrow> string list \<Rightarrow> bytes \<Rightarrow> Service \<Rightarrow> string option \<times> Service" where
  \<comment> \<open>with the contents of the file that the arguments name\<close>
  "runPrivileged h jid privilege command args package s =
     (case buildPrivilegedCommand privilege command args of
        None \<Rightarrow> (Some ''unsupported privilege mode'', s)
      | Some (program, argv, input) \<Rightarrow>
          (let s = job_append jid (''running privileged command: '' @ command @ '' '' @ join '' '' args) s;
               s = s\<lparr>sv_effects := sv_effects s @ [Package_Manager program argv input package]\<rparr>;
               s = job_appends jid (job_flush (fold job_write (fst (ho_apt h)) ('''', []))) s
           in (snd (ho_apt h), s)))"

definition applyRelease ::
  "host \<Rightarrow> string \<Rightarrow> privilegeCommand \<Rightarrow> ReleaseInfo \<Rightarrow> bool \<Rightarrow> Service \<Rightarrow> Service" where
  "applyRelease h jid privilege info allowDowngrade s =
     (let s = updateHistory (ho_now h) jid ''running'' (setTarget jid (ri_LatestVersion info) s) in
      if \<not> ri_Supported info then fail_job h jid ''no supported .deb asset for this platform'' s
      else case validateEnvironment h (ri_Asset info) of
        Some e \<Rightarrow> fail_job h jid e s
      | None \<Rightarrow>
        (let file = ho_tmp h @ ''/'' @ as_Name (ri_Asset info);
             (downloaded, s) = download_job h jid (as_URL (ri_Asset info)) file (as_Size (ri_Asset info))
                (setJobStage h jid ''downloading'' s)
         in case downloaded of
           Inl e \<Rightarrow> fail_job h jid e s
         | Inr package \<Rightarrow>
           (case verify (ho_sha256 h) package (as_Digest (ri_Asset info)) of
              Some e \<Rightarrow> fail_job h jid e s
            | None \<Rightarrow>
              (case validateDebPackage (ho_dpkg h) (ho_linux h) (ho_arch h) package (ri_LatestVersion info) of
                 Some e \<Rightarrow> fail_job h jid e s
               | None \<Rightarrow>
                 (let (backup, s) = backupConfig h jid s in
                  case backup of
                    Inl e \<Rightarrow> fail_job h jid (''backup current configuration: '' @ e) s
                  | Inr path \<Rightarrow>
                    (let s = setJobStage h jid ''installing'' (job_append jid (''configuration backup: '' @ path) s);
                         args = [''install'', ''-y''] @ (if allowDowngrade then [''--allow-downgrades''] else []) @ [file];
                         (err, s) = runPrivileged h jid privilege ''apt-get'' args package s
                     in case err of
                          Some e \<Rightarrow> fail_job h jid e s
                        | None \<Rightarrow>
                            (let s = setJobStage h jid ''restarting'' s;
                                 s = job_append jid ''installation complete; KioskMate will restart in 2 seconds'' s;
                                 s = updateHistory (ho_now h) jid ''restarting'' (setExit jid 0 s)
                             in s\<lparr>sv_restart := Some jid\<rparr>)))))))"

definition install :: "host \<Rightarrow> string \<Rightarrow> privilegeCommand \<Rightarrow> Service \<Rightarrow> Service" where
  \<comment> \<open>without the deferred \<^verbatim>\<open>finishInstallJob\<close>\<close>
  "install h jid privilege s =
     (let s = job_append jid ''checking latest release'' (setJobStage h jid ''checking'' s);
          (checked, s) = Check h s
      in case checked of
           Inl e \<Rightarrow> fail_job h jid e s
         | Inr info \<Rightarrow>
             if \<not> ri_UpdateAvailable info then
               (let s = job_append jid ''already up to date'' s;
                    s = setJobStage h jid ''completed'' (setTarget jid (sv_version s) s)
                in updateHistory (ho_now h) jid ''installed'' (setExit jid 0 s))
             else applyRelease h jid privilege info False s)"

definition rollback :: "host \<Rightarrow> string \<Rightarrow> privilegeCommand \<Rightarrow> string \<Rightarrow> Service \<Rightarrow> Service" where
  "rollback h jid privilege target s =
     (let s = job_append jid (''checking rollback release '' @ target) (setJobStage h jid ''checking'' s) in
      case releaseVersion h target of
        Inl e \<Rightarrow> fail_job h jid e s
      | Inr r \<Rightarrow> applyRelease h jid privilege ((releaseInfo h s r)\<lparr>ri_UpdateAvailable := True\<rparr>) True s)"

definition finishInstallJob :: "host \<Rightarrow> string \<Rightarrow> Service \<Rightarrow> Service" where
  "finishInstallJob h jid s =
     (let s = finishDefault (ho_now h) jid 1 s in
      case sv_objects s jid of
        None \<Rightarrow> s
      | Some j \<Rightarrow>
          (let s = recordEvent (jb_Name j) (if jb_ExitCode j = 0 then ''ok'' else ''error'') ''update job completed''
                 [(''job_id'', jb_ID j), (''stage'', jb_Stage j), (''exit_code'', itoa (jb_ExitCode j))] s
           in if jb_Stage j = ''restarting'' then s else s\<lparr>sv_installing := False\<rparr>))"

definition run_job :: "host \<Rightarrow> string \<Rightarrow> privilegeCommand \<Rightarrow> string option \<Rightarrow> Service \<Rightarrow> Service" where
  \<comment> \<open>the goroutine of \<^verbatim>\<open>startInstall\<close>; a rollback has a target\<close>
  "run_job h jid privilege target s =
     finishInstallJob h jid
       (case target of None \<Rightarrow> install h jid privilege s | Some t \<Rightarrow> rollback h jid privilege t s)"

definition restartServiceAfterUpdate :: "host \<Rightarrow> string \<Rightarrow> Service \<Rightarrow> Service" where
  \<comment> \<open>a restart that succeeds ends the process\<close>
  "restartServiceAfterUpdate h jid s =
     (let s = (case ho_reload h of
            None \<Rightarrow> s | Some e \<Rightarrow> job_append jid (''warning: systemd daemon-reload failed: '' @ e) s);
          s = s\<lparr>sv_effects := sv_effects s @ [Restart], sv_restart := None\<rparr>
      in case ho_restart h of
           None \<Rightarrow> s
         | Some e \<Rightarrow> (fail_job h jid (''restart KioskMate service: '' @ e) s)\<lparr>sv_installing := False\<rparr>)"

subsection \<open>Starting a job\<close>

definition update_in_progress :: string where
  "update_in_progress = ''an update installation is already running''"

definition admit_job :: "string \<Rightarrow> string \<Rightarrow> string \<Rightarrow> int \<Rightarrow> Service \<Rightarrow> (string + string) \<times> Service" where
  \<comment> \<open>\<^verbatim>\<open>startInstall\<close> from its second lock on; the job's identifier is its start time\<close>
  "admit_job jid name target now s =
     (if sv_installing s then (Inl update_in_progress, s)
      else
        let job = \<lparr>jb_ID = jid, jb_Name = name, jb_Stage = ''preparing'', jb_Target = target, jb_Error = '''',
              jb_Started = now, jb_Finished = None, jb_ExitCode = - 1, jb_Output = []\<rparr>;
            s = pruneJobsLocked 50 (s\<lparr>sv_installing := True, sv_objects := (sv_objects s)(jid \<mapsto> job),
                  sv_jobs := List.insert jid (sv_jobs s)\<rparr>);
            s = recordEvent (trim_prefix name ''update-'') ''running'' ''update job started''
                  ([(''job_id'', jid), (''mode'', trim_prefix name ''update-'')] @
                   (if target \<noteq> '''' then [(''target_version'', target)] else [])) s
        in (Inr jid, beginHistory jid (trim_prefix name ''update-'') target s))"

definition startInstall ::
  "provider \<Rightarrow> probe \<Rightarrow> string \<Rightarrow> string \<Rightarrow> string \<Rightarrow> string \<Rightarrow> int \<Rightarrow> Service \<Rightarrow>
   (string + string \<times> privilegeCommand) \<times> Service" where
  \<comment> \<open>nothing else happens between its two locks; \<open>updater_step\<close> lets other requests in\<close>
  "startInstall provider probe name target mode password now s =
     (if sv_installing s then (Inl update_in_progress, s)
      else case preparePrivilege provider probe mode password of
        Inl e \<Rightarrow> (Inl e, s)
      | Inr p \<Rightarrow>
          (case admit_job (itoa now) name target now s of
             (Inl e, s) \<Rightarrow> (Inl e, s) | (Inr jid, s) \<Rightarrow> (Inr (jid, p), s)))"

definition Install ::
  "provider \<Rightarrow> probe \<Rightarrow> string \<Rightarrow> string \<Rightarrow> int \<Rightarrow> Service \<Rightarrow> (string + string \<times> privilegeCommand) \<times> Service" where
  "Install provider probe mode password now s =
     startInstall provider probe ''update-install'' '''' mode password now s"

definition Rollback ::
  "provider \<Rightarrow> probe \<Rightarrow> string \<Rightarrow> string \<Rightarrow> int \<Rightarrow> Service \<Rightarrow> (string + string \<times> privilegeCommand) \<times> Service" where
  "Rollback provider probe mode password now s =
     (let target = History_target s in
      if target = '''' then (Inl ''no previously installed version is available for rollback'', s)
      else startInstall provider probe ''update-rollback'' target mode password now s)"

subsection \<open>The report before an update\<close>

record PreflightReport =
  pf_OK :: bool
  pf_TargetVersion :: string
  pf_RequiredBytes :: int
  pf_AvailableBytes :: int
  pf_Checks :: "(string \<times> bool \<times> string) list"

definition add_check :: "string \<times> bool \<times> string \<Rightarrow> PreflightReport \<Rightarrow> PreflightReport" where
  "add_check c r = r\<lparr>pf_Checks := pf_Checks r @ [c], pf_OK := pf_OK r \<and> fst (snd c)\<rparr>"

definition command_check :: "host \<Rightarrow> string \<Rightarrow> string \<times> bool \<times> string" where
  "command_check h c =
     (''command_'' @ map (\<lambda>x. if x = CHR ''-'' then CHR ''_'' else x) c, ho_has h c,
      c @ (if ho_has h c then '' is available'' else '' is not installed''))"

definition preflight_checks :: "host \<Rightarrow> ReleaseInfo \<Rightarrow> string + privilegeCommand \<Rightarrow> (string \<times> bool \<times> string) list" where
  "preflight_checks h info privilege =
     [(''release'', ri_UpdateAvailable info,
         if ri_UpdateAvailable info then ''release '' @ ri_LatestVersion info @ '' is available''
         else ''KioskMate is already up to date''),
      (''platform'', ho_linux h, ho_os h @ ''/'' @ ho_arch h),
      (''asset'', as_URL (ri_Asset info) \<noteq> '''',
         if as_URL (ri_Asset info) = '''' then ''no matching Debian package was found'' else as_Name (ri_Asset info))] @
     map (command_check h) required_commands @
     [(''disk'',
         (case ho_disk h of Inl e \<Rightarrow> False | Inr a \<Rightarrow> requiredDiskBytes (as_Size (ri_Asset info)) \<le> a),
         (case ho_disk h of Inl e \<Rightarrow> e
          | Inr a \<Rightarrow> itoa (quot64 a (2 ^ 20)) @ '' MiB available, '' @
              itoa (quot64 (requiredDiskBytes (as_Size (ri_Asset info))) (2 ^ 20)) @ '' MiB required'')),
      (''privilege'', \<not> isl privilege,
         (case privilege of Inl e \<Rightarrow> e | Inr p \<Rightarrow> ''administrator authentication succeeded''))]"

definition Preflight ::
  "host \<Rightarrow> provider \<Rightarrow> probe \<Rightarrow> string \<Rightarrow> string \<Rightarrow> Service \<Rightarrow> PreflightReport \<times> Service" where
  "Preflight h provider probe mode password s =
     (let report = \<lparr>pf_OK = True, pf_TargetVersion = '''', pf_RequiredBytes = 0, pf_AvailableBytes = 0, pf_Checks = []\<rparr>;
          (checked, s) = Check h s
      in case checked of
           Inl e \<Rightarrow> (add_check (''release'', False, e) report, s)
         | Inr info \<Rightarrow>
             (fold add_check (preflight_checks h info (preparePrivilege provider probe mode password))
                (report\<lparr>pf_TargetVersion := ri_LatestVersion info,
                   pf_RequiredBytes := requiredDiskBytes (as_Size (ri_Asset info)),
                   pf_AvailableBytes := (case ho_disk h of Inl e \<Rightarrow> 0 | Inr a \<Rightarrow> a)\<rparr>), s))"

end
