(* ===== verification/Updater_Props.thy ===== *)
theory Updater_Props
  imports Updater_Jobs
begin

section \<open>Properties of update jobs\<close>

text \<open>
  What a package must pass before the package manager sees it, how a job and its entry in the history
  end, that requests which interleave start one job at a time, and what a new process reads in the
  history.
\<close>

subsection \<open>What the helpers leave alone\<close>

named_theorems updater_frame \<open>fields that an operation leaves unchanged\<close>

lemma modify_job_frame [updater_frame]:
  "sv_version (modify_job jid f s) = sv_version s" "sv_installing (modify_job jid f s) = sv_installing s"
  "sv_jobs (modify_job jid f s) = sv_jobs s" "sv_restart (modify_job jid f s) = sv_restart s"
  "sv_effects (modify_job jid f s) = sv_effects s" "sv_history (modify_job jid f s) = sv_history s"
  "sv_saved (modify_job jid f s) = sv_saved s"
  "sv_objects (modify_job jid f s) k = (if k = jid then map_option f (sv_objects s jid) else sv_objects s k)"
  by (simp_all add: modify_job_def)

lemmas job_setters = job_append_def setExit_def setStage_def setTarget_def setError_def finishDefault_def

lemma job_appends_frame [updater_frame]:
  "sv_version (job_appends jid ls s) = sv_version s" "sv_installing (job_appends jid ls s) = sv_installing s"
  "sv_jobs (job_appends jid ls s) = sv_jobs s" "sv_restart (job_appends jid ls s) = sv_restart s"
  "sv_effects (job_appends jid ls s) = sv_effects s" "sv_history (job_appends jid ls s) = sv_history s"
  "sv_saved (job_appends jid ls s) = sv_saved s"
  by (induction ls arbitrary: s) (simp_all add: job_appends_def job_setters updater_frame)

lemma job_appends_objects [updater_frame]:
  "sv_objects (job_appends jid ls s) k =
     (if k = jid then map_option (\<lambda>j. j\<lparr>jb_Output := jb_Output j @ ls\<rparr>) (sv_objects s jid) else sv_objects s k)"
proof (induction ls arbitrary: s)
  case Nil
  then show ?case by (cases "sv_objects s jid") (auto simp: job_appends_def)
next
  case (Cons l ls)
  then show ?case
    by (cases "sv_objects s jid") (auto simp: job_appends_def job_append_def updater_frame)
qed

lemma updateHistory_frame [updater_frame]:
  "sv_version (updateHistory now jid st s) = sv_version s" "sv_installing (updateHistory now jid st s) = sv_installing s"
  "sv_jobs (updateHistory now jid st s) = sv_jobs s" "sv_restart (updateHistory now jid st s) = sv_restart s"
  "sv_effects (updateHistory now jid st s) = sv_effects s" "sv_objects (updateHistory now jid st s) = sv_objects s"
  by (auto simp: updateHistory_def save_history_def split: option.split)

lemma setHistoryBackup_frame [updater_frame]:
  "sv_version (setHistoryBackup jid p s) = sv_version s" "sv_installing (setHistoryBackup jid p s) = sv_installing s"
  "sv_jobs (setHistoryBackup jid p s) = sv_jobs s" "sv_restart (setHistoryBackup jid p s) = sv_restart s"
  "sv_effects (setHistoryBackup jid p s) = sv_effects s" "sv_objects (setHistoryBackup jid p s) = sv_objects s"
  by (simp_all add: setHistoryBackup_def save_history_def)

lemma Check_frame [updater_frame]:
  "sv_version (snd (Check h s)) = sv_version s" "sv_installing (snd (Check h s)) = sv_installing s"
  "sv_jobs (snd (Check h s)) = sv_jobs s" "sv_restart (snd (Check h s)) = sv_restart s"
  "sv_effects (snd (Check h s)) = sv_effects s" "sv_objects (snd (Check h s)) = sv_objects s"
  "sv_history (snd (Check h s)) = sv_history s" "sv_saved (snd (Check h s)) = sv_saved s"
  by (auto simp: Check_def recordEvent_def storeCheck_def setChecking_def Let_def split: sum.split)

lemma length_update_entry [simp]: "length (update_entry jid f es) = length es"
  by (induction es) auto

definition entry :: "string \<Rightarrow> Service \<Rightarrow> HistoryEntry option" where
  "entry jid s = find (\<lambda>e. he_ID e = jid) (sv_history s)"

lemma find_update_entry:
  assumes "\<And>e. he_ID (f e) = he_ID e"
  shows "find (\<lambda>e. he_ID e = k) (update_entry jid f es) =
     (if k = jid then map_option f (find (\<lambda>e. he_ID e = jid) es) else find (\<lambda>e. he_ID e = k) es)"
  using assms by (induction es) auto

lemma entry_updateHistory [updater_frame]:
  "entry k (updateHistory now jid st s) =
     (case sv_objects s jid of
        None \<Rightarrow> entry k s
      | Some j \<Rightarrow> if k = jb_ID j then map_option (\<lambda>e. e\<lparr>he_Target := jb_Target j, he_Stage := jb_Stage j,
            he_Status := st, he_Error := jb_Error j,
            he_Finished := (if st = ''failed'' \<or> st = ''installed'' then Some now else he_Finished e)\<rparr>) (entry k s)
          else entry k s)"
  by (auto simp: entry_def updateHistory_def save_history_def find_update_entry split: option.split)

lemma entry_others [updater_frame]:
  "entry k (modify_job jid f s) = entry k s" "entry k (job_appends jid ls s) = entry k s"
  "entry k (snd (Check h s)) = entry k s"
  "entry k (setHistoryBackup jid p s) =
     (if k = jid then map_option (\<lambda>e. e\<lparr>he_BackupPath := p\<rparr>) (entry k s) else entry k s)"
  by (simp_all add: entry_def updater_frame) (simp add: setHistoryBackup_def save_history_def find_update_entry)

lemma entry_restart:
  "entry k (s\<lparr>sv_effects := E, sv_restart := x\<rparr>) = entry k s" "entry k (s\<lparr>sv_installing := i\<rparr>) = entry k s"
  by (simp_all add: entry_def)

subsection \<open>Only checked packages reach the package manager\<close>

lemmas job_ops = fail_job_def setJobStage_def job_setters

definition passes_checks :: "host \<Rightarrow> githubRelease \<Rightarrow> bytes \<Rightarrow> bool" where
  \<comment> \<open>what must hold of the package of a release\<close>
  "passes_checks h r package \<longleftrightarrow>
     (let a = selectAsset (ho_arch h) (gr_Assets r) in
      ho_linux h \<and> list_all (ho_has h) required_commands \<and>
      snd (download (ho_get h (as_URL a)) (as_Size a)) = Inr package \<and>
      verify (ho_sha256 h) package (as_Digest a) = None \<and>
      validateDebPackage (ho_dpkg h) (ho_linux h) (ho_arch h) package (release_version r) = None)"

lemma applyRelease_effects:
  "\<exists>E. sv_effects (applyRelease h jid privilege info allow s) = sv_effects s @ E \<and>
     (E = [] \<or> (\<exists>path data. E = [Backup path data] \<and> ho_config h = Inr data) \<or>
      (\<exists>path data program argv input package. E = [Backup path data, Package_Manager program argv input package] \<and>
         ho_config h = Inr data \<and>
         snd (download (ho_get h (as_URL (ri_Asset info))) (as_Size (ri_Asset info))) = Inr package \<and>
         verify (ho_sha256 h) package (as_Digest (ri_Asset info)) = None \<and>
         validateDebPackage (ho_dpkg h) (ho_linux h) (ho_arch h) package (ri_LatestVersion info) = None \<and>
         validateEnvironment h (ri_Asset info) = None \<and>
         buildPrivilegedCommand privilege ''apt-get'' ([''install'', ''-y''] @
           (if allow then [''--allow-downgrades''] else []) @ [ho_tmp h @ ''/'' @ as_Name (ri_Asset info)]) =
           Some (program, argv, input)))"
  by (auto simp: applyRelease_def Let_def split_beta job_ops updater_frame download_job_def backupConfig_def
      runPrivileged_def split: sum.split option.split)

lemma install_effects:
  assumes "Package_Manager program argv input package \<in> set (sv_effects (install h jid privilege s))"
    and "Package_Manager program argv input package \<notin> set (sv_effects s)"
  shows "\<exists>r. latest h = Inr r \<and> 0 < compareVersion (release_version r) (sv_version s) \<and> passes_checks h r package \<and>
    (\<exists>path data. sv_effects (install h jid privilege s) =
       sv_effects s @ [Backup path data, Package_Manager program argv input package] \<and> ho_config h = Inr data) \<and>
    buildPrivilegedCommand privilege ''apt-get''
      [''install'', ''-y'', ho_tmp h @ ''/'' @ as_Name (selectAsset (ho_arch h) (gr_Assets r))] = Some (program, argv, input)"
proof (cases "latest h")
  case (Inl e)
  then have "sv_effects (install h jid privilege s) = sv_effects s"
    by (simp add: install_def Let_def split_beta job_ops updater_frame Check_def recordEvent_def storeCheck_def setChecking_def)
  with assms show ?thesis by simp
next
  case (Inr r)
  let ?s1 = "job_append jid ''checking latest release'' (setJobStage h jid ''checking'' s)"
  let ?info = "Status h (snd (Check h ?s1))"
  have check: "fst (Check h ?s1) = Inr ?info"
    using Inr by (simp add: Check_def Let_def)
  have info: "ri_Asset ?info = selectAsset (ho_arch h) (gr_Assets r)" "ri_LatestVersion ?info = release_version r"
    "ri_UpdateAvailable ?info \<longleftrightarrow> 0 < compareVersion (release_version r) (sv_version s)"
    using Inr by (simp_all add: Check_def Let_def Status_def recordEvent_def storeCheck_def setChecking_def
        release_info_def job_ops updater_frame)
  have avail: "ri_UpdateAvailable ?info"
  proof (rule ccontr)
    assume "\<not> ri_UpdateAvailable ?info"
    then have "sv_effects (install h jid privilege s) = sv_effects s"
      using check by (simp add: install_def Let_def split_beta job_ops updater_frame)
    with assms show False by simp
  qed
  then have i: "install h jid privilege s = applyRelease h jid privilege ?info False (snd (Check h ?s1))"
    using check by (simp add: install_def Let_def split_beta)
  have e: "sv_effects (snd (Check h ?s1)) = sv_effects s" by (simp add: job_ops updater_frame)
  have env: "validateEnvironment h a = None \<Longrightarrow> ho_linux h \<and> list_all (ho_has h) required_commands" for a
    by (auto simp: validateEnvironment_def find_None_iff list_all_iff split: if_splits option.splits)
  from applyRelease_effects [of h jid privilege ?info False "snd (Check h ?s1)"] assms avail Inr env show ?thesis
    unfolding i e info passes_checks_def Let_def by auto
qed

lemma rollback_effects:
  assumes "Package_Manager program argv input package \<in> set (sv_effects (rollback h jid privilege target s))"
    and "Package_Manager program argv input package \<notin> set (sv_effects s)"
  shows "\<exists>r. releaseVersion h target = Inr r \<and> passes_checks h r package \<and>
    (\<exists>path data. sv_effects (rollback h jid privilege target s) =
       sv_effects s @ [Backup path data, Package_Manager program argv input package] \<and> ho_config h = Inr data) \<and>
    buildPrivilegedCommand privilege ''apt-get''
      [''install'', ''-y'', ''--allow-downgrades'', ho_tmp h @ ''/'' @ as_Name (selectAsset (ho_arch h) (gr_Assets r))] =
      Some (program, argv, input)"
proof (cases "releaseVersion h target")
  case (Inl e)
  then have "sv_effects (rollback h jid privilege target s) = sv_effects s"
    by (simp add: rollback_def Let_def job_ops updater_frame)
  with assms show ?thesis by simp
next
  case (Inr r)
  let ?s1 = "job_append jid (''checking rollback release '' @ target) (setJobStage h jid ''checking'' s)"
  let ?info = "(releaseInfo h ?s1 r)\<lparr>ri_UpdateAvailable := True\<rparr>"
  have info: "ri_Asset ?info = selectAsset (ho_arch h) (gr_Assets r)" "ri_LatestVersion ?info = release_version r"
    by (simp_all add: releaseInfo_def release_info_def Let_def)
  have i: "rollback h jid privilege target s = applyRelease h jid privilege ?info True ?s1"
    using Inr by (simp add: rollback_def Let_def)
  have e: "sv_effects ?s1 = sv_effects s" by (simp add: job_ops updater_frame)
  have env: "validateEnvironment h a = None \<Longrightarrow> ho_linux h \<and> list_all (ho_has h) required_commands" for a
    by (auto simp: validateEnvironment_def find_None_iff list_all_iff split: if_splits option.splits)
  from applyRelease_effects [of h jid privilege ?info True ?s1] assms Inr env show ?thesis
    unfolding i e info passes_checks_def Let_def by auto
qed

lemma finishInstallJob_frame [updater_frame]:
  "sv_effects (finishInstallJob h jid s) = sv_effects s" "sv_version (finishInstallJob h jid s) = sv_version s"
  "sv_jobs (finishInstallJob h jid s) = sv_jobs s" "sv_restart (finishInstallJob h jid s) = sv_restart s"
  "sv_history (finishInstallJob h jid s) = sv_history s" "sv_saved (finishInstallJob h jid s) = sv_saved s"
  "entry k (finishInstallJob h jid s) = entry k s"
  by (auto simp: finishInstallJob_def finishDefault_def Let_def recordEvent_def updater_frame entry_def split: option.split)

lemma finishInstallJob_objects [updater_frame]:
  "sv_objects (finishInstallJob h jid s) = sv_objects (finishDefault (ho_now h) jid 1 s)"
  by (auto simp: finishInstallJob_def Let_def recordEvent_def split: option.split)

text \<open>C3: A job gives a package to the package manager only if it is the package of the newest release (or of the
  release rolled back to), this release is newer than the running version (unless rolled back to),
  the digest of the downloaded file is the published one and the file is a KioskMate package of the
  right version and architecture; and it has written a copy of the configuration just before.\<close>

theorem only_checked_packages:
  assumes "Package_Manager program argv input package \<in> set (sv_effects (run_job h jid privilege target s))"
    and "Package_Manager program argv input package \<notin> set (sv_effects s)"
  shows "\<exists>r. passes_checks h r package \<and>
    (case target of
       None \<Rightarrow> latest h = Inr r \<and> 0 < compareVersion (release_version r) (sv_version s)
     | Some t \<Rightarrow> releaseVersion h t = Inr r) \<and>
    (\<exists>path data. ho_config h = Inr data \<and> sv_effects (run_job h jid privilege target s) =
       sv_effects s @ [Backup path data, Package_Manager program argv input package]) \<and>
    buildPrivilegedCommand privilege ''apt-get''
      ([''install'', ''-y''] @ (if target = None then [] else [''--allow-downgrades'']) @
       [ho_tmp h @ ''/'' @ as_Name (selectAsset (ho_arch h) (gr_Assets r))]) = Some (program, argv, input)"
proof (cases target)
  case None
  with assms install_effects [of program argv input package h jid privilege s] show ?thesis
    by (auto simp: run_job_def updater_frame)
next
  case (Some t)
  with assms rollback_effects [of program argv input package h jid privilege t s] show ?thesis
    by (auto simp: run_job_def updater_frame)
qed

subsection \<open>How a job ends\<close>

definition live :: "string \<Rightarrow> Service \<Rightarrow> bool" where
  \<comment> \<open>the job runs and its entry is in the history\<close>
  "live jid s \<longleftrightarrow> sv_installing s \<and> sv_restart s = None \<and>
     (\<exists>e. entry jid s = Some e \<and> he_FromVersion e = sv_version s) \<and>
     (\<exists>j. sv_objects s jid = Some j \<and> jb_ID j = jid \<and> jb_ExitCode j = - 1 \<and> jb_Stage j \<noteq> ''restarting'')"

definition settled :: "string \<Rightarrow> Service \<Rightarrow> bool" where
  \<comment> \<open>the job and its entry agree on how it ended\<close>
  "settled jid s \<longleftrightarrow> (\<exists>j e. sv_objects s jid = Some j \<and> jb_ID j = jid \<and> entry jid s = Some e \<and>
     sv_saved s = sv_history s \<and> he_FromVersion e = sv_version s \<and>
     he_Target e = jb_Target j \<and> he_Error e = jb_Error j \<and> he_Stage e = jb_Stage j \<and>
     (jb_ExitCode j = 1 \<and> he_Status e = ''failed'' \<and> jb_Stage j \<noteq> ''restarting'' \<and> sv_restart s = None \<or>
      jb_ExitCode j = 0 \<and> he_Status e = ''installed'' \<and> jb_Stage j = ''completed'' \<and> sv_restart s = None \<or>
      jb_ExitCode j = 0 \<and> he_Status e = ''restarting'' \<and> jb_Stage j = ''restarting'' \<and> sv_restart s = Some jid))"

lemma updateHistory_saved:
  "sv_objects s jid = Some j \<Longrightarrow> sv_saved (updateHistory now jid st s) = sv_history (updateHistory now jid st s)"
  by (simp add: updateHistory_def save_history_def)

lemma live_ops:
  "live jid s \<Longrightarrow> live jid (job_append jid l s)" "live jid s \<Longrightarrow> live jid (job_appends jid ls s)"
  "live jid s \<Longrightarrow> live jid (setTarget jid t s)" "live jid s \<Longrightarrow> live jid (updateHistory now jid st s)"
  "live jid s \<Longrightarrow> st \<noteq> ''restarting'' \<Longrightarrow> live jid (setJobStage h jid st s)"
  "live jid s \<Longrightarrow> live jid (setHistoryBackup jid p s)" "live jid s \<Longrightarrow> live jid (snd (Check h s))"
  "live jid s \<Longrightarrow> live jid (s\<lparr>sv_effects := E\<rparr>)"
  by (auto simp: live_def job_ops updater_frame) (simp_all add: entry_def)

lemma live_steps:
  "live jid s \<Longrightarrow> live jid (snd (download_job h jid url file n s))"
  "live jid s \<Longrightarrow> live jid (snd (backupConfig h jid s))"
  "live jid s \<Longrightarrow> live jid (snd (runPrivileged h jid p c args package s))"
  by (auto simp: download_job_def backupConfig_def runPrivileged_def Let_def split_beta intro!: live_ops
      split: sum.split option.split)

lemma fail_settled: "live jid s \<Longrightarrow> settled jid (fail_job h jid e s) \<and> sv_installing (fail_job h jid e s)"
  by (auto simp: live_def settled_def job_ops updater_frame updateHistory_saved)

lemma restarting_settled:
  assumes "live jid s"
  shows "settled jid ((updateHistory now jid ''restarting'' (setExit jid 0 (job_append jid l
      (setJobStage h jid ''restarting'' s))))\<lparr>sv_restart := Some jid\<rparr>)"
    and "sv_installing (updateHistory now jid ''restarting'' (setExit jid 0 (job_append jid l
      (setJobStage h jid ''restarting'' s))))"
proof -
  have e: "entry k (s\<lparr>sv_restart := x\<rparr>) = entry k s" for k s x by (simp add: entry_def)
  show "settled jid ((updateHistory now jid ''restarting'' (setExit jid 0 (job_append jid l
      (setJobStage h jid ''restarting'' s))))\<lparr>sv_restart := Some jid\<rparr>)"
    using assms by (auto simp: live_def settled_def job_ops updater_frame updateHistory_saved e)
qed (use assms in \<open>simp add: live_def job_ops updater_frame\<close>)

lemma applyRelease_settled:
  assumes "live jid s"
  shows "settled jid (applyRelease h jid p info allow s) \<and> sv_installing (applyRelease h jid p info allow s)"
  using assms
  by (auto simp: applyRelease_def Let_def split_beta fail_settled restarting_settled live_ops live_steps
      split: sum.split option.split)

lemma install_settled:
  assumes "live jid s"
  shows "settled jid (install h jid p s) \<and> sv_installing (install h jid p s)"
proof -
  let ?s1 = "job_append jid ''checking latest release'' (setJobStage h jid ''checking'' s)"
  have l: "live jid (snd (Check h ?s1))" using assms by (simp add: live_ops)
  then have "settled jid (updateHistory now jid ''installed'' (setExit jid 0 (setJobStage h jid ''completed''
      (setTarget jid v (job_append jid l (snd (Check h ?s1)))))))" for now v l
    by (auto simp: live_def settled_def job_ops updater_frame updateHistory_saved)
  moreover have "sv_installing (updateHistory now jid ''installed'' (setExit jid 0 (setJobStage h jid ''completed''
      (setTarget jid v (job_append jid l (snd (Check h ?s1)))))))" for now v l
    using l by (simp add: live_def job_ops updater_frame)
  ultimately show ?thesis
    using l by (auto simp: install_def Let_def split_beta fail_settled applyRelease_settled split: sum.split)
qed

lemma rollback_settled:
  assumes "live jid s"
  shows "settled jid (rollback h jid p t s) \<and> sv_installing (rollback h jid p t s)"
  using assms by (auto simp: rollback_def Let_def fail_settled applyRelease_settled live_ops split: sum.split)

lemma settled_finish:
  assumes "settled jid s" "sv_installing s"
  shows "settled jid (finishInstallJob h jid s) \<and>
    (\<exists>j. sv_objects (finishInstallJob h jid s) jid = Some j \<and> jb_Finished j = Some (ho_now h)) \<and>
    (sv_installing (finishInstallJob h jid s) \<longleftrightarrow> sv_restart s \<noteq> None)"
  using assms
  by (auto simp: settled_def finishInstallJob_def finishDefault_def Let_def recordEvent_def updater_frame entry_def)

lemma applyRelease_version [updater_frame]: "sv_version (applyRelease h jid p info allow s) = sv_version s"
proof -
  have d: "sv_version (snd (download_job h jid u f n s)) = sv_version s"
    "sv_version (snd (backupConfig h jid s)) = sv_version s"
    "sv_version (snd (runPrivileged h jid p c args package s)) = sv_version s" for s u f n c args package
    by (simp_all add: download_job_def backupConfig_def runPrivileged_def Let_def split_beta job_ops updater_frame
        split: sum.split option.split)
  show ?thesis
    by (simp add: applyRelease_def Let_def split_beta job_ops updater_frame d split: sum.split option.split)
qed

lemma run_job_version: "sv_version (run_job h jid p t s) = sv_version s"
  by (simp add: run_job_def install_def rollback_def Let_def split_beta job_ops updater_frame
      split: option.split sum.split)

lemma run_job_settled:
  assumes "live jid s"
  shows "settled jid (run_job h jid p t s) \<and>
    (\<exists>j. sv_objects (run_job h jid p t s) jid = Some j \<and> jb_Finished j = Some (ho_now h)) \<and>
    (sv_installing (run_job h jid p t s) \<longleftrightarrow> sv_restart (run_job h jid p t s) \<noteq> None)"
  unfolding run_job_def finishInstallJob_frame
  by (cases t) (use assms install_settled rollback_settled settled_finish in \<open>auto simp: finishInstallJob_frame\<close>)

subsection \<open>An example\<close>

definition demo_asset :: Asset where
  "demo_asset = \<lparr>as_Name = ''kioskmate_2.0_arm64.deb'', as_URL = ''u'', as_Digest = ''sha256:0107'', as_Size = 2\<rparr>"

definition demo_listing :: string where
  "demo_listing = ''-rwxr-xr-x ./usr/bin/kioskmate'' @ [CHR 0x0A] @
     ''-rw-r--r-- ./usr/lib/systemd/user/kioskmate.service''"

definition demo_deb :: dpkg where
  "demo_deb = \<lparr>deb_field = (\<lambda>_ f. if f = ''Package'' then Some ''kioskmate''
        else if f = ''Architecture'' then Some ''arm64'' else Some ''2.0''),
     deb_contents = (\<lambda>_. Some demo_listing)\<rparr>"

definition demo_host :: host where
  "demo_host = \<lparr>ho_now = 9, ho_stamp = ''20260101-000000'',
     ho_releases = Inr [(demo_release ''v2.0'' False)\<lparr>gr_Assets := [demo_asset]\<rparr>, demo_release ''v1.0'' False],
     ho_prerelease = False, ho_os = ''linux'', ho_arch = ''arm64'', ho_has = (\<lambda>_. True), ho_disk = Inr (2 ^ 40),
     ho_get = (\<lambda>_. Inr \<lparr>rs_status = 200, rs_length = 2, rs_body = [[1], [7]], rs_error = None\<rparr>),
     ho_mib = (\<lambda>_. ''0.0''), ho_sha256 = (\<lambda>d. d), ho_dpkg = demo_deb, ho_tmp = ''/tmp'', ho_dir = ''/d'',
     ho_config = Inr [5], ho_write = None, ho_apt = ([''Unpacking'' @ [CHR 0x0A]], None),
     ho_reload = None, ho_restart = None\<rparr>"

definition demo_started :: Service where
  "demo_started = snd (admit_job ''7'' ''update-install'' '''' 7 (new_service ''1.0'' 3 None []))"

definition demo_sudo :: privilegeCommand where
  "demo_sudo = \<lparr>pc_Mode = ''sudo'', pc_Password = ''''\<rparr>"

lemma applyRelease_ok:
  assumes "ri_Supported info" "validateEnvironment h (ri_Asset info) = None"
    and "snd (download (ho_get h (as_URL (ri_Asset info))) (as_Size (ri_Asset info))) = Inr package"
    and "verify (ho_sha256 h) package (as_Digest (ri_Asset info)) = None"
    and "validateDebPackage (ho_dpkg h) (ho_linux h) (ho_arch h) package (ri_LatestVersion info) = None"
    and "ho_config h = Inr data" "ho_write h = None"
    and "buildPrivilegedCommand p ''apt-get'' ([''install'', ''-y''] @ (if allow then [''--allow-downgrades''] else []) @
       [ho_tmp h @ ''/'' @ as_Name (ri_Asset info)]) = Some (program, argv, input)"
  shows "sv_effects (applyRelease h jid p info allow s) = sv_effects s @
     [Backup (ho_dir h @ ''/update-backups/config-'' @ ho_stamp h @ ''-v'' @ safeVersion (sv_version s) @ ''.json'') data,
      Package_Manager program argv input package] \<and>
    (snd (ho_apt h) = None \<longrightarrow> sv_restart (applyRelease h jid p info allow s) = Some jid)"
  using assms
  by (cases allow) (auto simp: applyRelease_def Let_def split_beta job_ops updater_frame download_job_def
      backupConfig_def runPrivileged_def split: option.split)

lemma demo_run:
  "sv_effects (run_job demo_host ''7'' demo_sudo None demo_started) =
     [Backup ''/d/update-backups/config-20260101-000000-v1.0.json'' [5],
      Package_Manager ''sudo'' [''-n'', ''apt-get'', ''install'', ''-y'', ''/tmp/kioskmate_2.0_arm64.deb''] '''' [1, 7]]"
  "sv_restart (run_job demo_host ''7'' demo_sudo None demo_started) = Some ''7''"
  "sv_effects demo_started = []"
proof -
  let ?r = "(demo_release ''v2.0'' False)\<lparr>gr_Assets := [demo_asset]\<rparr>"
  let ?s = "snd (Check demo_host (job_append ''7'' ''checking latest release''
    (setJobStage demo_host ''7'' ''checking'' demo_started)))"
  let ?info = "Status demo_host ?s"
  have started: "sv_effects demo_started = []" "sv_version demo_started = ''1.0''" by code_simp+
  have latest: "latest demo_host = Inr ?r" by code_simp
  have newer: "0 < compareVersion (release_version ?r) ''1.0''" "release_version ?r = ''2.0''" by code_simp+
  have asset: "selectAsset ''arm64'' [demo_asset] = demo_asset" by code_simp
  have linux: "ho_linux demo_host" "as_URL demo_asset \<noteq> ''''" "ho_arch demo_host = ''arm64''" by code_simp+
  have info: "fst (Check demo_host (job_append ''7'' ''checking latest release''
      (setJobStage demo_host ''7'' ''checking'' demo_started))) = Inr ?info"
    "ri_Asset ?info = demo_asset" "ri_Supported ?info" "ri_LatestVersion ?info = ''2.0''" "ri_UpdateAvailable ?info"
    using latest newer linux asset started
    by (simp_all add: Check_def Let_def Status_def recordEvent_def storeCheck_def setChecking_def
        release_info_def job_ops updater_frame)
  have "run_job demo_host ''7'' demo_sudo None demo_started =
      finishInstallJob demo_host ''7'' (applyRelease demo_host ''7'' demo_sudo ?info False ?s)"
    using info by (simp add: run_job_def install_def Let_def split_beta)
  moreover have apply_ok: "sv_effects (applyRelease demo_host ''7'' demo_sudo ?info False ?s) = sv_effects ?s @
     [Backup (ho_dir demo_host @ ''/update-backups/config-'' @ ho_stamp demo_host @ ''-v'' @
        safeVersion (sv_version ?s) @ ''.json'') [5],
      Package_Manager ''sudo'' [''-n'', ''apt-get'', ''install'', ''-y'', ''/tmp/kioskmate_2.0_arm64.deb''] '''' [1, 7]] \<and>
    (snd (ho_apt demo_host) = None \<longrightarrow> sv_restart (applyRelease demo_host ''7'' demo_sudo ?info False ?s) = Some ''7'')"
  proof (rule applyRelease_ok, unfold info(2,4))
    show "ri_Supported ?info" by (rule info)
    show "validateEnvironment demo_host demo_asset = None" by code_simp
    show "snd (download (ho_get demo_host (as_URL demo_asset)) (as_Size demo_asset)) = Inr [1, 7]" by code_simp
    show "verify (ho_sha256 demo_host) [1, 7] (as_Digest demo_asset) = None" by code_simp
    show "validateDebPackage (ho_dpkg demo_host) (ho_linux demo_host) (ho_arch demo_host) [1, 7] ''2.0'' = None"
      by code_simp
    show "ho_config demo_host = Inr [5]" "ho_write demo_host = None" by code_simp+
    show "buildPrivilegedCommand demo_sudo ''apt-get'' ([''install'', ''-y''] @ (if False then [''--allow-downgrades''] else []) @
       [ho_tmp demo_host @ ''/'' @ as_Name demo_asset]) =
       Some (''sudo'', [''-n'', ''apt-get'', ''install'', ''-y'', ''/tmp/kioskmate_2.0_arm64.deb''], '''')" by code_simp
  qed
  moreover have "safeVersion ''1.0'' = ''1.0''" by code_simp
  ultimately show "sv_effects (run_job demo_host ''7'' demo_sudo None demo_started) =
     [Backup ''/d/update-backups/config-20260101-000000-v1.0.json'' [5],
      Package_Manager ''sudo'' [''-n'', ''apt-get'', ''install'', ''-y'', ''/tmp/kioskmate_2.0_arm64.deb''] '''' [1, 7]]"
    "sv_restart (run_job demo_host ''7'' demo_sudo None demo_started) = Some ''7''"
    "sv_effects demo_started = []"
    using started by (simp_all add: updater_frame job_ops demo_host_def)
qed

lemma only_checked_packages_witness:
  "sv_effects (run_job demo_host ''7'' demo_sudo None demo_started) =
     [Backup ''/d/update-backups/config-20260101-000000-v1.0.json'' [5],
      Package_Manager ''sudo'' [''-n'', ''apt-get'', ''install'', ''-y'', ''/tmp/kioskmate_2.0_arm64.deb''] '''' [1, 7]] \<and>
   (\<exists>r. latest demo_host = Inr r \<and> passes_checks demo_host r [1, 7])"
  using only_checked_packages [where s = demo_started and h = demo_host and jid = "''7''" and privilege = demo_sudo and target = None]
    demo_run by force

lemma demo_started_live: "live ''7'' demo_started" "length (sv_history demo_started) = 1"
  by (simp_all add: demo_started_def admit_job_def new_service_def loadHistory_def finalizeHistoryAfterRestart_def
      beginHistory_def save_history_def pruneJobsLocked_def recordEvent_def live_def entry_def Let_def)

lemma fail_outcome:
  assumes "sv_objects s jid = Some j" "jb_ID j = jid" "entry jid s = Some e0"
  shows "map_option jb_ExitCode (sv_objects (fail_job h jid e s) jid) = Some 1"
    and "map_option he_Status (entry jid (fail_job h jid e s)) = Some ''failed''"
  using assms by (simp_all add: job_ops updater_frame)

lemma failed_restart:
  assumes "ho_restart h = Some e" "sv_objects s jid = Some j" "jb_ID j = jid" "entry jid s = Some en"
  shows "\<not> sv_installing (restartServiceAfterUpdate h jid s)"
    and "map_option jb_ExitCode (sv_objects (restartServiceAfterUpdate h jid s) jid) = Some 1"
    and "map_option he_Status (entry jid (restartServiceAfterUpdate h jid s)) = Some ''failed''"
proof -
  define t where "t = (case ho_reload h of
      None \<Rightarrow> s | Some e \<Rightarrow> job_append jid (''warning: systemd daemon-reload failed: '' @ e) s)"
  define pre where "pre = t\<lparr>sv_effects := sv_effects t @ [Restart], sv_restart := None\<rparr>"
  have r: "restartServiceAfterUpdate h jid s =
      (fail_job h jid (''restart KioskMate service: '' @ e) pre)\<lparr>sv_installing := False\<rparr>"
    using assms(1) by (simp add: restartServiceAfterUpdate_def Let_def pre_def t_def)
  have "sv_objects pre = sv_objects t" "entry jid pre = entry jid t"
    by (simp_all add: pre_def entry_restart)
  moreover have "\<exists>j'. sv_objects t jid = Some j' \<and> jb_ID j' = jid" "entry jid t = Some en"
    using assms by (auto simp: t_def job_append_def updater_frame split: option.split)
  ultimately obtain j' where "sv_objects pre jid = Some j'" "jb_ID j' = jid" "entry jid pre = Some en" by auto
  from fail_outcome [OF this, of h "''restart KioskMate service: '' @ e"]
  show "\<not> sv_installing (restartServiceAfterUpdate h jid s)"
    and "map_option jb_ExitCode (sv_objects (restartServiceAfterUpdate h jid s) jid) = Some 1"
    and "map_option he_Status (entry jid (restartServiceAfterUpdate h jid s)) = Some ''failed''"
    unfolding r by (simp_all add: entry_restart)
qed

text \<open>C17: Every job comes to an end: it is finished with exit code 0 or 1, its entry in the history agrees, and the
  service takes new requests again unless it waits for its restart; if the restart fails, the job and
  its entry have failed and the service takes requests again.\<close>

theorem job_ends:
  assumes "live jid s" "s1 = run_job h jid p target s" "ho_restart h' = Some e" "s2 = restartServiceAfterUpdate h' jid s1"
  shows "settled jid s1 \<and> map_option jb_Finished (sv_objects s1 jid) = Some (Some (ho_now h)) \<and>
    (sv_installing s1 \<longleftrightarrow> sv_restart s1 = Some jid) \<and>
    \<not> sv_installing s2 \<and> map_option jb_ExitCode (sv_objects s2 jid) = Some 1 \<and>
    map_option he_Status (entry jid s2) = Some ''failed''"
proof -
  note run = run_job_settled [OF assms(1), of h p target, folded assms(2)]
  then obtain j en where j: "sv_objects s1 jid = Some j" "jb_ID j = jid" "entry jid s1 = Some en"
    by (auto simp: settled_def)
  then have "\<not> sv_installing s2" "map_option jb_ExitCode (sv_objects s2 jid) = Some 1"
      "map_option he_Status (entry jid s2) = Some ''failed''"
    unfolding assms(4) by (rule failed_restart [where h = h', OF assms(3)])+
  moreover have "sv_installing s1 \<longleftrightarrow> sv_restart s1 = Some jid" using run by (auto simp: settled_def)
  ultimately show ?thesis using run by auto
qed

subsection \<open>One job at a time\<close>

lemma find_keep_last_snoc:
  assumes "he_ID e = jid" "find (\<lambda>e. he_ID e = jid) es = None"
  shows "find (\<lambda>e. he_ID e = jid) (keep_last 50 (es @ [e])) = Some e"
proof -
  obtain ys where "keep_last 50 (es @ [e]) = ys @ [e]" using keep_last_snoc [of 50 es e] by auto
  then have "find (\<lambda>e. he_ID e = jid) (keep_last 50 (es @ [e])) \<noteq> None"
    using assms by (auto simp: find_None_iff)
  then obtain x where x: "find (\<lambda>e. he_ID e = jid) (keep_last 50 (es @ [e])) = Some x" by auto
  then have "x \<in> set (keep_last 50 (es @ [e]))" "he_ID x = jid" by (auto simp: find_Some_iff)
  with set_keep_last [of 50 "es @ [e]"] assms(2) have "x = e" by (auto simp: find_None_iff)
  with x show ?thesis by simp
qed

lemma admit_live:
  assumes "admit_job jid name target now s = (Inr jid', s')" "sv_restart s = None" "entry jid s = None"
  shows "jid' = jid \<and> \<not> sv_installing s \<and> live jid s' \<and> sv_version s' = sv_version s \<and> sv_effects s' = sv_effects s \<and>
    (\<exists>j. sv_objects s' = (sv_objects s)(jid \<mapsto> j) \<and> jb_Finished j = None \<and> jb_ID j = jid)"
  using assms
  by (auto simp: admit_job_def Let_def beginHistory_def pruneJobsLocked_def recordEvent_def save_history_def
      live_def entry_def find_keep_last_snoc split: if_splits)

record request =
  rq_name :: string
  rq_target :: string
  rq_privilege :: privilegeCommand

type_synonym updater = "Service \<times> request list \<times> (string \<times> privilegeCommand \<times> string option) list"
  \<comment> \<open>the service, the requests between the two locks of \<^verbatim>\<open>startInstall\<close>, the goroutines of jobs\<close>

definition request_target :: "request \<Rightarrow> string option" where
  "request_target r = (if rq_name r = ''update-rollback'' then Some (rq_target r) else None)"

inductive updater_step :: "updater \<Rightarrow> updater \<Rightarrow> bool" where
  step_request: "\<not> sv_installing s \<Longrightarrow> preparePrivilege provider probe mode password = Inr (rq_privilege r) \<Longrightarrow>
     updater_step (s, waiting, running) (s, r # waiting, running)"
| step_admit: "r \<in> set waiting \<Longrightarrow> sv_objects s jid = None \<Longrightarrow> entry jid s = None \<Longrightarrow>
     admit_job jid (rq_name r) (rq_target r) now s = (Inr jid', s') \<Longrightarrow>
     updater_step (s, waiting, running)
       (s', remove1 r waiting, (jid', rq_privilege r, request_target r) # running)"
| step_refuse: "r \<in> set waiting \<Longrightarrow> admit_job jid (rq_name r) (rq_target r) now s = (Inl e, s') \<Longrightarrow>
     updater_step (s, waiting, running) (s', remove1 r waiting, running)"
| step_run: "(jid, p, t) \<in> set running \<Longrightarrow>
     updater_step (s, waiting, running) (run_job h jid p t s, waiting, remove1 (jid, p, t) running)"
| step_check: "updater_step (s, waiting, running) (snd (Check h s), waiting, running)"
| step_restart_fails: "sv_restart s = Some jid \<Longrightarrow> ho_restart h = Some e \<Longrightarrow>
     updater_step (s, waiting, running) (restartServiceAfterUpdate h jid s, waiting, running)"
| step_new_process: "updater_step (s, waiting, running) (new_service version now inferred (sv_saved s), [], [])"

inductive_cases updater_stepE: "updater_step st st'"

definition updater_invariant :: "updater \<Rightarrow> bool" where
  "updater_invariant st \<longleftrightarrow>
     (case st of (s, waiting, running) \<Rightarrow>
        length running \<le> 1 \<and>
        (\<forall>(jid, p, t)\<in>set running. live jid s) \<and>
        (running = [] \<longrightarrow> (sv_installing s \<longleftrightarrow> sv_restart s \<noteq> None)) \<and>
        (\<forall>jid j. sv_objects s jid = Some j \<and> jb_Finished j = None \<longrightarrow> jid \<in> fst ` set running) \<and>
        length (sv_history s) \<le> 50)"

lemma new_service_fields:
  "sv_installing (new_service version now inferred saved) = False"
  "sv_restart (new_service version now inferred saved) = None"
  "sv_objects (new_service version now inferred saved) = Map.empty"
  "sv_version (new_service version now inferred saved) = version"
  "sv_jobs (new_service version now inferred saved) = []"
  "length (sv_history (new_service version now inferred saved)) \<le> 50"
  by (auto simp: new_service_def loadHistory_def finalizeHistoryAfterRestart_def save_history_def Let_def
      split: option.split)

lemma history_length [updater_frame]:
  "length (sv_history (updateHistory now jid st s)) = length (sv_history s)"
  "length (sv_history (setHistoryBackup jid p s)) = length (sv_history s)"
  by (auto simp: updateHistory_def setHistoryBackup_def save_history_def split: option.split)

lemma applyRelease_history_length [updater_frame]:
  "length (sv_history (applyRelease h jid p info allow s)) = length (sv_history s)"
proof -
  have d: "length (sv_history (snd (download_job h jid u f n s))) = length (sv_history s)"
    "length (sv_history (snd (backupConfig h jid s))) = length (sv_history s)"
    "length (sv_history (snd (runPrivileged h jid p c args package s))) = length (sv_history s)" for s u f n c args package
    by (simp_all add: download_job_def backupConfig_def runPrivileged_def Let_def split_beta job_ops updater_frame
        split: sum.split option.split)
  show ?thesis
    by (simp add: applyRelease_def Let_def split_beta job_ops updater_frame d split: sum.split option.split)
qed

lemma run_job_history_length: "length (sv_history (run_job h jid p t s)) = length (sv_history s)"
  by (simp add: run_job_def install_def rollback_def Let_def split_beta job_ops updater_frame
      split: option.split sum.split)

lemma applyRelease_objects_other: "k \<noteq> jid \<Longrightarrow> sv_objects (applyRelease h jid p info allow s) k = sv_objects s k"
proof -
  assume k: "k \<noteq> jid"
  have d: "sv_objects (snd (download_job h jid u f n s)) k = sv_objects s k"
    "sv_objects (snd (backupConfig h jid s)) k = sv_objects s k"
    "sv_objects (snd (runPrivileged h jid p c args package s)) k = sv_objects s k" for s u f n c args package
    using k by (simp_all add: download_job_def backupConfig_def runPrivileged_def Let_def split_beta job_ops updater_frame
        split: sum.split option.split)
  from k show ?thesis
    by (simp add: applyRelease_def Let_def split_beta job_ops updater_frame d split: sum.split option.split)
qed

lemma run_job_objects_other: "k \<noteq> jid \<Longrightarrow> sv_objects (run_job h jid p t s) k = sv_objects s k"
  by (simp add: run_job_def install_def rollback_def Let_def split_beta job_ops updater_frame applyRelease_objects_other
      split: option.split sum.split)

lemma restart_fails:
  assumes "ho_restart h = Some e"
  shows "\<not> sv_installing (restartServiceAfterUpdate h jid s)" "sv_restart (restartServiceAfterUpdate h jid s) = None"
    and "length (sv_history (restartServiceAfterUpdate h jid s)) = length (sv_history s)"
    and "map_option jb_Finished (sv_objects (restartServiceAfterUpdate h jid s) k) = map_option jb_Finished (sv_objects s k)"
  using assms
  by (auto simp: restartServiceAfterUpdate_def Let_def job_ops updater_frame option.map_comp comp_def split: option.split)

lemma updater_invariant_step:
  assumes "updater_step st st'" "updater_invariant st"
  shows "updater_invariant st'"
  using assms
proof (cases rule: updater_step.cases)
  case (step_admit r waiting s jid now jid' s' running)
  with assms(2) have inv: "running = []" "sv_restart s = None"
    by (auto simp: updater_invariant_def live_def admit_job_def length_Suc_conv le_Suc_eq split: if_splits)
  from admit_live [OF step_admit(6) this(2) step_admit(5)] inv assms(2) step_admit show ?thesis
    by (auto simp: updater_invariant_def admit_job_def beginHistory_def save_history_def Let_def split: if_splits option.splits)
next
  case (step_refuse r waiting jid now s e s' running)
  with assms(2) show ?thesis by (auto simp: admit_job_def updater_invariant_def split: if_splits)
next
  case (step_run jid p t running s waiting h)
  with assms(2) have inv: "running = [(jid, p, t)]" "live jid s"
    by (auto simp: updater_invariant_def length_Suc_conv le_Suc_eq)
  from run_job_settled [OF this(2), of h p t] obtain j where j:
    "sv_objects (run_job h jid p t s) jid = Some j" "jb_Finished j = Some (ho_now h)"
    "sv_installing (run_job h jid p t s) \<longleftrightarrow> sv_restart (run_job h jid p t s) \<noteq> None" by blast
  have "k \<noteq> jid" if "sv_objects (run_job h jid p t s) k = Some j'" "jb_Finished j' = None" for k j'
    using that j by auto
  with j inv assms(2) step_run show ?thesis
    by (fastforce simp: updater_invariant_def run_job_history_length run_job_objects_other)
next
  case (step_check s waiting running h)
  with assms(2) show ?thesis by (auto simp: updater_invariant_def updater_frame live_ops split: prod.splits)
next
  case (step_restart_fails s jid h e waiting running)
  with assms(2) have "running = []" by (cases running) (auto simp: updater_invariant_def live_def)
  moreover have "\<exists>j'. sv_objects s k = Some j' \<and> jb_Finished j' = None"
    if "sv_objects (restartServiceAfterUpdate h jid s) k = Some j" "jb_Finished j = None" for k j
    using restart_fails(4) [OF step_restart_fails(4), of jid s k] that by (cases "sv_objects s k") auto
  ultimately show ?thesis
    using step_restart_fails assms(2) restart_fails(1-3) [OF step_restart_fails(4), of jid s]
    by (fastforce simp: updater_invariant_def)
next
  case (step_new_process s waiting running version now inferred)
  then show ?thesis by (simp add: updater_invariant_def new_service_fields)
qed (auto simp: updater_invariant_def)

lemma updater_invariant_reachable:
  assumes "updater_step\<^sup>*\<^sup>* st st'" "updater_invariant st"
  shows "updater_invariant st'"
  using assms by (induction rule: rtranclp_induct) (auto intro: updater_invariant_step)

text \<open>C18: However requests, checks, running jobs, failing restarts and restarts of the process interleave, at
  most one job runs, no other job is unfinished, and while one runs or the service waits for its
  restart every request is refused without an effect; the history keeps at most fifty entries.\<close>

theorem one_update_job:
  assumes "updater_step\<^sup>*\<^sup>* (new_service version now inferred saved, [], []) (s, waiting, running)"
  shows "length running \<le> 1 \<and> length (sv_history s) \<le> 50 \<and>
    (sv_installing s \<longleftrightarrow> running \<noteq> [] \<or> sv_restart s \<noteq> None) \<and>
    (\<forall>jid j. sv_objects s jid = Some j \<and> jb_Finished j = None \<longrightarrow> map fst running = [jid]) \<and>
    (running \<noteq> [] \<or> sv_restart s \<noteq> None \<longrightarrow>
       startInstall provider probe name target mode password now' s = (Inl update_in_progress, s))"
proof -
  have "updater_invariant (new_service version now inferred saved, [], [])"
    by (simp add: updater_invariant_def new_service_fields)
  with assms have inv: "updater_invariant (s, waiting, running)" by (rule updater_invariant_reachable)
  then have i: "sv_installing s \<longleftrightarrow> running \<noteq> [] \<or> sv_restart s \<noteq> None"
    by (cases running) (auto simp: updater_invariant_def live_def)
  have "map fst running = [jid]" if "sv_objects s jid = Some j" "jb_Finished j = None" for jid j
    using inv that by (fastforce simp: updater_invariant_def le_Suc_eq length_Suc_conv)
  with inv i show ?thesis by (auto simp: updater_invariant_def startInstall_def)
qed

lemma one_update_job_witness:
  "startInstall None (\<lambda>_ _ _. ('''', None)) ''update-install'' '''' ''sudo'' '''' 8 demo_started =
     (Inl update_in_progress, demo_started)"
proof -
  let ?new = "new_service ''1.0'' 3 None []"
  let ?r = "\<lparr>rq_name = ''update-install'', rq_target = '''', rq_privilege = demo_sudo\<rparr>"
  have p: "preparePrivilege None (\<lambda>_ _ _. ('''', None)) ''sudo'' '''' = Inr (rq_privilege ?r)" by code_simp
  have "updater_step (?new, [], []) (?new, [?r], [])"
    by (rule updater_step.step_request [OF _ p]) (simp add: new_service_fields)
  moreover have a: "admit_job ''7'' (rq_name ?r) (rq_target ?r) 7 ?new = (Inr ''7'', demo_started)"
    by (simp add: demo_started_def admit_job_def new_service_fields Let_def)
  then have "updater_step (?new, [?r], []) (demo_started, remove1 ?r [?r], (''7'', rq_privilege ?r, request_target ?r) # [])"
    by (intro updater_step.step_admit) (auto simp: new_service_fields entry_def new_service_def loadHistory_def
        finalizeHistoryAfterRestart_def)
  ultimately have "updater_step\<^sup>*\<^sup>* (?new, [], []) (demo_started, [], [(''7'', rq_privilege ?r, request_target ?r)])"
    by simp
  from one_update_job [OF this] show ?thesis by blast
qed

lemma job_ends_witness:
  "settled ''7'' (run_job demo_host ''7'' demo_sudo None demo_started) \<and>
   \<not> sv_installing (restartServiceAfterUpdate (demo_host\<lparr>ho_restart := Some ''timeout''\<rparr>) ''7''
       (run_job demo_host ''7'' demo_sudo None demo_started))"
  using job_ends [OF demo_started_live(1) refl _ refl, where h = demo_host and p = demo_sudo and target = None
      and h' = "demo_host\<lparr>ho_restart := Some ''timeout''\<rparr>" and e = "''timeout''"]
  by simp

subsection \<open>After a restart\<close>

lemma finalize_entry_running: "he_Status e \<noteq> ''restarting'' \<Longrightarrow> finalize_entry version now e = e"
  by (simp add: finalize_entry_def)

lemma new_service_history:
  assumes "saved \<noteq> []"
  shows "sv_history (new_service version now inferred saved) =
     map (finalize_entry version now) (keep_last 50 saved)"
proof -
  have "keep_last 50 saved \<noteq> []" using assms length_keep_last [of 50 saved] by (metis list.size(3) length_0_conv min_0R min_def zero_neq_numeral)
  then show ?thesis
    by (simp add: new_service_def loadHistory_def finalizeHistoryAfterRestart_def save_history_def Let_def)
qed

lemma entry_new_service:
  assumes "entry jid s = Some e" "sv_saved s = sv_history s" "length (sv_history s) \<le> 50"
  shows "entry jid (new_service version now inferred (sv_saved s)) = Some (finalize_entry version now e)"
proof -
  have "find (\<lambda>e. he_ID e = jid) (map (finalize_entry version now) es) =
      map_option (finalize_entry version now) (find (\<lambda>e. he_ID e = jid) es)" for es
    by (induction es) (auto simp: finalize_entry_def)
  moreover have "sv_history s \<noteq> []" using assms(1) by (auto simp: entry_def)
  ultimately show ?thesis
    using assms by (simp add: entry_def new_service_history)
qed

lemma sorted_first:
  assumes "e \<in> set es" "\<And>e'. e' \<in> set es \<Longrightarrow> e' \<noteq> e \<Longrightarrow> he_Started e' < he_Started e"
  shows "\<exists>rest. sort_key (\<lambda>e. - he_Started e) es = e # rest"
proof -
  obtain x rest where s: "sort_key (\<lambda>e. - he_Started e) es = x # rest"
    using assms(1) by (cases "sort_key (\<lambda>e. - he_Started e) es") (auto dest: arg_cong [where f = set])
  have "set (x # rest) = set es" unfolding s [symmetric] by simp
  then have "x \<in> set es" "e = x \<or> e \<in> set rest" using assms(1) by auto
  moreover have "sorted (map (\<lambda>e. - he_Started e) (x # rest))" unfolding s [symmetric] by simp
  ultimately have "x = e" using assms(2) [of x] by force
  with s show ?thesis by simp
qed

lemma History_target_newest:
  assumes "e \<in> set (sv_history s)" "\<And>e'. e' \<in> set (sv_history s) \<Longrightarrow> e' \<noteq> e \<Longrightarrow> he_Started e' < he_Started e"
    and "he_Status e = ''installed''" "he_Target e = sv_version s" "he_FromVersion e \<noteq> ''''"
    and "he_FromVersion e \<noteq> sv_version s"
  shows "History_target s = he_FromVersion e"
  using sorted_first [OF assms(1,2)] assms(3-)
  by (auto simp: History_target_def History_entries_def rollbackTarget_def)

text \<open>A job that reached the restart is judged by the version of the new process: if it is the installed
  one, its entry says so and a rollback to the version before is offered; otherwise the entry says
  that the update failed.\<close>

theorem restart_settles_update:
  assumes "live jid s" "length (sv_history s) \<le> 50"
    and "s1 = run_job h jid p target s" "sv_restart s1 = Some jid" "entry jid s1 = Some e"
    and "s2 = new_service version now inferred (sv_saved s1)"
    and "\<And>e'. e' \<in> set (sv_history s1) \<Longrightarrow> e' \<noteq> e \<Longrightarrow> he_Started e' < he_Started e"
  shows "\<exists>e2. entry jid s2 = Some e2 \<and> he_Finished e2 = Some now \<and> he_Target e2 = he_Target e \<and>
    (if version = he_Target e
     then he_Status e2 = ''installed'' \<and>
       (sv_version s \<noteq> '''' \<and> sv_version s \<noteq> version \<longrightarrow> History_target s2 = sv_version s)
     else he_Status e2 = ''failed'' \<and> he_Stage e2 = ''restart_failed'')"
proof -
  have settled: "settled jid s1" "sv_saved s1 = sv_history s1" "he_FromVersion e = sv_version s"
    using run_job_settled [OF assms(1), of h p target] run_job_version [of h jid p target s] assms(3,5)
    by (auto simp: settled_def)
  then have status: "he_Status e = ''restarting''" using assms(4,5) by (auto simp: settled_def)
  have len: "length (sv_history s1) \<le> 50" using assms(2,3) by (simp add: run_job_history_length)
  let ?e2 = "finalize_entry version now e"
  have e2: "entry jid s2 = Some ?e2" using entry_new_service [OF assms(5) settled(2) len] assms(6) by simp
  have "History_target s2 = sv_version s" if "version = he_Target e" "sv_version s \<noteq> ''''" "sv_version s \<noteq> version"
  proof -
    have e: "e \<in> set (sv_history s1)" using assms(5) by (auto simp: entry_def find_Some_iff)
    then have h2: "sv_history s2 = map (finalize_entry version now) (sv_history s1)"
      using assms(6) settled(2) len by (cases "sv_history s1 = []") (simp_all add: new_service_history)
    have "he_Started e' < he_Started ?e2" if "e' \<in> set (sv_history s2)" "e' \<noteq> ?e2" for e'
    proof -
      from that(1) h2 obtain e0 where "e' = finalize_entry version now e0" "e0 \<in> set (sv_history s1)" by auto
      with that(2) assms(7) [of e0] show ?thesis by (auto simp: finalize_entry_def split: if_splits)
    qed
    moreover have "?e2 \<in> set (sv_history s2)" using e h2 by auto
    ultimately have "History_target s2 = he_FromVersion ?e2"
      using that status settled(3) assms(6)
      by (intro History_target_newest) (auto simp: finalize_entry_def new_service_fields)
    then show ?thesis using settled(3) by (simp add: finalize_entry_def split: if_splits)
  qed
  with e2 status show ?thesis by (auto simp: finalize_entry_def)
qed

lemma restart_settles_update_witness:
  "\<exists>e e2. entry ''7'' (run_job demo_host ''7'' demo_sudo None demo_started) = Some e \<and>
     entry ''7'' (new_service (he_Target e) 20 None (sv_saved (run_job demo_host ''7'' demo_sudo None demo_started))) =
       Some e2 \<and> he_Status e2 = ''installed''"
proof -
  let ?s1 = "run_job demo_host ''7'' demo_sudo None demo_started"
  obtain e where e: "entry ''7'' ?s1 = Some e"
    using run_job_settled [OF demo_started_live(1), of demo_host demo_sudo None] by (auto simp: settled_def)
  then have "e \<in> set (sv_history ?s1)" by (auto simp: entry_def find_Some_iff)
  moreover have "length (sv_history ?s1) = 1" by (simp add: run_job_history_length demo_started_live)
  ultimately have "sv_history ?s1 = [e]" by (cases "sv_history ?s1") auto
  then have "e' \<in> set (sv_history ?s1) \<Longrightarrow> e' \<noteq> e \<Longrightarrow> he_Started e' < he_Started e" for e' by simp
  from restart_settles_update [OF demo_started_live(1) _ refl demo_run(2) e refl this,
      where version = "he_Target e" and now = 20 and inferred = None] e show ?thesis
    by (auto simp: demo_started_live)
qed

text \<open>If the process ends while the package manager runs, the entry of the job stays "running" in every later
  process, although no job runs; with the new version running it is never counted as installed.\<close>

theorem interrupted_install_stays_running:
  assumes "live jid s" "length (sv_history s) \<le> 50" "s1 = setJobStage h jid ''installing'' s"
    and "s2 = new_service version now inferred (sv_saved s1)"
  shows "entry jid s2 = entry jid s1 \<and> map_option he_Status (entry jid s2) = Some ''running'' \<and>
    map_option he_Stage (entry jid s2) = Some ''installing'' \<and> get_job jid s2 = None \<and> \<not> sv_installing s2"
proof -
  have "\<exists>e. entry jid s1 = Some e \<and> he_Status e = ''running'' \<and> he_Stage e = ''installing''"
    using assms(1,3) by (auto simp: live_def job_ops updater_frame)
  then obtain e where e: "entry jid s1 = Some e" "he_Status e = ''running''" "he_Stage e = ''installing''" by blast
  moreover have "sv_saved s1 = sv_history s1" "length (sv_history s1) \<le> 50"
    using assms(1-3) by (auto simp: live_def job_ops updater_frame updateHistory_saved)
  ultimately show ?thesis
    using entry_new_service [of jid s1 e version now inferred] assms(4)
    by (simp add: finalize_entry_running new_service_fields get_job_def)
qed

lemma interrupted_install_stays_running_witness:
  "map_option he_Status (entry ''7'' (new_service ''2.0'' 20 None
     (sv_saved (setJobStage demo_host ''7'' ''installing'' demo_started)))) = Some ''running''"
proof -
  have "length (sv_history demo_started) \<le> 50" by (simp add: demo_started_live)
  from interrupted_install_stays_running [OF demo_started_live(1) this refl refl,
      where h = demo_host and version = "''2.0''" and now = 20 and inferred = None]
  show ?thesis by blast
qed

end
