(* ===== verification/System_Actions.thy ===== *)
theory System_Actions
  imports Updater_Jobs Go_Time
begin

section \<open>System actions\<close>

text \<open>
  \<^verbatim>\<open>internal/actions\<close>: maintenance jobs (package upgrades, restarts, the time configuration) and the
  credential that is remembered for a quarter of an hour. What the host answers is the record
  \<open>act_env\<close>; \<^verbatim>\<open>verifyPrivilegeFn\<close> calls the probe of the updater. The properties read the command line
  given to \<^verbatim>\<open>su -c\<close> with \<open>sh_script\<close>.
\<close>

subsection \<open>Data\<close>

record Credential =
  cr_Mode :: string
  cr_Configured :: bool
  cr_Created :: int
  cr_ExpiresAt :: int
  cr_Remaining :: int
  cr_password :: string

record act_job =
  aj_ID :: string
  aj_Name :: string
  aj_Started :: int
  aj_Finished :: "int option"
  aj_ExitCode :: int
  aj_Output :: "string list"

record Actions =
  sa_objects :: "string \<rightharpoonup> act_job"
  sa_jobs :: "string list" \<comment> \<open>the keys of the job table\<close>
  sa_credential :: "Credential option"
  sa_events :: "event list"

record act_env =
  ae_now :: int
  ae_goos :: string
  ae_service :: string \<comment> \<open>\<^verbatim>\<open>Update.Service\<close> of the configuration\<close>
  ae_probe :: probe
  ae_zone :: "string \<Rightarrow> bool" \<comment> \<open>a file of that name under the zone directory\<close>

type_synonym invocation = "string \<times> string list \<times> string" \<comment> \<open>program, arguments, input\<close>

definition privilegeTTL :: int where
  "privilegeTTL = 15 * Minute"

subsection \<open>Commands\<close>

definition platformSupport :: "string \<Rightarrow> string \<Rightarrow> string option" where
  "platformSupport goos name =
     (if goos \<noteq> ''windows'' then None
      else if name = ''privilege'' then Some ''sudo and su privileges are unsupported on Windows''
      else Some (''system action '' @ name @ '' is unsupported on Windows''))"

definition checkPlatform :: "act_env \<Rightarrow> string \<Rightarrow> string option" where
  "checkPlatform env name = platformSupport (ae_goos env) name"

definition action_command :: "string \<Rightarrow> string \<Rightarrow> (string \<times> string list) option" where
  \<comment> \<open>\<^verbatim>\<open>Service.command\<close>\<close>
  "action_command service name =
     (if name = ''apt-update'' then
        Some (''sudo'', [''-n'', ''apt-get'', ''-o'', ''APT::Color=0'', ''-o'', ''Dpkg::Progress-Fancy=0'',
          ''-o'', ''APT::Update::Error-Mode=any'', ''update''])
      else if name = ''apt-upgrade'' then
        Some (''sudo'', [''-n'', ''apt-get'', ''-o'', ''APT::Color=0'', ''-o'', ''Dpkg::Progress-Fancy=0'',
          ''-y'', ''upgrade''])
      else if name = ''restart-service'' then Some (''systemctl'', [''--user'', ''restart'', service])
      else if name = ''reboot'' then Some (''sudo'', [''-n'', ''reboot''])
      else if name = ''shutdown'' then Some (''sudo'', [''-n'', ''shutdown'', ''-h'', ''now''])
      else None)"

definition sudoPasswordCommand :: "string \<Rightarrow> string list \<Rightarrow> string \<Rightarrow> invocation" where
  "sudoPasswordCommand command args password =
     (if command \<noteq> ''sudo'' then (command, args, '''')
      else (command, [''-S'', ''-p'', ''''] @ filter (\<lambda>a. a \<noteq> ''-n'') args, password @ [CHR 0x0A]))"

definition quote_trigger :: string where
  "quote_trigger = [CHR '' '', CHR 0x09, CHR 0x0A, CHR 0x27, CHR 0x22, CHR 0x5C, CHR ''$'']"

definition shell_arg :: "string \<Rightarrow> string" where
  \<comment> \<open>the body of the loop of \<^verbatim>\<open>shellJoin\<close>\<close>
  "shell_arg arg =
     (if contains_any arg quote_trigger
      then CHR 0x27 # concat (map (\<lambda>c. if c = CHR 0x27
         then [CHR 0x27, CHR 0x5C, CHR 0x27, CHR 0x27] else [c]) arg) @ [CHR 0x27]
      else arg)"

definition shellJoin :: "string list \<Rightarrow> string" where
  "shellJoin args = join '' '' (map shell_arg args)"

definition suPasswordCommand :: "string \<Rightarrow> string list \<Rightarrow> string \<Rightarrow> invocation" where
  "suPasswordCommand command args password =
     (''su'', [''-'', ''root'', ''-c'', command @ '' '' @ shellJoin args], password @ [CHR 0x0A])"

subsection \<open>The remembered credential\<close>

definition rejected :: "string \<Rightarrow> string \<times> string option \<Rightarrow> string option" where
  "rejected mode answer =
     (case snd answer of
        None \<Rightarrow> None
      | Some e \<Rightarrow> Some (mode @ '' password rejected: '' @
          (if trim_space (fst answer) = '''' then e else trim_space (fst answer))))"

definition verifyPrivilege :: "act_env \<Rightarrow> string \<Rightarrow> string \<Rightarrow> string option" where
  "verifyPrivilege env mode password =
     (if mode = ''sudo'' then
        rejected mode (ae_probe env ''sudo'' [''-S'', ''-p'', '''', ''-k'', ''true''] (password @ [CHR 0x0A]))
      else if mode = ''su'' then
        rejected mode (ae_probe env ''su'' [''-'', ''root'', ''-c'', ''true''] (password @ [CHR 0x0A]))
      else Some ''privilege mode must be sudo or su'')"

definition RememberPrivilege :: "act_env \<Rightarrow> string \<Rightarrow> string \<Rightarrow> Actions \<Rightarrow> string option \<times> Actions" where
  "RememberPrivilege env mode password0 s =
     (case checkPlatform env ''privilege'' of
        Some e \<Rightarrow> (Some e, s)
      | None \<Rightarrow>
          (let password = trim_space password0 in
           if password = '''' then (Some ''password required'', s)
           else if mode \<noteq> ''sudo'' \<and> mode \<noteq> ''su'' then (Some ''privilege mode must be sudo or su'', s)
           else (case verifyPrivilege env mode password of
                   Some e \<Rightarrow> (Some e, s)
                 | None \<Rightarrow>
                     (None, s\<lparr>sa_credential := Some \<lparr>cr_Mode = mode, cr_Configured = True, cr_Created = ae_now env,
                        cr_ExpiresAt = ae_now env + privilegeTTL, cr_Remaining = 0, cr_password = password\<rparr>\<rparr>))))"

definition ClearPrivilege :: "Actions \<Rightarrow> Actions" where
  "ClearPrivilege s = s\<lparr>sa_credential := None\<rparr>"

definition no_credential :: Credential where
  "no_credential = \<lparr>cr_Mode = '''', cr_Configured = False, cr_Created = 0, cr_ExpiresAt = 0, cr_Remaining = 0,
     cr_password = ''''\<rparr>"

definition PrivilegeStatus :: "int \<Rightarrow> Actions \<Rightarrow> Credential \<times> Actions" where
  "PrivilegeStatus now s =
     (case sa_credential s of
        None \<Rightarrow> (no_credential, s\<lparr>sa_credential := None\<rparr>)
      | Some c \<Rightarrow>
          if privilegeTTL < now - cr_Created c then (no_credential, s\<lparr>sa_credential := None\<rparr>)
          else (\<lparr>cr_Mode = cr_Mode c, cr_Configured = True, cr_Created = cr_Created c, cr_ExpiresAt = cr_ExpiresAt c,
                 cr_Remaining = max 0 (quot64 (cr_ExpiresAt c - now) Second), cr_password = ''''\<rparr>, s))"

definition privilegeCredential :: "int \<Rightarrow> Actions \<Rightarrow> (string \<times> string) option \<times> Actions" where
  "privilegeCredential now s =
     (case sa_credential s of
        None \<Rightarrow> (None, s\<lparr>sa_credential := None\<rparr>)
      | Some c \<Rightarrow>
          if cr_password c = '''' \<or> privilegeTTL < now - cr_Created c then (None, s\<lparr>sa_credential := None\<rparr>)
          else (Some (cr_Mode c, cr_password c), s))"

definition ResolvePrivilege :: "int \<Rightarrow> string \<Rightarrow> string \<Rightarrow> Actions \<Rightarrow> (string \<times> string \<times> bool) \<times> Actions" where
  "ResolvePrivilege now mode0 password s =
     (let mode = trim_space mode0 in
      if password \<noteq> '''' then ((mode, password, mode = ''sudo'' \<or> mode = ''su''), s)
      else
        let (stored, s) = privilegeCredential now s in
        case stored of
          Some (m, p) \<Rightarrow> ((m, p, True), s)
        | None \<Rightarrow> (let mode = (if mode = '''' then ''sudo'' else mode) in ((mode, '''', mode = ''sudo''), s)))"

subsection \<open>Jobs\<close>

definition act_started :: "Actions \<Rightarrow> string \<Rightarrow> int" where
  "act_started s jid = (case sa_objects s jid of None \<Rightarrow> 0 | Some j \<Rightarrow> aj_Started j)"

definition add_job :: "act_env \<Rightarrow> string \<Rightarrow> Actions \<Rightarrow> string \<times> Actions" where
  \<comment> \<open>the job of \<^verbatim>\<open>StartPrivileged\<close> and of \<^verbatim>\<open>startCommand\<close>\<close>
  "add_job env name s =
     (let jid = itoa (ae_now env);
          j = \<lparr>aj_ID = jid, aj_Name = name, aj_Started = ae_now env, aj_Finished = None, aj_ExitCode = - 1, aj_Output = []\<rparr>;
          s = s\<lparr>sa_objects := (sa_objects s)(jid \<mapsto> j), sa_jobs := List.insert jid (sa_jobs s)\<rparr>;
          s = s\<lparr>sa_jobs := prune_ids 100 (act_started s) (sa_jobs s)\<rparr>
      in (jid, s\<lparr>sa_events := sa_events s @ [(name, ''running'', ''maintenance job started'', [(''job_id'', jid)])]\<rparr>))"

definition with_password ::
  "string \<Rightarrow> string \<Rightarrow> string \<times> string list \<Rightarrow> string + invocation" where
  \<comment> \<open>the \<^verbatim>\<open>switch mode\<close> of \<^verbatim>\<open>StartPrivileged\<close> and \<^verbatim>\<open>StartTimeConfig\<close>\<close>
  "with_password mode password c =
     (if mode = ''sudo'' then Inr (sudoPasswordCommand (fst c) (snd c) password)
      else if mode = ''su'' then Inr (suPasswordCommand (fst c) (snd c) password)
      else Inl ''privilege mode must be sudo or su'')"

definition StartPrivileged ::
  "act_env \<Rightarrow> string \<Rightarrow> string \<Rightarrow> string \<Rightarrow> Actions \<Rightarrow> (string + string \<times> invocation) \<times> Actions" where
  \<comment> \<open>the job and what it will run\<close>
  "StartPrivileged env name mode0 password0 s =
     (case action_command (ae_service env) name of
        None \<Rightarrow> (Inl (''unknown action: '' @ name), s)
      | Some (command, args) \<Rightarrow>
        (case checkPlatform env name of
           Some e \<Rightarrow> (Inl e, s)
         | None \<Rightarrow>
           (let remember = trim_space password0 \<noteq> '''';
                (stored, s) = (if password0 = '''' then privilegeCredential (ae_now env) s else (None, s));
                (mode, password) = (case stored of Some (m, p) \<Rightarrow> (m, p) | None \<Rightarrow> (mode0, password0))
            in if password \<noteq> '''' then
                 (case with_password mode password (command, args) of
                    Inl e \<Rightarrow> (Inl e, s)
                  | Inr call \<Rightarrow>
                      (let (err, s) = (if remember then RememberPrivilege env mode password s else (None, s)) in
                       case err of
                         Some e \<Rightarrow> (Inl e, s)
                       | None \<Rightarrow> (let (jid, s) = add_job env name s in (Inr (jid, call), s))))
               else if command = ''sudo'' \<and> snd (ae_probe env ''sudo'' [''-n'', ''true''] '''') \<noteq> None
               then (Inl ''sudo privileges required'', s)
               else (let (jid, s) = add_job env name s in (Inr (jid, (command, args, '''')), s)))))"

definition Start :: "act_env \<Rightarrow> string \<Rightarrow> Actions \<Rightarrow> (string + string \<times> invocation) \<times> Actions" where
  "Start env name s = StartPrivileged env name '''' '''' s"

definition time_script :: string where
  "time_script = join [CHR 0x0A]
     [''set -eu'', ''timedatectl set-timezone '' @ [CHR 0x22] @ ''$1'' @ [CHR 0x22],
      ''mkdir -p /etc/systemd/timesyncd.conf.d'',
      ''printf '' @ [CHR 0x27] @ ''[Time]'' @ [CHR 0x5C] @ ''nNTP=%s'' @ [CHR 0x5C] @ ''n'' @ [CHR 0x27] @
        '' '' @ [CHR 0x22] @ ''$2'' @ [CHR 0x22] @ '' > /etc/systemd/timesyncd.conf.d/kioskmate.conf'',
      ''timedatectl set-ntp true'',
      ''if systemctl list-unit-files systemd-timesyncd.service >/dev/null 2>&1; then systemctl restart systemd-timesyncd.service; fi'']"

definition time_args :: "string \<Rightarrow> string \<Rightarrow> string list" where
  "time_args timezone server = [''-n'', ''sh'', ''-c'', time_script, ''kioskmate-time'', timezone, server]"

definition StartTimeConfig ::
  "act_env \<Rightarrow> string \<Rightarrow> string \<Rightarrow> string \<Rightarrow> string \<Rightarrow> Actions \<Rightarrow> (string + string \<times> invocation) \<times> Actions" where
  "StartTimeConfig env timezone0 server0 mode0 password0 s =
     (case checkPlatform env ''time-config'' of
        Some e \<Rightarrow> (Inl e, s)
      | None \<Rightarrow>
        (let timezone = trim_space timezone0; server = trim_space server0 in
         if timezone = '''' \<or> server = '''' then (Inl ''timezone and NTP server are required'', s)
         else if contains_any (timezone @ server) [CHR 0x0D, CHR 0x0A, CHR 0x00] then (Inl ''invalid time configuration'', s)
         else if timezone \<noteq> ''UTC'' \<and> \<not> ae_zone env timezone then (Inl (''unknown timezone: '' @ timezone), s)
         else
           let (stored, s) = (if password0 = '''' then privilegeCredential (ae_now env) s else (None, s));
               (mode, password) = (case stored of Some (m, p) \<Rightarrow> (m, p) | None \<Rightarrow> (mode0, password0))
           in if password \<noteq> '''' then
                (case with_password mode password (''sudo'', time_args timezone server) of
                   Inl e \<Rightarrow> (Inl e, s)
                 | Inr call \<Rightarrow> (let (jid, s) = add_job env ''time-config'' s in (Inr (jid, call), s)))
              else (let (jid, s) = add_job env ''time-config'' s
                    in (Inr (jid, (''sudo'', time_args timezone server, '''')), s))))"

definition act_modify :: "string \<Rightarrow> (act_job \<Rightarrow> act_job) \<Rightarrow> Actions \<Rightarrow> Actions" where
  "act_modify jid f s = s\<lparr>sa_objects := (sa_objects s)(jid := map_option f (sa_objects s jid))\<rparr>"

definition run_command ::
  "int \<Rightarrow> string \<Rightarrow> string \<times> string list \<Rightarrow> string list \<times> string option \<Rightarrow> Actions \<Rightarrow> Actions" where
  \<comment> \<open>\<^verbatim>\<open>run\<close>, with the output and the error of the command\<close>
  "run_command now jid c answer s =
     (let s = act_modify jid (\<lambda>j. j\<lparr>aj_Output := aj_Output j @ [fst c @ '' '' @ join '' '' (snd c)] @
            job_flush (fold job_write (fst answer) ('''', []))\<rparr>) s;
          s = (case snd answer of
              Some e \<Rightarrow> act_modify jid (\<lambda>j. j\<lparr>aj_Output := aj_Output j @ [''error: '' @ e], aj_ExitCode := 1\<rparr>) s
            | None \<Rightarrow> act_modify jid (\<lambda>j. j\<lparr>aj_ExitCode := 0\<rparr>) s);
          s = act_modify jid (\<lambda>j. j\<lparr>aj_ExitCode := (if aj_ExitCode j < 0 then 1 else aj_ExitCode j),
              aj_Finished := Some now\<rparr>) s
      in case sa_objects s jid of
           None \<Rightarrow> s
         | Some j \<Rightarrow> s\<lparr>sa_events := sa_events s @ [(aj_Name j, if aj_ExitCode j = 0 then ''ok'' else ''error'',
             ''maintenance job completed'', [(''job_id'', aj_ID j), (''exit_code'', itoa (aj_ExitCode j))])]\<rparr>)"

definition find_job :: "string \<Rightarrow> Actions \<Rightarrow> act_job option" where
  \<comment> \<open>\<^verbatim>\<open>Service.Job\<close>\<close>
  "find_job jid s = (if jid \<in> set (sa_jobs s) then sa_objects s jid else None)"

definition Jobs :: "int \<Rightarrow> Actions \<Rightarrow> act_job list" where
  \<comment> \<open>newest first; jobs do not start at the same instant\<close>
  "Jobs limit s =
     (let js = sort_key (\<lambda>j. - aj_Started j) (List.map_filter (sa_objects s) (sa_jobs s)) in
      if 0 < limit \<and> limit < int (length js) then take (nat limit) js else js)"

subsection \<open>What a privileged action runs\<close>

definition plain_word :: "string \<Rightarrow> bool" where
  "plain_word w \<longleftrightarrow> w \<noteq> '''' \<and> list_all (\<lambda>c. c \<in> set plain_chars) w"

definition shell_safe :: "string \<Rightarrow> bool" where
  \<comment> \<open>\<^verbatim>\<open>shellJoin\<close> writes such an argument as one word\<close>
  "shell_safe w \<longleftrightarrow> plain_word w \<or> contains_any w quote_trigger"

lemma plain_chars_special: "c \<in> set plain_chars \<Longrightarrow> c \<notin> {CHR '' '', CHR '';'', CHR 0x27, CHR 0x22, CHR 0x5C}"
  by (auto simp: plain_chars_def lower_letters_def upper_letters_def digits_def)

lemma sh_plain:
  assumes "list_all (\<lambda>c. c \<in> set plain_chars) p"
  shows "sh_script Plain (Some w) (p @ t) = sh_script Plain (Some (w @ p)) t"
  using assms
proof (induction p arbitrary: w)
  case (Cons c p)
  then show ?case using plain_chars_special [of c] by simp
qed simp

lemma sh_plain_word:
  assumes "plain_word p"
  shows "sh_script Plain None (p @ t) = sh_script Plain (Some p) t"
proof -
  obtain c q where p: "p = c # q" "c \<in> set plain_chars" "list_all (\<lambda>c. c \<in> set plain_chars) q"
    using assms by (cases p) (auto simp: plain_word_def)
  then show ?thesis using plain_chars_special [of c] sh_plain [of q "[c]" t] by simp
qed

lemma sh_escaped:
  "sh_script Single (Some w) (concat (map (\<lambda>c. if c = CHR 0x27
       then [CHR 0x27, CHR 0x5C, CHR 0x27, CHR 0x27] else [c]) p) @ CHR 0x27 # t) =
   sh_script Plain (Some (w @ p)) t"
  by (induction p arbitrary: w) simp_all

lemma sh_shell_arg: "shell_safe w \<Longrightarrow> sh_script Plain None (shell_arg w @ t) = sh_script Plain (Some w) t"
proof (cases "contains_any w quote_trigger")
  case True
  then show ?thesis using sh_escaped [of "[]" w t] by (simp add: shell_arg_def)
qed (use sh_plain_word in \<open>simp add: shell_safe_def shell_arg_def\<close>)

lemma add_word_fun: "add_words (Some w) = (\<lambda>cs. (w # hd cs) # tl cs)"
  by (simp add: fun_eq_iff add_words_def)

lemma sh_shellJoin:
  assumes "list_all shell_safe ws" "ws \<noteq> []"
  shows "sh_script Plain None (shellJoin ws) = Some [ws]"
    and "sh_script Plain None (shellJoin ws @ '' '' @ t) = map_option (\<lambda>cs. (ws @ hd cs) # tl cs) (sh_script Plain None t)"
  using assms
proof (induction ws rule: induct_list012)
  case (2 w)
  {
    case 1
    then show ?case using sh_shell_arg [of w "[]"] by (simp add: shellJoin_def)
  next
    case 2
    then show ?case using sh_shell_arg [of w "'' '' @ t"]
      by (simp add: shellJoin_def add_word_fun)
  }
next
  case (3 w v ws)
  {
    case 1
    then have "sh_script Plain None (shellJoin (v # ws)) = Some [v # ws]" using 3 by simp
    with 1 show ?case using sh_shell_arg [of w "'' '' @ shellJoin (v # ws)"] by (simp add: shellJoin_def)
  next
    case 2
    then have "sh_script Plain None (shellJoin (v # ws) @ '' '' @ t) =
        map_option (\<lambda>cs. ((v # ws) @ hd cs) # tl cs) (sh_script Plain None t)" using 3 by simp
    with 2 show ?case using sh_shell_arg [of w "'' '' @ shellJoin (v # ws) @ '' '' @ t"]
      by (simp add: shellJoin_def add_word_fun option.map_comp comp_def)
  }
qed simp_all

lemma sh_command_line:
  assumes "plain_word command" "list_all shell_safe args" "args \<noteq> []"
  shows "sh_script Plain None (command @ '' '' @ shellJoin args) = Some [command # args]"
  using sh_plain_word [OF assms(1), of "'' '' @ shellJoin args"] sh_shellJoin(1) [OF assms(2,3)] by simp

lemma action_words:
  assumes "action_command service name = Some (command, args)" "plain_word service"
  shows "plain_word command \<and> list_all shell_safe args \<and> args \<noteq> []"
proof -
  have words: "list_all plain_word [''sudo'', ''systemctl'', ''-n'', ''apt-get'', ''-o'', ''APT::Color=0'', ''Dpkg::Progress-Fancy=0'',
      ''APT::Update::Error-Mode=any'', ''update'', ''-y'', ''upgrade'', ''--user'', ''restart'', ''reboot'', ''shutdown'', ''-h'', ''now'']"
    by code_simp
  from assms words show ?thesis
    by (auto simp: action_command_def shell_safe_def split: if_splits)
qed

definition usable_password :: "act_env \<Rightarrow> string \<Rightarrow> Actions \<Rightarrow> string \<Rightarrow> bool" where
  \<comment> \<open>the password of the request, else the remembered one, at most a quarter of an hour old\<close>
  "usable_password env given s p \<longleftrightarrow> p \<noteq> '''' \<and>
     (given = p \<or> given = '''' \<and> (\<exists>c. sa_credential s = Some c \<and> cr_password c = p \<and> ae_now env - cr_Created c \<le> privilegeTTL))"


definition demo_env :: act_env where
  "demo_env = \<lparr>ae_now = 9, ae_goos = ''linux'', ae_service = ''kioskmate.service'', ae_probe = (\<lambda>_ _ _. ('''', None)),
     ae_zone = (\<lambda>_. True)\<rparr>"

definition no_actions :: Actions where
  "no_actions = \<lparr>sa_objects = Map.empty, sa_jobs = [], sa_credential = None, sa_events = []\<rparr>"


subsection \<open>The name of the time server\<close>

text \<open>A time server named \<^verbatim>\<open>a;b\<close> is accepted; under su the shell then runs \<open>b\<close> as a command of its own, as
  root, because \<^verbatim>\<open>shellJoin\<close> only quotes arguments with white space, quotes, backslashes or dollar
  signs. A remembered credential suffices.\<close>

theorem time_server_runs_command:
  assumes "platformSupport (ae_goos env) ''time-config'' = None" "trim_space timezone = ''UTC''"
    and "trim_space server = a @ '';'' @ b" "plain_word a" "plain_word b"
    and "usable_password env given s p" "if given = '''' then map_option cr_Mode (sa_credential s) = Some ''su'' else mode = ''su''"
  shows "\<exists>jid line. fst (StartTimeConfig env timezone server mode given s) =
      Inr (jid, ''su'', [''-'', ''root'', ''-c'', line], p @ [CHR 0x0A]) \<and>
    sh_script Plain None line = Some [''sudo'' # butlast (time_args ''UTC'' '''') @ [a], [b]]"
proof -
  have plain: "list_all (\<lambda>c. c \<in> set plain_chars) a" "list_all (\<lambda>c. c \<in> set plain_chars) b"
    using assms(4,5) by (auto simp: plain_word_def)
  have ok: "\<not> contains_any (''UTC'' @ a @ '';'' @ b) [CHR 0x0D, CHR 0x0A, CHR 0x00]"
    and unquoted: "\<not> contains_any (a @ '';'' @ b) quote_trigger"
  proof -
    have bad: "list_all (\<lambda>c. c \<notin> set (quote_trigger @ [CHR 0x0D, CHR 0x0A, CHR 0x00])) (CHR '';'' # ''UTC'' @ plain_chars)"
      by code_simp
    then have "list_all (\<lambda>c. c \<notin> set (quote_trigger @ [CHR 0x0D, CHR 0x0A, CHR 0x00])) (''UTC'' @ a @ '';'' @ b)"
      using plain unfolding list_all_iff by auto
    then show "\<not> contains_any (''UTC'' @ a @ '';'' @ b) [CHR 0x0D, CHR 0x0A, CHR 0x00]"
      and "\<not> contains_any (a @ '';'' @ b) quote_trigger"
      unfolding contains_any_def list_ex_iff list_all_iff by auto
  qed
  let ?line = "''sudo '' @ shellJoin (time_args ''UTC'' (a @ '';'' @ b))"
  have "fst (StartTimeConfig env timezone server mode given s) =
      Inr (itoa (ae_now env), ''su'', [''-'', ''root'', ''-c'', ?line], p @ [CHR 0x0A])"
    using assms ok
    by (auto simp: StartTimeConfig_def checkPlatform_def Let_def split_beta usable_password_def privilegeCredential_def
        with_password_def suPasswordCommand_def add_job_def split: if_splits)
  moreover have "sh_script Plain None ?line = Some [''sudo'' # butlast (time_args ''UTC'' '''') @ [a], [b]]"
  proof -
    have words: "plain_word ''sudo''" "list_all shell_safe (butlast (time_args ''UTC'' ''''))" by code_simp+
    have last: "sh_script Plain None (a @ '';'' @ b) = Some [[a], [b]]"
      using sh_plain_word [OF assms(4), of "'';'' @ b"] sh_plain_word [OF assms(5), of "[]"] by simp
    have "shellJoin (time_args ''UTC'' (a @ '';'' @ b)) =
        shellJoin (butlast (time_args ''UTC'' '''')) @ '' '' @ a @ '';'' @ b"
      using unquoted by (simp add: shellJoin_def time_args_def shell_arg_def [of "a @ '';'' @ b", simplified])
    then show ?thesis
      using sh_plain_word [OF words(1), of "'' '' @ shellJoin (time_args ''UTC'' (a @ '';'' @ b))"]
        sh_shellJoin(2) [OF words(2), of "a @ '';'' @ b"] last by (simp add: time_args_def)
  qed
  ultimately show ?thesis by blast
qed

lemma time_server_runs_command_witness:
  "\<exists>jid line. fst (StartTimeConfig demo_env ''UTC'' ''pool.ntp.org;reboot'' ''su'' ''x'' no_actions) =
      Inr (jid, ''su'', [''-'', ''root'', ''-c'', line], ''x'' @ [CHR 0x0A]) \<and>
    sh_script Plain None line = Some [''sudo'' # butlast (time_args ''UTC'' '''') @ [''pool.ntp.org''], [''reboot'']]"
proof -
  have "platformSupport (ae_goos demo_env) ''time-config'' = None" "trim_space ''UTC'' = ''UTC''"
    "trim_space ''pool.ntp.org;reboot'' = ''pool.ntp.org'' @ '';'' @ ''reboot''" "plain_word ''pool.ntp.org''"
    "plain_word ''reboot''" "usable_password demo_env ''x'' no_actions ''x''"
    "if ''x'' = '''' then map_option cr_Mode (sa_credential no_actions) = Some ''su'' else ''su'' = ''su''"
    by (code_simp, code_simp, code_simp, code_simp, code_simp, simp add: usable_password_def, simp)
  from time_server_runs_command [OF this] show ?thesis .
qed

end
