(* ===== verification/Supervisor.thy ===== *)
theory Supervisor
  imports Config_Types Go_Time
begin

section \<open>The browser process\<close>

text \<open>
  The life of the browser process in \<^verbatim>\<open>internal/supervisor\<close>: starting, stopping and restarting it,
  what happens when it exits, automatic recovery with its backoff and its hourly budget, the
  watchdog of memory and processor load, the heartbeat of the page, and the guard that stops the
  browser when Home Assistant refuses its login (browser.go, runtime.go, operations.go, hang.go,
  ha_auth.go, cdp.go). What the process, its page and Home Assistant answer is the record \<open>browser_env\<close>;
  an operation reads the clock once. Instants are nanoseconds, the zero \<^verbatim>\<open>time.Time\<close> is \<open>zero_time\<close>.
\<close>

subsection \<open>Data\<close>

record RecoveryStatus =
  rc_State :: string
  rc_Stage :: string
  rc_Reason :: string
  rc_Attempts :: int
  rc_LastAction :: string
  rc_LastResult :: string
  rc_LastAt :: "time option"
  rc_BackoffUntil :: "time option"

record AuthGuardStatus =
  ag_Confidence :: string
  ag_Origin :: string
  ag_Resource :: string
  ag_HTTPStatus :: int
  ag_NextAction :: string
  ag_Tripped :: bool
  ag_Reason :: string
  ag_Kind :: string
  ag_SuggestedAction :: string
  ag_KioskIP :: string
  ag_At :: "time option"
  ag_FirstSeen :: "time option"
  ag_LastSeen :: "time option"
  ag_Occurrences :: int

record ExitStatus =
  ex_At :: "time option"
  ex_Expected :: bool
  ex_Reason :: string
  ex_Error :: string
  ex_ExitCode :: int
  ex_RuntimeMS :: int
  ex_Generation :: int

record WatchdogState = \<comment> \<open>the fields of \<^verbatim>\<open>WatchdogStatus\<close> that are not copied from the configuration\<close>
  ws_LastRestart :: "time option"
  ws_LastReason :: string
  ws_LastAction :: string
  ws_SuppressedUntil :: "time option"
  ws_RestartWindowCount :: nat
  ws_Pressure :: string

record Process = \<comment> \<open>the fields of \<^verbatim>\<open>Browser\<close> about the process\<close>
  bp_running :: bool
  bp_started :: time
  bp_generation :: int
  bp_startCount :: int
  bp_restartCount :: int
  bp_stopping :: bool
  bp_stopReason :: string
  bp_manuallyStopped :: bool
  bp_lastError :: string
  bp_exit :: ExitStatus
  bp_exitCounts :: "string \<Rightarrow> nat"
  bp_readySince :: time
  bp_devTools :: bool
  bp_requiresControl :: bool
  bp_controlFailures :: int
  bp_guard :: AuthGuardStatus
  bp_evidence :: "(string \<times> time list) list"
  bp_recovery :: RecoveryStatus
  bp_recoveryRuns :: "time list"
  bp_epoch :: nat
  bp_timer :: "(nat \<times> time) option" \<comment> \<open>the recovery that waits, with its epoch\<close>
  bp_watchdog :: WatchdogState
  bp_watchdogRuns :: "time list"
  bp_hotSince :: time
  bp_rebootRequested :: bool
  bp_operations :: "(string \<times> string option) list" \<comment> \<open>action and error, oldest first\<close>

record browser_env =
  be_now :: time
  be_banned :: bool \<comment> \<open>the page is one of Home Assistant and its manifest is forbidden\<close>
  be_start :: "string option" \<comment> \<open>the first other error of starting the process\<close>
  be_cdp :: bool \<comment> \<open>\<^verbatim>\<open>supportsCDP\<close> of the preset\<close>
  be_reload :: "string option"
  be_navigate :: "string option"
  be_terminate :: "string option"
  be_exit :: "string option \<times> int" \<comment> \<open>how a terminated process ends\<close>
  be_until :: "time \<Rightarrow> string" \<comment> \<open>an instant as text\<close>
  be_duration :: "duration \<Rightarrow> string" \<comment> \<open>a rounded duration as text\<close>
  be_percent :: "rat \<Rightarrow> string"
  be_origin :: "string \<Rightarrow> string" \<comment> \<open>\<^verbatim>\<open>canonicalOrigin\<close>\<close>
  be_kioskIP :: string
  be_reboot :: "string option option" \<comment> \<open>the reboot handler, if there is one, with its error\<close>

definition no_recovery :: RecoveryStatus where
  "no_recovery = \<lparr>rc_State = '''', rc_Stage = '''', rc_Reason = '''', rc_Attempts = 0, rc_LastAction = '''',
     rc_LastResult = '''', rc_LastAt = None, rc_BackoffUntil = None\<rparr>"

definition no_guard :: AuthGuardStatus where
  "no_guard = \<lparr>ag_Confidence = '''', ag_Origin = '''', ag_Resource = '''', ag_HTTPStatus = 0, ag_NextAction = '''',
     ag_Tripped = False, ag_Reason = '''', ag_Kind = '''', ag_SuggestedAction = '''', ag_KioskIP = '''', ag_At = None,
     ag_FirstSeen = None, ag_LastSeen = None, ag_Occurrences = 0\<rparr>"

definition new_process :: Process where
  "new_process = \<lparr>bp_running = False, bp_started = zero_time, bp_generation = 0, bp_startCount = 0, bp_restartCount = 0,
     bp_stopping = False, bp_stopReason = '''', bp_manuallyStopped = False, bp_lastError = '''',
     bp_exit = \<lparr>ex_At = None, ex_Expected = False, ex_Reason = '''', ex_Error = '''', ex_ExitCode = 0,
       ex_RuntimeMS = 0, ex_Generation = 0\<rparr>,
     bp_exitCounts = (\<lambda>_. 0), bp_readySince = zero_time, bp_devTools = False, bp_requiresControl = False,
     bp_controlFailures = 0, bp_guard = no_guard, bp_evidence = [], bp_recovery = no_recovery, bp_recoveryRuns = [],
     bp_epoch = 0, bp_timer = None,
     bp_watchdog = \<lparr>ws_LastRestart = None, ws_LastReason = '''', ws_LastAction = '''', ws_SuppressedUntil = None,
       ws_RestartWindowCount = 0, ws_Pressure = ''''\<rparr>,
     bp_watchdogRuns = [], bp_hotSince = zero_time, bp_rebootRequested = False, bp_operations = []\<rparr>"

subsection \<open>Texts\<close>

definition firstRuntimeString :: "string list \<Rightarrow> string" where
  "firstRuntimeString values =
     (case find (\<lambda>v. trim_space v \<noteq> '''') values of None \<Rightarrow> '''' | Some v \<Rightarrow> trim_space v)"

definition normalizeExitReason :: "string \<Rightarrow> string" where
  "normalizeExitReason reason =
     (let r = map (\<lambda>c. if c = CHR '' '' \<or> c = CHR ''-'' \<or> c = CHR ''/'' then CHR ''_'' else c) (to_lower (trim_space reason))
      in if r = '''' then ''controlled_stop'' else r)"

definition classifyProcessExit :: "bool \<Rightarrow> string \<Rightarrow> duration \<Rightarrow> string option \<Rightarrow> string" where
  \<comment> \<open>the error \<^verbatim>\<open>os.ErrProcessDone\<close> counts as none\<close>
  "classifyProcessExit expected stopReason runtime err =
     (if expected then normalizeExitReason stopReason
      else if 0 < runtime \<and> runtime < 5 * Second then ''startup_exit''
      else if err \<noteq> None then ''process_crash''
      else ''unexpected_exit'')"

definition classifyAuthGuard :: "string \<Rightarrow> string \<times> string" where
  "classifyAuthGuard reason =
     (let lower = to_lower reason in
      if contains lower ''403'' \<or> contains lower ''forbidden'' \<or> contains lower ''ip ban'' then
        (''access_denied'', ''Check Home Assistant and proxy access rules. If HA confirms an IP ban, remove only this kiosk'' @ [CHR 0x27] @
           ''s entry on the HA host and restart HA. Preserve the browser session first.'')
      else if contains lower ''401'' \<or> contains lower ''unauthorized'' \<or> contains lower ''token'' then
        (''credentials'', ''Reset the KioskMate HA session and sign in again with valid Home Assistant credentials.'')
      else (''authentication'', ''Reset the KioskMate HA session and sign in to Home Assistant again.''))"

definition auth_error :: "Process \<Rightarrow> string" where
  "auth_error b = ''Home Assistant authentication guard is active: '' @ ag_Reason (bp_guard b) @
     ''; reset the browser session before continuing''"

definition authenticationAllowed :: "Process \<Rightarrow> string option" where
  "authenticationAllowed b = (if ag_Tripped (bp_guard b) then Some (auth_error b) else None)"

subsection \<open>Recovery: backoff and budget\<close>

definition stableRuntime :: duration where
  "stableRuntime = 10 * Minute"

definition recoveryDelay :: "int \<Rightarrow> duration" where
  "recoveryDelay attempt0 =
     (let attempt = (if attempt0 < 1 then 1 else attempt0);
          delay = 5 * Second * 2 ^ nat (min (attempt - 1) 7)
      in if 10 * Minute < delay then 10 * Minute else delay)"

definition set_recovery :: "(RecoveryStatus \<Rightarrow> RecoveryStatus) \<Rightarrow> Process \<Rightarrow> Process" where
  "set_recovery f b = b\<lparr>bp_recovery := f (bp_recovery b)\<rparr>"

definition setStartFailureLocked :: "time \<Rightarrow> string \<Rightarrow> Process \<Rightarrow> Process" where
  "setStartFailureLocked now err =
     set_recovery (\<lambda>r. r\<lparr>rc_State := ''failed'', rc_Stage := ''start'', rc_Reason := ''browser start failed'',
       rc_LastAction := ''start'', rc_LastResult := err, rc_LastAt := Some now\<rparr>)"

definition finishRecovery :: "time \<Rightarrow> string \<Rightarrow> string \<Rightarrow> bool \<Rightarrow> Process \<Rightarrow> Process" where
  "finishRecovery now action result failed =
     set_recovery (\<lambda>r0.
       let r = r0\<lparr>rc_LastAction := action, rc_LastResult := result, rc_LastAt := Some now\<rparr> in
       if failed then
         (let r = r\<lparr>rc_State := ''failed'', rc_Attempts := i64 (rc_Attempts r + 1)\<rparr>
          in r\<lparr>rc_BackoffUntil := Some (now + recoveryDelay (rc_Attempts r))\<rparr>)
       else r\<lparr>rc_State := ''healthy'', rc_Stage := ''running'', rc_BackoffUntil := None\<rparr>)"

definition prepareUnexpectedExitRecoveryLocked ::
  "browser_env \<Rightarrow> duration \<Rightarrow> string \<Rightarrow> Process \<Rightarrow> Process" where
  "prepareUnexpectedExitRecoveryLocked env runtime lastError =
     set_recovery (\<lambda>r0.
       let now = be_now env;
           r = (if stableRuntime \<le> runtime then r0\<lparr>rc_Attempts := 0\<rparr> else r0);
           r = r\<lparr>rc_Attempts := i64 (rc_Attempts r + 1)\<rparr>;
           delay = recoveryDelay (rc_Attempts r)
       in r\<lparr>rc_State := ''backoff'', rc_Stage := ''unexpected_exit'',
            rc_Reason := firstRuntimeString [lastError, ''browser exited unexpectedly''],
            rc_LastAction := ''automatic restart'',
            rc_LastResult := ''restart scheduled after '' @ be_duration env delay,
            rc_LastAt := Some now, rc_BackoffUntil := Some (now + delay)\<rparr>)"

definition cancelRecoveryLocked :: "Process \<Rightarrow> Process" where
  "cancelRecoveryLocked b = b\<lparr>bp_epoch := bp_epoch b + 1, bp_timer := None\<rparr>"

definition scheduleUnexpectedExitRecovery :: "Process \<Rightarrow> Process" where
  "scheduleUnexpectedExitRecovery b =
     (case rc_BackoffUntil (bp_recovery b) of
        None \<Rightarrow> b
      | Some until \<Rightarrow>
          if bp_manuallyStopped b \<or> ag_Tripped (bp_guard b) then b
          else (let b = cancelRecoveryLocked b in b\<lparr>bp_timer := Some (bp_epoch b, until)\<rparr>))"

subsection \<open>The guard against refused logins\<close>

record authEvidence =
  ae_Kind :: string
  ae_Confidence :: string
  ae_URL :: string
  ae_Resource :: string
  ae_Status :: int
  ae_Reason :: string
  ae_Action :: string

definition no_evidence :: authEvidence where
  "no_evidence = \<lparr>ae_Kind = '''', ae_Confidence = '''', ae_URL = '''', ae_Resource = '''', ae_Status = 0,
     ae_Reason = '''', ae_Action = ''''\<rparr>"

definition classifyHAResponse :: "int \<Rightarrow> string \<Rightarrow> string \<Rightarrow> string option \<Rightarrow> authEvidence" where
  \<comment> \<open>with the path of the URL, if it can be parsed\<close>
  "classifyHAResponse status resource raw path =
     (case path of
        None \<Rightarrow> no_evidence
      | Some p \<Rightarrow>
          (let e = \<lparr>ae_Kind = '''', ae_Confidence = ''suspected'', ae_URL = raw, ae_Resource = resource,
                 ae_Status = status, ae_Reason = '''', ae_Action = ''inspect_ha''\<rparr>
           in if p = ''/auth/token'' \<and> status = 400 then e\<lparr>ae_Kind := ''token_response''\<rparr>
              else if (p = ''/auth/token'' \<or> p = ''/api/websocket'') \<and> (status = 401 \<or> status = 403) then
                e\<lparr>ae_Kind := ''auth_rejected'', ae_Confidence := ''probable'',
                  ae_Reason := ''Home Assistant denied the authentication endpoint''\<rparr>
              else if resource = ''Document'' \<and> status = 403 then
                e\<lparr>ae_Kind := ''access_denied'', ae_Reason := ''Home Assistant denied the page; verify IP ban or proxy policy''\<rparr>
              else no_evidence))"

definition evidence_window :: duration where
  "evidence_window = 30 * Second"

definition oldest_key :: "time \<Rightarrow> (string \<times> time list) list \<Rightarrow> string option" where
  \<comment> \<open>the first key whose first observation is earliest, among those before \<open>now\<close>\<close>
  "oldest_key now seen =
     fst (fold (\<lambda>(k, ts) (best, t). if hd ts < t then (Some k, hd ts) else (best, t)) seen (None, now))"

definition recordAuthEvidenceLocked ::
  "browser_env \<Rightarrow> authEvidence \<Rightarrow> Process \<Rightarrow> (bool \<times> int \<times> time \<times> time) \<times> Process" where
  "recordAuthEvidenceLocked env e b =
     (let now = be_now env;
          key = be_origin env (ae_URL e) @ ''|'' @ ae_Kind e @ ''|'' @ itoa (ae_Status e);
          recent = filter (\<lambda>t. now - evidence_window < t);
          seen = filter (\<lambda>(k, ts). ts \<noteq> []) (map (\<lambda>(k, ts). (k, recent ts)) (bp_evidence b));
          seen = (if map_of seen key = None \<and> 128 \<le> length seen
            then (case oldest_key now seen of None \<Rightarrow> seen | Some k \<Rightarrow> filter (\<lambda>(k', ts). k' \<noteq> k) seen) else seen);
          kept = recent (case map_of seen key of None \<Rightarrow> [] | Some ts \<Rightarrow> ts) @ [now];
          confirmed = (ae_Confidence e = ''confirmed'' \<or> ae_Confidence e = ''probable'')
      in ((confirmed \<or> 2 \<le> length kept, int (length kept), hd kept, last kept),
          b\<lparr>bp_evidence := filter (\<lambda>(k, ts). k \<noteq> key) seen @ [(key, kept)]\<rparr>))"

definition tripAuthGuard :: "browser_env \<Rightarrow> string \<Rightarrow> Process \<Rightarrow> Process" where
  \<comment> \<open>the goroutine that then stops the browser is \<open>guard_stop\<close>\<close>
  "tripAuthGuard env reason0 b =
     (let reason = (if trim_space reason0 = '''' then ''Home Assistant rejected browser authentication'' else trim_space reason0) in
      if ag_Tripped (bp_guard b) then b
      else
        let (kind, action) = classifyAuthGuard reason;
            b = b\<lparr>bp_guard := no_guard\<lparr>ag_Tripped := True, ag_Reason := reason, ag_Kind := kind,
                  ag_SuggestedAction := action, ag_KioskIP := be_kioskIP env, ag_At := Some (be_now env)\<rparr>\<rparr>;
            b = cancelRecoveryLocked b
        in b\<lparr>bp_recovery := no_recovery\<lparr>rc_State := ''auth_blocked'', rc_Stage := ''authentication'',
               rc_Reason := reason, rc_LastResult := action, rc_LastAt := Some (be_now env)\<rparr>,
             bp_lastError := ''authentication guard: '' @ reason\<rparr>)"

definition blockAuthentication :: "browser_env \<Rightarrow> authEvidence \<Rightarrow> Process \<Rightarrow> bool \<times> Process" where
  "blockAuthentication env e b =
     (let ((shouldBlock, occurrences, firstSeen, lastSeen), b) = recordAuthEvidenceLocked env e b in
      if \<not> shouldBlock then (False, b)
      else
        let b = tripAuthGuard env (ae_Reason e) b; g = bp_guard b
        in (True, b\<lparr>bp_guard := g\<lparr>ag_Kind := ae_Kind e, ag_Confidence := ae_Confidence e,
              ag_Origin := be_origin env (ae_URL e), ag_Resource := ae_Resource e, ag_HTTPStatus := ae_Status e,
              ag_NextAction := ae_Action e, ag_FirstSeen := Some firstSeen, ag_LastSeen := Some lastSeen,
              ag_Occurrences := occurrences,
              ag_KioskIP := (if be_kioskIP env \<noteq> '''' then be_kioskIP env else ag_KioskIP g)\<rparr>\<rparr>))"

definition clearAuthGuard :: "Process \<Rightarrow> Process" where
  "clearAuthGuard b = b\<lparr>bp_guard := no_guard, bp_evidence := []\<rparr>"

subsection \<open>Starting and stopping\<close>

definition started_process :: "browser_env \<Rightarrow> Process \<Rightarrow> Process" where
  \<comment> \<open>the second half of \<^verbatim>\<open>start\<close>; without page control the page counts as ready at once\<close>
  "started_process env b =
     (let now = be_now env;
          b = b\<lparr>bp_running := True, bp_started := now, bp_generation := bp_generation b + 1,
                bp_startCount := bp_startCount b + 1, bp_hotSince := zero_time, bp_lastError := '''',
                bp_devTools := False, bp_requiresControl := be_cdp env, bp_readySince := zero_time,
                bp_controlFailures := 0\<rparr>;
          b = set_recovery (\<lambda>r. r\<lparr>rc_State := ''starting'', rc_Stage := ''attach'',
                rc_LastResult := ''browser process started; connecting page control'', rc_LastAt := Some now\<rparr>) b
      in if be_cdp env then b
         else set_recovery (\<lambda>r. r\<lparr>rc_State := ''healthy'', rc_Stage := ''running''\<rparr>) (b\<lparr>bp_readySince := now\<rparr>))"

definition ban_evidence :: authEvidence where
  "ban_evidence = \<lparr>ae_Kind = ''access_denied'', ae_Confidence = ''probable'', ae_URL = '''', ae_Resource = ''manifest'',
     ae_Status = 403, ae_Reason = ''Home Assistant denied its public manifest before browser startup'',
     ae_Action = ''inspect_ha''\<rparr>"

definition start :: "browser_env \<Rightarrow> string \<Rightarrow> Process \<Rightarrow> string option \<times> Process" where
  \<comment> \<open>with the URL of the active page; \<open>None\<close> is success\<close>
  "start env target b =
     (if bp_running b then (None, b)
      else if ag_Tripped (bp_guard b) then (Some (auth_error b), b)
      else
        let b = b\<lparr>bp_stopping := False\<rparr> in
        if be_banned env then
          (let b = snd (blockAuthentication env (ban_evidence\<lparr>ae_URL := target\<rparr>) b) in (Some (auth_error b), b))
        else case be_start env of
          Some e \<Rightarrow> (Some e, setStartFailureLocked (be_now env) e (b\<lparr>bp_lastError := e\<rparr>))
        | None \<Rightarrow> (None, started_process env b))"

definition process_exit :: "browser_env \<Rightarrow> string option \<times> int \<Rightarrow> Process \<Rightarrow> Process" where
  \<comment> \<open>\<^verbatim>\<open>wait\<close>, when the process ends with an error (not \<^verbatim>\<open>os.ErrProcessDone\<close>) and an exit code\<close>
  "process_exit env how b =
     (let (err, exitCode) = how; now = be_now env; expected = bp_stopping b; stopReason = bp_stopReason b;
          runtime = (if bp_started b = zero_time then 0 else now - bp_started b);
          reason = classifyProcessExit expected stopReason runtime err;
          b = b\<lparr>bp_running := False, bp_stopReason := '''', bp_devTools := False, bp_readySince := zero_time,
                bp_exitCounts := (bp_exitCounts b)(reason := bp_exitCounts b reason + 1),
                bp_exit := \<lparr>ex_At = Some now, ex_Expected = expected, ex_Reason = reason,
                  ex_Error = (case err of None \<Rightarrow> '''' | Some e \<Rightarrow> e), ex_ExitCode = exitCode,
                  ex_RuntimeMS = quot64 runtime 1000000, ex_Generation = bp_generation b\<rparr>\<rparr>
      in if expected then
           (let b = set_recovery (\<lambda>r. r\<lparr>rc_State := ''stopped'', rc_Stage := ''stopped'',
                  rc_LastResult := ''browser stopped normally'', rc_LastAt := Some now\<rparr>)
                (b\<lparr>bp_lastError := '''', bp_stopping := False\<rparr>)
            in if ag_Tripped (bp_guard b) then
                 (set_recovery (\<lambda>r. r\<lparr>rc_State := ''auth_blocked'', rc_Stage := ''authentication''\<rparr>) b)
                   \<lparr>bp_lastError := ag_Reason (bp_guard b)\<rparr>
               else b)
         else
           (let short = (0 < runtime \<and> runtime < 5 * Second);
                lastError = (case err of
                    Some e \<Rightarrow> if short then ''browser exited after '' @ be_duration env runtime @ '': '' @ e else e
                  | None \<Rightarrow> if short then ''browser exited after '' @ be_duration env runtime @ '' without error''
                      else bp_lastError b);
                b = prepareUnexpectedExitRecoveryLocked env runtime lastError (b\<lparr>bp_lastError := lastError\<rparr>)
            in scheduleUnexpectedExitRecovery b))"

definition stop :: "browser_env \<Rightarrow> string \<Rightarrow> Process \<Rightarrow> string option \<times> Process" where
  \<comment> \<open>waits until the process has ended\<close>
  "stop env reason b =
     (if \<not> bp_running b then (None, b)
      else
        let b = b\<lparr>bp_stopping := True, bp_stopReason := normalizeExitReason reason\<rparr> in
        case be_terminate env of
          Some e \<Rightarrow> (Some e, b)
        | None \<Rightarrow> (None, process_exit env (be_exit env) b))"

definition restart :: "browser_env \<Rightarrow> string \<Rightarrow> string \<Rightarrow> Process \<Rightarrow> string option \<times> Process" where
  "restart env target reason b =
     (case authenticationAllowed b of
        Some e \<Rightarrow> (Some e, b)
      | None \<Rightarrow>
          (let running = bp_running b; (err, b) = stop env reason b in
           case err of
             Some e \<Rightarrow> (Some e, b)
           | None \<Rightarrow>
               (let (err, b) = start env target b in
                case err of
                  Some e \<Rightarrow> (Some e, b)
                | None \<Rightarrow> (None, if running then b\<lparr>bp_restartCount := bp_restartCount b + 1\<rparr> else b))))"

definition reload_page :: "browser_env \<Rightarrow> Process \<Rightarrow> string option" where
  \<comment> \<open>\<^verbatim>\<open>reloadDevTools\<close>\<close>
  "reload_page env b =
     (if \<not> bp_running b then Some ''browser is not running''
      else if \<not> bp_devTools b then Some ''browser control is connecting; retry when connected''
      else be_reload env)"

definition show_in_browser :: "browser_env \<Rightarrow> string \<Rightarrow> bool \<Rightarrow> Process \<Rightarrow> string option \<times> Process" where
  \<comment> \<open>what \<^verbatim>\<open>showPage\<close> does with the process, for a page that exists; \<open>isolate\<close>: it needs a profile of its own\<close>
  "show_in_browser env target isolate b =
     (case authenticationAllowed b of
        Some e \<Rightarrow> (Some e, b)
      | None \<Rightarrow>
          if \<not> bp_running b then start env target b
          else if isolate then restart env target ''page_session_change'' b
          else (case be_navigate env of
              None \<Rightarrow> (None, b)
            | Some e \<Rightarrow> restart env target ''page_navigation_recovery'' b))"

subsection \<open>Automatic recovery\<close>

definition budget_window :: duration where
  "budget_window = Hour"

definition recovery_budget_error :: "browser_env \<Rightarrow> time \<Rightarrow> string" where
  "recovery_budget_error env until = ''automatic recovery budget exhausted until '' @ be_until env until"

definition admit_runs :: "browser_env \<Rightarrow> time \<Rightarrow> string \<Rightarrow> Process \<Rightarrow> string option \<times> Process" where
  \<comment> \<open>the budget: at most six recoveries in an hour\<close>
  "admit_runs env now reason b =
     (let runs = filter (\<lambda>t. now - budget_window < t) (bp_recoveryRuns b);
          b = b\<lparr>bp_recoveryRuns := runs\<rparr>
      in if 6 \<le> length runs then
           (let until = hd runs + budget_window in
            (Some (recovery_budget_error env until),
             set_recovery (\<lambda>r. r\<lparr>rc_State := ''backoff'', rc_Stage := ''restart_budget'', rc_BackoffUntil := Some until\<rparr>) b))
         else
           (None, set_recovery (\<lambda>r. r\<lparr>rc_State := ''recovering'', rc_Stage := ''reload'', rc_Reason := trim_space reason,
                    rc_LastAction := ''reload'', rc_LastAt := Some now\<rparr>)
                  (b\<lparr>bp_recoveryRuns := runs @ [now]\<rparr>)))"

definition admit_recovery :: "browser_env \<Rightarrow> string \<Rightarrow> Process \<Rightarrow> string option \<times> Process" where
  \<comment> \<open>the first half of \<^verbatim>\<open>recover\<close>: whether it may go on\<close>
  "admit_recovery env reason b =
     (let now = be_now env in
      if bp_manuallyStopped b then (Some ''browser was stopped manually'', b)
      else if ag_Tripped (bp_guard b) then
        (let err = ''authentication guard is active: '' @ ag_Reason (bp_guard b) in
         (Some err, b\<lparr>bp_recovery := no_recovery\<lparr>rc_State := ''auth_blocked'', rc_Stage := ''authentication'',
            rc_Reason := reason, rc_LastResult := err, rc_LastAt := Some now\<rparr>\<rparr>))
      else case rc_BackoffUntil (bp_recovery b) of
        Some until \<Rightarrow>
          if now < until then (Some (''automatic recovery is in backoff until '' @ be_until env until), b)
          else admit_runs env now reason b
      | None \<Rightarrow> admit_runs env now reason b)"

definition recover :: "browser_env \<Rightarrow> string \<Rightarrow> string \<Rightarrow> bool \<Rightarrow> Process \<Rightarrow> string option \<times> Process" where
  "recover env target reason forceRestart b =
     (let (refused, b) = admit_recovery env reason b in
      case refused of
        Some e \<Rightarrow> (Some e, b)
      | None \<Rightarrow>
          (let running = bp_running b in
           if running \<and> \<not> forceRestart \<and> reload_page env b = None then
             (None, finishRecovery (be_now env) ''reload'' ''page reloaded'' False b)
           else
             let b = set_recovery (\<lambda>r. r\<lparr>rc_Stage := ''restart'', rc_LastAction := ''restart''\<rparr>) b;
                 (err, b) = (if running then restart env target (normalizeExitReason reason) b else start env target b)
             in case err of
                  Some e \<Rightarrow> (Some e, finishRecovery (be_now env) ''restart'' e True b)
                | None \<Rightarrow> (None, finishRecovery (be_now env) ''restart'' ''browser running'' False b)))"

definition operate :: "string \<Rightarrow> (Process \<Rightarrow> string option \<times> Process) \<Rightarrow> Process \<Rightarrow> string option \<times> Process" where
  \<comment> \<open>the gate admits one operation at a time; the history keeps the last fifty\<close>
  "operate action run b =
     (let (err, b) = run b
      in (err, b\<lparr>bp_operations := keep_last 50 (bp_operations b @ [(action, err)])\<rparr>))"

definition recovery_timer :: "browser_env \<Rightarrow> string \<Rightarrow> Process \<Rightarrow> Process" where
  \<comment> \<open>the goroutine of \<^verbatim>\<open>scheduleUnexpectedExitRecovery\<close>, when its time has come\<close>
  "recovery_timer env target b =
     (case bp_timer b of
        None \<Rightarrow> b
      | Some (epoch, due) \<Rightarrow>
          if be_now env < due then b
          else snd (operate ''recover'' (\<lambda>b.
                 if bp_epoch b \<noteq> epoch \<or> bp_manuallyStopped b then (Some ''context canceled'', b)
                 else recover env target ''unexpected browser exit'' True b) (b\<lparr>bp_timer := None\<rparr>)))"

subsection \<open>What the user asks for\<close>

definition allow_recovery :: "Process \<Rightarrow> Process" where
  "allow_recovery b = cancelRecoveryLocked (b\<lparr>bp_manuallyStopped := False\<rparr>)"

definition Start_browser :: "browser_env \<Rightarrow> string \<Rightarrow> Process \<Rightarrow> string option \<times> Process" where
  "Start_browser env target = operate ''start'' (\<lambda>b. start env target (allow_recovery b))"

definition Stop :: "browser_env \<Rightarrow> Process \<Rightarrow> string option \<times> Process" where
  "Stop env b = operate ''stop'' (stop env ''manual_stop'') (cancelRecoveryLocked (b\<lparr>bp_manuallyStopped := True\<rparr>))"

definition Shutdown :: "browser_env \<Rightarrow> Process \<Rightarrow> string option \<times> Process" where
  "Shutdown env b = operate ''shutdown'' (stop env ''service_shutdown'') (cancelRecoveryLocked (b\<lparr>bp_manuallyStopped := True\<rparr>))"

definition Restart_browser :: "browser_env \<Rightarrow> string \<Rightarrow> Process \<Rightarrow> string option \<times> Process" where
  "Restart_browser env target = operate ''restart'' (\<lambda>b. restart env target ''manual_restart'' (allow_recovery b))"

definition Recover :: "browser_env \<Rightarrow> string \<Rightarrow> string \<Rightarrow> Process \<Rightarrow> string option \<times> Process" where
  "Recover env target reason = operate ''recover'' (\<lambda>b. recover env target reason False (allow_recovery b))"

definition Reload :: "browser_env \<Rightarrow> Process \<Rightarrow> string option \<times> Process" where
  "Reload env = operate ''reload'' (\<lambda>b.
     (case authenticationAllowed b of Some e \<Rightarrow> (Some e, b) | None \<Rightarrow> (reload_page env b, b)))"

definition SetActive :: "browser_env \<Rightarrow> string \<Rightarrow> bool \<Rightarrow> Process \<Rightarrow> string option \<times> Process" where
  "SetActive env target isolate = operate ''page'' (show_in_browser env target isolate)"

definition ResetSession :: "browser_env \<Rightarrow> string \<Rightarrow> string option \<Rightarrow> Process \<Rightarrow> string option \<times> Process" where
  \<comment> \<open>for a browser with a profile; an error of moving the session away is a parameter\<close>
  "ResetSession env target moved = operate ''reset-session'' (\<lambda>b.
     (let (err, b) = stop env ''session_reset'' (cancelRecoveryLocked b) in
      case err of
        Some e \<Rightarrow> (Some e, b)
      | None \<Rightarrow>
          (case moved of
             Some e \<Rightarrow> (Some e, b)
           | None \<Rightarrow> start env target ((clearAuthGuard b)\<lparr>bp_manuallyStopped := False\<rparr>))))"

definition guard_stop :: "browser_env \<Rightarrow> Process \<Rightarrow> Process" where
  \<comment> \<open>the goroutine of \<^verbatim>\<open>tripAuthGuard\<close>\<close>
  "guard_stop env b = snd (operate ''auth-guard-stop'' (stop env ''authentication_guard'') b)"

subsection \<open>The watchdog\<close>

record sample =
  sm_RSSMB :: int
  sm_CPUPercent :: rat

definition watchdogRestartWindow :: duration where
  "watchdogRestartWindow = 30 * Minute"

definition watchdogSuppressDuration :: duration where
  "watchdogSuppressDuration = 30 * Minute"

definition watchdogMinCPUOnlyGrace :: duration where
  "watchdogMinCPUOnlyGrace = 10 * Minute"

definition watchdogReason :: "browser_env \<Rightarrow> WatchdogConfig \<Rightarrow> sample \<Rightarrow> bool \<Rightarrow> bool \<Rightarrow> string" where
  "watchdogReason env w stats overRSS overCPU =
     join '', ''
       ((if overRSS then [''rss '' @ itoa (sm_RSSMB stats) @ ''MB > '' @ itoa (wd_MaxRSSMB w) @ ''MB''] else []) @
        (if overCPU then [''cpu '' @ be_percent env (sm_CPUPercent stats) @ ''% > '' @
           be_percent env (wd_MaxCPUPercent w) @ ''%''] else []))"

definition set_watchdog :: "(WatchdogState \<Rightarrow> WatchdogState) \<Rightarrow> Process \<Rightarrow> Process" where
  "set_watchdog f b = b\<lparr>bp_watchdog := f (bp_watchdog b)\<rparr>"

definition shouldRestart :: "browser_env \<Rightarrow> WatchdogConfig \<Rightarrow> sample \<Rightarrow> Process \<Rightarrow> (bool \<times> string) \<times> Process" where
  "shouldRestart env w stats b =
     (let overRSS = (0 < wd_MaxRSSMB w \<and> wd_MaxRSSMB w < sm_RSSMB stats);
          overCPU = (0 < wd_MaxCPUPercent w \<and> wd_MaxCPUPercent w < sm_CPUPercent stats)
      in if \<not> overRSS \<and> \<not> overCPU then
           ((False, ''''), set_watchdog (\<lambda>s. s\<lparr>ws_Pressure := ''normal''\<rparr>) (b\<lparr>bp_hotSince := zero_time\<rparr>))
         else
           let reason = watchdogReason env w stats overRSS overCPU;
               b = set_watchdog (\<lambda>s. s\<lparr>ws_Pressure := reason\<rparr>) b
           in if overCPU \<and> \<not> overRSS \<and> \<not> wd_RestartOnCPU w then ((False, reason), b)
              else if bp_hotSince b = zero_time then ((False, reason), b\<lparr>bp_hotSince := be_now env\<rparr>)
              else
                let grace = (if overCPU \<and> \<not> overRSS \<and> wd_CPUGrace w < watchdogMinCPUOnlyGrace
                             then watchdogMinCPUOnlyGrace else wd_CPUGrace w)
                in ((grace \<le> be_now env - bp_hotSince b, reason), b))"

definition watchdog_runs :: "time \<Rightarrow> Process \<Rightarrow> bool \<times> Process" where
  "watchdog_runs now b =
     (let recent = filter (\<lambda>t. now - watchdogRestartWindow < t) (bp_watchdogRuns b) in
      if 3 \<le> length recent then
        (False, set_watchdog (\<lambda>s. s\<lparr>ws_RestartWindowCount := length recent,
           ws_SuppressedUntil := Some (now + watchdogSuppressDuration), ws_LastAction := ''restart suppressed''\<rparr>)
           (b\<lparr>bp_watchdogRuns := recent\<rparr>))
      else
        (True, set_watchdog (\<lambda>s. s\<lparr>ws_RestartWindowCount := length recent + 1, ws_SuppressedUntil := None\<rparr>)
           (b\<lparr>bp_watchdogRuns := recent @ [now]\<rparr>)))"

definition watchdogRestartAllowedLocked :: "time \<Rightarrow> Process \<Rightarrow> bool \<times> Process" where
  "watchdogRestartAllowedLocked now b =
     (case ws_SuppressedUntil (bp_watchdog b) of
        Some until \<Rightarrow>
          if now < until then (False, set_watchdog (\<lambda>s. s\<lparr>ws_LastAction := ''restart suppressed''\<rparr>) b)
          else watchdog_runs now b
      | None \<Rightarrow> watchdog_runs now b)"

definition watch_tick :: "browser_env \<Rightarrow> WatchdogConfig \<Rightarrow> string \<Rightarrow> sample \<Rightarrow> Process \<Rightarrow> bool \<times> Process" where
  \<comment> \<open>a tick of \<^verbatim>\<open>watch\<close> without telemetry; True ends the loop\<close>
  "watch_tick env w target stats b =
     (let now = be_now env;
          b = (if bp_started b \<noteq> zero_time \<and> stableRuntime \<le> now - bp_started b \<and> 0 < rc_Attempts (bp_recovery b)
               then set_recovery (\<lambda>r. r\<lparr>rc_Attempts := 0, rc_BackoffUntil := None\<rparr>) b else b)
      in if \<not> wd_Enabled w then (False, b)
         else
           let ((restart, reason), b) = shouldRestart env w stats b;
               b = (if reason \<noteq> '''' then set_watchdog (\<lambda>s. s\<lparr>ws_LastReason := reason\<rparr>) b else b)
           in if \<not> restart then (False, b)
              else
                let (allowed, b) = watchdogRestartAllowedLocked now b in
                if \<not> allowed then (False, b)
                else
                  let b = set_watchdog (\<lambda>s. s\<lparr>ws_LastRestart := Some now, ws_LastReason := reason, ws_LastAction := ''restart''\<rparr>) b
                  in (True, snd (operate ''recover'' (recover env target (''watchdog: '' @ reason) True) b)))"

subsection \<open>Lost page control\<close>

definition control_lost :: "browser_env \<Rightarrow> string \<Rightarrow> string \<Rightarrow> Process \<Rightarrow> bool \<times> Process" where
  \<comment> \<open>the end of a round of \<^verbatim>\<open>monitorDevTools\<close> with an error; True ends the loop\<close>
  "control_lost env target err b =
     (let b = b\<lparr>bp_devTools := False\<rparr>;
          counted = \<not> ag_Tripped (bp_guard b);
          b = (if counted then b\<lparr>bp_lastError := err, bp_controlFailures := bp_controlFailures b + 1\<rparr> else b);
          ready = counted \<and> bp_readySince b \<noteq> zero_time;
          b = (if ready then set_recovery (\<lambda>r. r\<lparr>rc_State := ''degraded'', rc_Stage := ''control_reconnect'',
                 rc_LastResult := err, rc_LastAt := Some (be_now env)\<rparr>) b else b)
      in if ag_Tripped (bp_guard b) then (True, b)
         else if ready \<and> 5 \<le> bp_controlFailures b \<and> \<not> bp_manuallyStopped b then
           (True, snd (operate ''recover'' (recover env target ''browser control unavailable'' True) b))
         else (False, b))"

definition control_connected :: "browser_env \<Rightarrow> bool \<Rightarrow> Process \<Rightarrow> Process" where
  \<comment> \<open>\<^verbatim>\<open>runDevTools\<close> up to its loop, when every command succeeds\<close>
  "control_connected env navigated b =
     (let b = b\<lparr>bp_devTools := True, bp_controlFailures := 0\<rparr> in
      if navigated \<or> ag_Tripped (bp_guard b) then b
      else (set_recovery (\<lambda>r. r\<lparr>rc_State := ''healthy'', rc_Stage := ''running'', rc_LastResult := ''page control connected''\<rparr>) b)
             \<lparr>bp_readySince := be_now env, bp_lastError := ''''\<rparr>)"

subsection \<open>The heartbeat of the page\<close>

datatype heartbeat_action = Nothing | Reload_page | Restart_hung

record heartbeat =
  hb_missed :: nat
  hb_lastNavigation :: time

definition heartbeat_tick :: "time \<Rightarrow> bool \<Rightarrow> time \<Rightarrow> heartbeat \<Rightarrow> heartbeat_action \<times> heartbeat" where
  \<comment> \<open>a tick of \<^verbatim>\<open>runDevTools\<close> at \<open>now\<close>; whether the page responds, and when the reload has been sent\<close>
  "heartbeat_tick now responds after h =
     (if now - hb_lastNavigation h < Minute \<or> responds then (Nothing, h\<lparr>hb_missed := 0\<rparr>)
      else
        let h = h\<lparr>hb_missed := hb_missed h + 1\<rparr> in
        if hb_missed h = 2 then (Reload_page, h\<lparr>hb_lastNavigation := after\<rparr>)
        else if 4 \<le> hb_missed h then (Restart_hung, h)
        else (Nothing, h))"

definition handleRendererHang :: "browser_env \<Rightarrow> WatchdogConfig \<Rightarrow> string \<Rightarrow> Process \<Rightarrow> bool \<times> Process" where
  \<comment> \<open>True when the system is rebooted\<close>
  "handleRendererHang env w target b =
     (let (err, b) = operate ''recover'' (recover env target ''renderer unresponsive'' True) b in
      case err of
        None \<Rightarrow> (False, b)
      | Some e \<Rightarrow>
          if \<not> has_prefix e ''automatic recovery budget exhausted'' then (False, b)
          else
            let allowed = wd_RebootOnHang w \<and> \<not> bp_rebootRequested b;
                b = (if allowed then b\<lparr>bp_rebootRequested := True\<rparr> else b)
            in case be_reboot env of
                 None \<Rightarrow> (False, b)
               | Some result \<Rightarrow>
                   if \<not> allowed then (False, b)
                   else (True, case result of None \<Rightarrow> b | Some _ \<Rightarrow> b\<lparr>bp_rebootRequested := False\<rparr>))"

end
