(* ===== verification/Supervisor_Props.thy ===== *)
theory Supervisor_Props
  imports Supervisor
begin

section \<open>Properties of the browser process\<close>

text \<open>
  Runs are lists of operations with what their environment answers, at instants that do not go
  back. The locale \<open>restart_budget\<close> is the law of a sliding window of granted restarts; it is
  interpreted for the recovery budget and for the watchdog.
\<close>

subsection \<open>Runs\<close>

datatype browser_op =
    Op_Start string
  | Op_Stop
  | Op_Shutdown
  | Op_Restart string
  | Op_Recover string string
  | Op_Reload
  | Op_Show string bool
  | Op_Reset string "string option"
  | Op_Timer string
  | Op_Exit "string option" int
  | Op_Watch WatchdogConfig string sample
  | Op_Lost string string
  | Op_Connected bool
  | Op_Hang WatchdogConfig string
  | Op_Evidence authEvidence
  | Op_GuardStop

fun perform :: "browser_env \<Rightarrow> browser_op \<Rightarrow> Process \<Rightarrow> Process" where
  \<comment> \<open>the goroutines of a process act while it runs\<close>
  "perform env (Op_Start target) b = snd (Start_browser env target b)"
| "perform env Op_Stop b = snd (Stop env b)"
| "perform env Op_Shutdown b = snd (Shutdown env b)"
| "perform env (Op_Restart target) b = snd (Restart_browser env target b)"
| "perform env (Op_Recover target reason) b = snd (Recover env target reason b)"
| "perform env Op_Reload b = snd (Reload env b)"
| "perform env (Op_Show target isolate) b = snd (SetActive env target isolate b)"
| "perform env (Op_Reset target moved) b = snd (ResetSession env target moved b)"
| "perform env (Op_Timer target) b = recovery_timer env target b"
| "perform env (Op_Exit err c) b = (if bp_running b then process_exit env (err, c) b else b)"
| "perform env (Op_Watch w target stats) b = (if bp_running b then snd (watch_tick env w target stats b) else b)"
| "perform env (Op_Lost target err) b = (if bp_running b then snd (control_lost env target err b) else b)"
| "perform env (Op_Connected navigated) b = (if bp_running b then control_connected env navigated b else b)"
| "perform env (Op_Hang w target) b = (if bp_running b then snd (handleRendererHang env w target b) else b)"
| "perform env (Op_Evidence e) b = snd (blockAuthentication env e b)"
| "perform env Op_GuardStop b = guard_stop env b"

type_synonym browser_run = "(browser_env \<times> browser_op) list"

definition run_ops :: "browser_run \<Rightarrow> Process \<Rightarrow> Process" where
  "run_ops evs b = fold (\<lambda>(env, op). perform env op) evs b"

lemma run_ops_simps [simp]: "run_ops [] b = b" "run_ops ((env, op) # evs) b = run_ops evs (perform env op b)"
  by (simp_all add: run_ops_def)

lemma run_ops_append: "run_ops (evs @ evs') b = run_ops evs' (run_ops evs b)"
  by (simp add: run_ops_def)

lemma run_ops_invariant:
  assumes "I b" "list_all (\<lambda>ev. ops (snd ev)) evs" "\<And>env op b. ops op \<Longrightarrow> I b \<Longrightarrow> I (perform env op b)"
  shows "I (run_ops evs b)"
  using assms(1,2)
proof (induction evs arbitrary: b)
  case (Cons ev evs)
  then show ?case using assms(3) by (cases ev) simp
qed simp

fun automatic :: "browser_op \<Rightarrow> bool" where
  \<comment> \<open>what neither the user nor the page scheduler asked for\<close>
  "automatic (Op_Timer target) = True"
| "automatic (Op_Exit err c) = True"
| "automatic (Op_Watch w target stats) = True"
| "automatic (Op_Lost target err) = True"
| "automatic (Op_Connected navigated) = True"
| "automatic (Op_Hang w target) = True"
| "automatic (Op_Evidence e) = True"
| "automatic Op_GuardStop = True"
| "automatic op = False"

fun is_reset :: "browser_op \<Rightarrow> bool" where
  "is_reset (Op_Reset target moved) = True"
| "is_reset op = False"

subsection \<open>What stays as it is\<close>

named_theorems proc_frame \<open>fields that an operation leaves unchanged\<close>

lemma set_frame [proc_frame]:
  "bp_running (set_recovery f b) = bp_running b" "bp_guard (set_recovery f b) = bp_guard b"
  "bp_startCount (set_recovery f b) = bp_startCount b" "bp_timer (set_recovery f b) = bp_timer b"
  "bp_manuallyStopped (set_recovery f b) = bp_manuallyStopped b" "bp_recoveryRuns (set_recovery f b) = bp_recoveryRuns b"
  "bp_watchdogRuns (set_recovery f b) = bp_watchdogRuns b" "bp_watchdog (set_recovery f b) = bp_watchdog b"
  "bp_running (set_watchdog g b) = bp_running b" "bp_guard (set_watchdog g b) = bp_guard b"
  "bp_startCount (set_watchdog g b) = bp_startCount b" "bp_timer (set_watchdog g b) = bp_timer b"
  "bp_manuallyStopped (set_watchdog g b) = bp_manuallyStopped b" "bp_recoveryRuns (set_watchdog g b) = bp_recoveryRuns b"
  "bp_watchdogRuns (set_watchdog g b) = bp_watchdogRuns b" "bp_recovery (set_watchdog g b) = bp_recovery b"
  "bp_recovery (set_recovery f b) = f (bp_recovery b)" "bp_watchdog (set_watchdog g b) = g (bp_watchdog b)"
  "bp_epoch (set_recovery f b) = bp_epoch b" "bp_epoch (set_watchdog g b) = bp_epoch b"
  "bp_devTools (set_recovery f b) = bp_devTools b" "bp_devTools (set_watchdog g b) = bp_devTools b"
  by (simp_all add: set_recovery_def set_watchdog_def)

lemma recovery_setters [proc_frame]:
  "bp_running (finishRecovery t a r d b) = bp_running b" "bp_guard (finishRecovery t a r d b) = bp_guard b"
  "bp_startCount (finishRecovery t a r d b) = bp_startCount b" "bp_timer (finishRecovery t a r d b) = bp_timer b"
  "bp_manuallyStopped (finishRecovery t a r d b) = bp_manuallyStopped b"
  "bp_recoveryRuns (finishRecovery t a r d b) = bp_recoveryRuns b" "bp_watchdogRuns (finishRecovery t a r d b) = bp_watchdogRuns b"
  by (simp_all add: finishRecovery_def proc_frame)

lemma cancel_frame [proc_frame]:
  "bp_running (cancelRecoveryLocked b) = bp_running b" "bp_guard (cancelRecoveryLocked b) = bp_guard b"
  "bp_startCount (cancelRecoveryLocked b) = bp_startCount b" "bp_timer (cancelRecoveryLocked b) = None"
  "bp_manuallyStopped (cancelRecoveryLocked b) = bp_manuallyStopped b"
  "bp_recoveryRuns (cancelRecoveryLocked b) = bp_recoveryRuns b" "bp_watchdogRuns (cancelRecoveryLocked b) = bp_watchdogRuns b"
  by (simp_all add: cancelRecoveryLocked_def)

lemma record_evidence: "\<exists>x. snd (recordAuthEvidenceLocked env e b) = b\<lparr>bp_evidence := x\<rparr>"
  unfolding recordAuthEvidenceLocked_def Let_def snd_conv by blast

lemma tripAuthGuard_frame [proc_frame]:
  "bp_running (tripAuthGuard env r b) = bp_running b" "bp_startCount (tripAuthGuard env r b) = bp_startCount b"
  "bp_manuallyStopped (tripAuthGuard env r b) = bp_manuallyStopped b"
  "bp_recoveryRuns (tripAuthGuard env r b) = bp_recoveryRuns b" "bp_watchdogRuns (tripAuthGuard env r b) = bp_watchdogRuns b"
  "bp_timer b = None \<Longrightarrow> bp_timer (tripAuthGuard env r b) = None" "ag_Tripped (bp_guard (tripAuthGuard env r b))"
  by (auto simp: tripAuthGuard_def Let_def proc_frame split: prod.split)

lemma blockAuthentication_frame [proc_frame]:
  "bp_running (snd (blockAuthentication env e b)) = bp_running b"
  "bp_startCount (snd (blockAuthentication env e b)) = bp_startCount b"
  "bp_manuallyStopped (snd (blockAuthentication env e b)) = bp_manuallyStopped b"
  "bp_recoveryRuns (snd (blockAuthentication env e b)) = bp_recoveryRuns b"
  "bp_watchdogRuns (snd (blockAuthentication env e b)) = bp_watchdogRuns b"
  using record_evidence [of env e b]
  by (auto simp: blockAuthentication_def Let_def proc_frame split: prod.split)

lemma blockAuthentication_guard:
  "ag_Tripped (bp_guard b) \<Longrightarrow> ag_Tripped (bp_guard (snd (blockAuthentication env e b)))"
  "bp_timer b = None \<Longrightarrow> bp_timer (snd (blockAuthentication env e b)) = None"
  "fst (blockAuthentication env e b) \<Longrightarrow> ag_Tripped (bp_guard (snd (blockAuthentication env e b)))"
  using record_evidence [of env e b]
  by (auto simp: blockAuthentication_def Let_def proc_frame split: prod.splits if_splits)

lemma process_exit_frame [proc_frame]:
  "bp_running (process_exit env how b) = False" "bp_guard (process_exit env how b) = bp_guard b"
  "bp_startCount (process_exit env how b) = bp_startCount b"
  "bp_manuallyStopped (process_exit env how b) = bp_manuallyStopped b"
  "bp_recoveryRuns (process_exit env how b) = bp_recoveryRuns b" "bp_watchdogRuns (process_exit env how b) = bp_watchdogRuns b"
  by (simp_all add: process_exit_def prepareUnexpectedExitRecoveryLocked_def scheduleUnexpectedExitRecovery_def
      cancelRecoveryLocked_def Let_def split_beta proc_frame split: option.split)

lemma process_exit_timer:
  "bp_stopping b \<Longrightarrow> bp_timer (process_exit env how b) = bp_timer b"
  "ag_Tripped (bp_guard b) \<Longrightarrow> bp_timer (process_exit env how b) = bp_timer b"
  "bp_manuallyStopped b \<Longrightarrow> bp_timer (process_exit env how b) = bp_timer b"
  by (simp_all add: process_exit_def prepareUnexpectedExitRecoveryLocked_def scheduleUnexpectedExitRecovery_def
      Let_def split_beta proc_frame split: option.split)

lemma stop_frame [proc_frame]:
  "bp_guard (snd (stop env r b)) = bp_guard b" "bp_startCount (snd (stop env r b)) = bp_startCount b"
  "bp_manuallyStopped (snd (stop env r b)) = bp_manuallyStopped b" "bp_timer (snd (stop env r b)) = bp_timer b"
  "bp_recoveryRuns (snd (stop env r b)) = bp_recoveryRuns b" "bp_watchdogRuns (snd (stop env r b)) = bp_watchdogRuns b"
  by (simp_all add: stop_def Let_def proc_frame process_exit_timer split: option.split)

lemma stop_running: "\<not> bp_running b \<Longrightarrow> stop env r b = (None, b)"
  "fst (stop env r b) = None \<Longrightarrow> \<not> bp_running (snd (stop env r b))"
  by (auto simp: stop_def Let_def proc_frame split: option.splits if_splits)

lemma started_process_frame [proc_frame]:
  "bp_guard (started_process env b) = bp_guard b" "bp_startCount (started_process env b) = bp_startCount b + 1"
  "bp_manuallyStopped (started_process env b) = bp_manuallyStopped b" "bp_timer (started_process env b) = bp_timer b"
  "bp_recoveryRuns (started_process env b) = bp_recoveryRuns b" "bp_watchdogRuns (started_process env b) = bp_watchdogRuns b"
  "bp_running (started_process env b)"
  by (simp_all add: started_process_def Let_def proc_frame)

lemma start_frame [proc_frame]:
  "bp_manuallyStopped (snd (start env t b)) = bp_manuallyStopped b"
  "bp_recoveryRuns (snd (start env t b)) = bp_recoveryRuns b" "bp_watchdogRuns (snd (start env t b)) = bp_watchdogRuns b"
  by (simp_all add: start_def Let_def proc_frame setStartFailureLocked_def split: option.split)

lemma start_blocked: "ag_Tripped (bp_guard b) \<Longrightarrow> snd (start env t b) = b"
  by (simp add: start_def)

lemma start_outcome:
  assumes "\<not> bp_running b" "\<not> ag_Tripped (bp_guard b)" "\<not> be_banned env"
  shows "be_start env = None \<Longrightarrow> start env t b = (None, started_process env (b\<lparr>bp_stopping := False\<rparr>))"
    and "be_start env = Some e \<Longrightarrow> start env t b =
      (Some e, setStartFailureLocked (be_now env) e (b\<lparr>bp_stopping := False, bp_lastError := e\<rparr>))"
  using assms by (simp_all add: start_def)

lemma restart_blocked: "ag_Tripped (bp_guard b) \<Longrightarrow> snd (restart env t r b) = b"
  by (simp add: restart_def authenticationAllowed_def)

lemma restart_frame [proc_frame]:
  "bp_manuallyStopped (snd (restart env t r b)) = bp_manuallyStopped b"
  "bp_recoveryRuns (snd (restart env t r b)) = bp_recoveryRuns b" "bp_watchdogRuns (snd (restart env t r b)) = bp_watchdogRuns b"
  by (auto simp: restart_def Let_def split_beta proc_frame split: option.split)

lemma admit_frame [proc_frame]:
  "bp_running (snd (admit_recovery env r b)) = bp_running b" "bp_guard (snd (admit_recovery env r b)) = bp_guard b"
  "bp_startCount (snd (admit_recovery env r b)) = bp_startCount b" "bp_timer (snd (admit_recovery env r b)) = bp_timer b"
  "bp_manuallyStopped (snd (admit_recovery env r b)) = bp_manuallyStopped b"
  "bp_watchdogRuns (snd (admit_recovery env r b)) = bp_watchdogRuns b"
  by (simp_all add: admit_recovery_def admit_runs_def Let_def proc_frame split: option.split)

lemma recover_frame [proc_frame]:
  "bp_manuallyStopped (snd (recover env t r force b)) = bp_manuallyStopped b"
  "bp_recoveryRuns (snd (recover env t r force b)) = bp_recoveryRuns (snd (admit_recovery env r b))"
  "bp_watchdogRuns (snd (recover env t r force b)) = bp_watchdogRuns b"
  by (auto simp: recover_def Let_def split_beta proc_frame split: option.split)

lemma recover_refused: "fst (admit_recovery env r b) \<noteq> None \<Longrightarrow> recover env t r force b = admit_recovery env r b"
  by (cases "admit_recovery env r b") (auto simp: recover_def)

lemma admit_blocked: "ag_Tripped (bp_guard b) \<or> bp_manuallyStopped b \<Longrightarrow> fst (admit_recovery env r b) \<noteq> None"
  by (auto simp: admit_recovery_def Let_def)

lemma shouldRestart_frame [proc_frame]:
  "bp_running (snd (shouldRestart env w st b)) = bp_running b" "bp_guard (snd (shouldRestart env w st b)) = bp_guard b"
  "bp_startCount (snd (shouldRestart env w st b)) = bp_startCount b" "bp_timer (snd (shouldRestart env w st b)) = bp_timer b"
  "bp_manuallyStopped (snd (shouldRestart env w st b)) = bp_manuallyStopped b"
  "bp_recoveryRuns (snd (shouldRestart env w st b)) = bp_recoveryRuns b"
  "bp_watchdogRuns (snd (shouldRestart env w st b)) = bp_watchdogRuns b"
  "bp_recovery (snd (shouldRestart env w st b)) = bp_recovery b"
  by (simp_all add: shouldRestart_def Let_def proc_frame)

lemma watchdogAllowed_frame [proc_frame]:
  "bp_running (snd (watchdogRestartAllowedLocked t b)) = bp_running b"
  "bp_guard (snd (watchdogRestartAllowedLocked t b)) = bp_guard b"
  "bp_startCount (snd (watchdogRestartAllowedLocked t b)) = bp_startCount b"
  "bp_timer (snd (watchdogRestartAllowedLocked t b)) = bp_timer b"
  "bp_manuallyStopped (snd (watchdogRestartAllowedLocked t b)) = bp_manuallyStopped b"
  "bp_recoveryRuns (snd (watchdogRestartAllowedLocked t b)) = bp_recoveryRuns b"
  "bp_recovery (snd (watchdogRestartAllowedLocked t b)) = bp_recovery b"
  by (simp_all add: watchdogRestartAllowedLocked_def watchdog_runs_def Let_def proc_frame split: option.split)

lemma operate_snd [simp]:
  "snd (operate a f b) = (snd (f b))\<lparr>bp_operations := keep_last 50 (bp_operations (snd (f b)) @ [(a, fst (f b))])\<rparr>"
  "fst (operate a f b) = fst (f b)"
  by (simp_all add: operate_def split_beta)

lemma allow_frame [proc_frame]:
  "bp_running (allow_recovery b) = bp_running b" "bp_guard (allow_recovery b) = bp_guard b"
  "bp_startCount (allow_recovery b) = bp_startCount b" "bp_recoveryRuns (allow_recovery b) = bp_recoveryRuns b"
  "bp_watchdogRuns (allow_recovery b) = bp_watchdogRuns b"
  by (simp_all add: allow_recovery_def proc_frame)

subsection \<open>The guard and the manual stop\<close>

lemma recover_blocked:
  assumes "ag_Tripped (bp_guard b) \<or> bp_manuallyStopped b"
  shows "bp_running (snd (recover env t r force b)) = bp_running b" "bp_guard (snd (recover env t r force b)) = bp_guard b"
    "bp_startCount (snd (recover env t r force b)) = bp_startCount b" "bp_timer (snd (recover env t r force b)) = bp_timer b"
  using recover_refused [OF admit_blocked [OF assms], where env = env and r = r and t = t and force = force]
  by (simp_all add: proc_frame)

definition guarded :: "int \<Rightarrow> Process \<Rightarrow> bool" where
  "guarded n b \<longleftrightarrow> ag_Tripped (bp_guard b) \<and> bp_startCount b = n"

lemma guarded_perform:
  assumes "\<not> is_reset op" "guarded n b"
  shows "guarded n (perform env op b)"
  using assms
  by (cases op)
    (auto simp: guarded_def Start_browser_def Stop_def Shutdown_def Restart_browser_def Recover_def Reload_def SetActive_def
      show_in_browser_def authenticationAllowed_def recovery_timer_def watch_tick_def control_lost_def control_connected_def
      handleRendererHang_def guard_stop_def Let_def split_beta proc_frame start_blocked restart_blocked recover_blocked
      blockAuthentication_guard split: option.split)

definition stopped_manually :: "Process \<Rightarrow> bool" where
  "stopped_manually b \<longleftrightarrow> bp_manuallyStopped b \<and> \<not> bp_running b"

lemma stopped_perform:
  assumes "automatic op \<or> op = Op_Stop \<or> op = Op_Shutdown \<or> op = Op_Reload" "stopped_manually b"
  shows "stopped_manually (perform env op b)"
  using assms
  by (cases op)
    (auto simp: stopped_manually_def Stop_def Shutdown_def Reload_def recovery_timer_def guard_stop_def proc_frame stop_running
      split: option.split)

definition dead :: "Process \<Rightarrow> bool" where
  \<comment> \<open>no process and no recovery that waits\<close>
  "dead b \<longleftrightarrow> \<not> bp_running b \<and> bp_timer b = None"

lemma dead_perform: "automatic op \<Longrightarrow> dead b \<Longrightarrow> dead (perform env op b)"
  by (cases op) (auto simp: dead_def recovery_timer_def guard_stop_def proc_frame stop_running blockAuthentication_guard)

text \<open>C11: Once the guard has tripped no operation, of the user or automatic, starts the browser process until the
  session is reset.\<close>

theorem guard_blocks_starts:
  assumes "ag_Tripped (bp_guard b)" "list_all (\<lambda>ev. \<not> is_reset (snd ev)) evs"
  shows "ag_Tripped (bp_guard (run_ops evs b)) \<and> bp_startCount (run_ops evs b) = bp_startCount b"
proof -
  have "guarded (bp_startCount b) b" using assms(1) by (simp add: guarded_def)
  then have "guarded (bp_startCount b) (run_ops evs b)"
    by (rule run_ops_invariant [where ops = "\<lambda>op. \<not> is_reset op" and I = "guarded (bp_startCount b)", OF _ assms(2) guarded_perform])
  then show ?thesis by (simp add: guarded_def)
qed


subsection \<open>Failed recoveries\<close>

lemma recoveryDelay_bounds: "5 * Second \<le> recoveryDelay n \<and> recoveryDelay n \<le> 10 * Minute"
proof -
  have "(1 :: int) \<le> 2 ^ k" for k by simp
  then show ?thesis by (auto simp: recoveryDelay_def Let_def duration_units)
qed

lemma admit_runs_frame:
  "bp_running (snd (admit_runs env now r b)) = bp_running b" "bp_timer (snd (admit_runs env now r b)) = bp_timer b"
  "bp_guard (snd (admit_runs env now r b)) = bp_guard b"
  by (simp_all add: admit_runs_def Let_def proc_frame)

lemma admit_runs_refused:
  assumes "fst (admit_runs env now r b) \<noteq> None"
  shows "\<exists>until. rc_BackoffUntil (bp_recovery (snd (admit_runs env now r b))) = Some until \<and> now < until \<and>
    rc_State (bp_recovery (snd (admit_runs env now r b))) = ''backoff''"
proof -
  let ?recent = "filter (\<lambda>t. now - budget_window < t) (bp_recoveryRuns b)"
  have l: "6 \<le> length ?recent" using assms by (auto simp: admit_runs_def Let_def split: if_splits)
  then have "hd ?recent \<in> set ?recent" by (intro hd_in_set) auto
  then have "now < hd ?recent + budget_window" by auto
  with l show ?thesis by (simp add: admit_runs_def Let_def proc_frame)
qed

text \<open>When the automatic restart after an exit fails, or the hourly budget is used up, the status announces the
  end of a backoff, but no further attempt is scheduled: nothing automatic starts the browser again.\<close>

theorem failed_recovery_not_retried:
  assumes "bp_timer b = Some (bp_epoch b, due)" "due \<le> be_now env" "rc_BackoffUntil (bp_recovery b) = Some due"
    and "\<not> bp_running b" "\<not> bp_manuallyStopped b" "\<not> ag_Tripped (bp_guard b)" "\<not> be_banned env"
    and "be_start env = Some e \<or> 6 \<le> length (filter (\<lambda>t. be_now env - budget_window < t) (bp_recoveryRuns b))"
    and "b1 = perform env (Op_Timer target) b" "list_all (\<lambda>ev. automatic (snd ev)) evs"
  shows "rc_State (bp_recovery b1) \<in> {''failed'', ''backoff''} \<and>
    (\<exists>until. rc_BackoffUntil (bp_recovery b1) = Some until \<and> be_now env < until) \<and> bp_timer b1 = None \<and>
    \<not> bp_running (run_ops evs b1)"
proof -
  let ?b = "b\<lparr>bp_timer := None\<rparr>"
  have b1: "b1 = (snd (recover env target ''unexpected browser exit'' True ?b))\<lparr>bp_operations :=
      keep_last 50 (bp_operations (snd (recover env target ''unexpected browser exit'' True ?b)) @
        [(''recover'', fst (recover env target ''unexpected browser exit'' True ?b))])\<rparr>"
    using assms(1,2,5,9) by (simp add: recovery_timer_def)
  have admit: "admit_recovery env r ?b = admit_runs env (be_now env) r ?b" for r
    using assms(2,3,5,6) by (simp add: admit_recovery_def Let_def)
  have core: "rc_State (bp_recovery b1) \<in> {''failed'', ''backoff''} \<and>
    (\<exists>until. rc_BackoffUntil (bp_recovery b1) = Some until \<and> be_now env < until) \<and> dead b1"
  proof (cases "fst (admit_runs env (be_now env) ''unexpected browser exit'' ?b) = None")
    case False
    then have r: "recover env target ''unexpected browser exit'' True ?b =
        admit_runs env (be_now env) ''unexpected browser exit'' ?b"
      using recover_refused [of env "''unexpected browser exit''" ?b target True] admit by simp
    from admit_runs_refused [OF False] assms(4) show ?thesis
      unfolding b1 r by (auto simp: dead_def admit_runs_frame)
  next
    case True
    then have e: "be_start env = Some e" using assms(8) by (auto simp: admit_runs_def Let_def split: if_splits)
    let ?b2 = "set_recovery (\<lambda>r. r\<lparr>rc_Stage := ''restart'', rc_LastAction := ''restart''\<rparr>)
        (snd (admit_runs env (be_now env) ''unexpected browser exit'' ?b))"
    have b2: "\<not> bp_running ?b2" "bp_guard ?b2 = bp_guard b" "bp_timer ?b2 = None"
      using assms(4) by (simp_all add: proc_frame admit_runs_frame)
    have s: "start env target ?b2 = (Some e, setStartFailureLocked (be_now env) e (?b2\<lparr>bp_stopping := False, bp_lastError := e\<rparr>))"
      using b2 assms(6,7) e by (intro start_outcome) auto
    obtain b0 where a: "admit_runs env (be_now env) ''unexpected browser exit'' ?b = (None, b0)"
      using True by (cases "admit_runs env (be_now env) ''unexpected browser exit'' ?b") auto
    have "\<not> bp_running b0" using admit_runs_frame(1) [of env "be_now env" "''unexpected browser exit''" ?b] assms(4) by (simp add: a)
    then have "recover env target ''unexpected browser exit'' True ?b =
        (Some e, finishRecovery (be_now env) ''restart'' e True (snd (start env target ?b2)))"
      using s by (simp add: recover_def admit a Let_def)
    moreover have "\<not> bp_running (snd (start env target ?b2)) \<and> bp_timer (snd (start env target ?b2)) = None"
      using b2 unfolding s by (simp add: setStartFailureLocked_def proc_frame)
    moreover have "0 < recoveryDelay n" for n using recoveryDelay_bounds [of n] by (simp add: duration_units)
    moreover have "rc_State (bp_recovery (finishRecovery now ''restart'' e True p)) = ''failed''"
      "rc_BackoffUntil (bp_recovery (finishRecovery now ''restart'' e True p)) =
         Some (now + recoveryDelay (i64 (rc_Attempts (bp_recovery p) + 1)))" for now p
      by (simp_all add: finishRecovery_def proc_frame Let_def)
    ultimately show ?thesis
      by (simp add: b1 dead_def recovery_setters)
  qed
  then have "dead b1" by blast
  then have "dead (run_ops evs b1)"
    by (rule run_ops_invariant [where ops = automatic and I = dead, OF _ assms(10) dead_perform])
  with core show ?thesis by (simp add: dead_def)
qed

text \<open>C1: When the browser exits unexpectedly, a restart is scheduled after five seconds to ten minutes; when this
  time has come, the browser can be started and the hourly budget is not used up, it runs again.\<close>

theorem crash_is_recovered:
  assumes "bp_running b" "\<not> bp_stopping b" "\<not> bp_manuallyStopped b" "\<not> ag_Tripped (bp_guard b)"
    and "b1 = perform env (Op_Exit err c) b"
    and "\<not> be_banned env'" "be_start env' = None"
    and "length (filter (\<lambda>t. be_now env' - budget_window < t) (bp_recoveryRuns b)) < 6"
  shows "\<exists>due. bp_timer b1 = Some (bp_epoch b1, due) \<and> \<not> bp_running b1 \<and>
    be_now env + 5 * Second \<le> due \<and> due \<le> be_now env + 10 * Minute \<and>
    (due \<le> be_now env' \<longrightarrow> bp_running (perform env' (Op_Timer target) b1) \<and>
       rc_State (bp_recovery (perform env' (Op_Timer target) b1)) = ''healthy'')"
proof -
  have b1: "b1 = process_exit env (err, c) b" using assms(1,5) by simp
  obtain n where due: "rc_BackoffUntil (bp_recovery b1) = Some (be_now env + recoveryDelay n)"
    "bp_timer b1 = Some (bp_epoch b1, be_now env + recoveryDelay n)"
    using assms(2-4) unfolding b1
    by (auto simp: process_exit_def prepareUnexpectedExitRecoveryLocked_def scheduleUnexpectedExitRecovery_def
        cancelRecoveryLocked_def Let_def proc_frame)
  have fields: "\<not> bp_running b1" "\<not> bp_manuallyStopped b1" "\<not> ag_Tripped (bp_guard b1)" "bp_recoveryRuns b1 = bp_recoveryRuns b"
    using assms(3,4) by (simp_all add: b1 proc_frame)
  have "bp_running (perform env' (Op_Timer target) b1) \<and> rc_State (bp_recovery (perform env' (Op_Timer target) b1)) = ''healthy''"
    if "be_now env + recoveryDelay n \<le> be_now env'"
  proof -
    let ?b = "b1\<lparr>bp_timer := None\<rparr>"
    have "admit_recovery env' ''unexpected browser exit'' ?b = admit_runs env' (be_now env') ''unexpected browser exit'' ?b"
      using fields due(1) that by (simp add: admit_recovery_def Let_def)
    moreover have "fst (admit_runs env' (be_now env') ''unexpected browser exit'' ?b) = None"
      using fields(4) assms(8) by (simp add: admit_runs_def Let_def)
    ultimately obtain b2 where a: "admit_recovery env' ''unexpected browser exit'' ?b = (None, b2)"
      "\<not> bp_running b2" "\<not> ag_Tripped (bp_guard b2)"
      using admit_runs_frame [of env' "be_now env'" "''unexpected browser exit''" ?b] fields
      by (cases "admit_runs env' (be_now env') ''unexpected browser exit'' ?b") auto
    let ?b3 = "set_recovery (\<lambda>r. r\<lparr>rc_Stage := ''restart'', rc_LastAction := ''restart''\<rparr>) b2"
    have "start env' target ?b3 = (None, started_process env' (?b3\<lparr>bp_stopping := False\<rparr>))"
      using a(2,3) assms(6,7) by (intro start_outcome) (simp_all add: proc_frame)
    then have "recover env' target ''unexpected browser exit'' True ?b =
        (None, finishRecovery (be_now env') ''restart'' ''browser running'' False (started_process env' (?b3\<lparr>bp_stopping := False\<rparr>)))"
      using a by (simp add: recover_def Let_def)
    moreover have "rc_State (bp_recovery (finishRecovery now ''restart'' r False p)) = ''healthy''" for now r p
      by (simp add: finishRecovery_def proc_frame Let_def)
    ultimately show ?thesis
      using due(2) fields(2) that by (simp add: recovery_timer_def proc_frame)
  qed
  with due fields(1) recoveryDelay_bounds [of n] show ?thesis by auto
qed

subsection \<open>Sliding windows\<close>

definition recent_runs :: "duration \<Rightarrow> time \<Rightarrow> time list \<Rightarrow> time list" where
  "recent_runs W t ts = filter (\<lambda>u. t - W < u) ts"

definition window_ok :: "duration \<Rightarrow> nat \<Rightarrow> time \<Rightarrow> time list \<Rightarrow> time list \<Rightarrow> bool" where
  \<comment> \<open>the log up to \<open>t\<close> has at most \<open>N\<close> entries in every window, and \<open>runs\<close> knows the recent ones\<close>
  "window_ok W N t runs past \<longleftrightarrow>
     (\<forall>u\<in>set past. u \<le> t) \<and>
     (\<forall>s\<ge>t - W. length (filter (\<lambda>u. s < u) past) \<le> length (filter (\<lambda>u. s < u) runs)) \<and>
     (\<forall>s. length (filter (\<lambda>u. s - W < u \<and> u \<le> s) past) \<le> N)"

lemma filter_length_mono: "(\<And>x. x \<in> set xs \<Longrightarrow> P x \<Longrightarrow> Q x) \<Longrightarrow> length (filter P xs) \<le> length (filter Q xs)"
  by (induction xs) (auto intro: le_SucI)

lemma window_ok_later: "window_ok W N t runs past \<Longrightarrow> t \<le> t' \<Longrightarrow> window_ok W N t' runs past"
  by (fastforce simp: window_ok_def)

lemma window_ok_prune: "window_ok W N t runs past \<Longrightarrow> window_ok W N t (recent_runs W t runs) past"
proof -
  have "filter (\<lambda>u. s < u) (recent_runs W t runs) = filter (\<lambda>u. s < u) runs" if "t - W \<le> s" for s
    using that by (auto simp: recent_runs_def intro: filter_cong)
  then show "window_ok W N t runs past \<Longrightarrow> ?thesis" by (simp add: window_ok_def)
qed

lemma window_ok_more: "window_ok W N t runs past \<Longrightarrow> window_ok W N t (runs @ [u]) past"
  by (auto simp: window_ok_def intro: le_SucI)

lemma window_ok_grant:
  assumes "window_ok W N t runs past" "length (recent_runs W t runs) < N"
  shows "window_ok W N t (recent_runs W t runs @ [t]) (past @ [t])"
proof -
  let ?past = "past @ [t]"
  have old: "\<forall>u\<in>set past. u \<le> t" using assms(1) by (simp add: window_ok_def)
  have recent: "length (filter (\<lambda>u. s < u) past) \<le> length (filter (\<lambda>u. s < u) (recent_runs W t runs))" if "t - W \<le> s" for s
    using window_ok_prune [OF assms(1)] that by (simp add: window_ok_def)
  have "length (filter (\<lambda>u. s - W < u \<and> u \<le> s) ?past) \<le> N" for s
  proof (cases "s < t")
    case True
    then show ?thesis using assms(1) by (simp add: window_ok_def)
  next
    case False
    have "length (filter (\<lambda>u. s - W < u \<and> u \<le> s) ?past) \<le> length (filter (\<lambda>u. t - W < u) ?past)"
      using False by (intro filter_length_mono) auto
    also have "\<dots> \<le> Suc (length (filter (\<lambda>u. t - W < u) past))" by simp
    also have "length (filter (\<lambda>u. t - W < u) past) \<le> length (recent_runs W t runs)"
      using recent [of "t - W"] length_filter_le order_trans by fastforce
    finally show ?thesis using assms(2) by simp
  qed
  moreover have "length (filter (\<lambda>u. s < u) ?past) \<le> length (filter (\<lambda>u. s < u) (recent_runs W t runs @ [t]))" if "t - W \<le> s" for s
    using recent [OF that] by simp
  ultimately show ?thesis using old by (simp add: window_ok_def)
qed

fun log_of :: "(browser_env \<Rightarrow> browser_op \<Rightarrow> Process \<Rightarrow> bool) \<Rightarrow> browser_run \<Rightarrow> Process \<Rightarrow> time list" where
  \<comment> \<open>when the operations of a run that satisfy a condition happened\<close>
  "log_of cond [] b = []"
| "log_of cond ((env, op) # evs) b = (if cond env op b then [be_now env] else []) @ log_of cond evs (perform env op b)"

locale restart_budget =
  fixes runs :: "Process \<Rightarrow> time list"
    and granted :: "browser_env \<Rightarrow> browser_op \<Rightarrow> Process \<Rightarrow> bool"
    and W :: duration and N :: nat
  assumes kept: "runs (perform env op b) = runs b \<or> runs (perform env op b) = recent_runs W (be_now env) (runs b) \<or>
      runs (perform env op b) = recent_runs W (be_now env) (runs b) @ [be_now env]"
    and law: "granted env op b \<Longrightarrow> length (recent_runs W (be_now env) (runs b)) < N \<and>
      runs (perform env op b) = recent_runs W (be_now env) (runs b) @ [be_now env]"
begin

lemma window_step:
  assumes "window_ok W N t (runs b) past" "t \<le> be_now env"
  shows "window_ok W N (be_now env) (runs (perform env op b)) (past @ (if granted env op b then [be_now env] else []))"
proof -
  have w: "window_ok W N (be_now env) (runs b) past" using assms by (rule window_ok_later)
  show ?thesis
  proof (cases "granted env op b")
    case True
    then show ?thesis using law [OF True] window_ok_grant [OF w] by simp
  next
    case False
    then show ?thesis using kept [of env op b] w window_ok_prune [OF w] window_ok_more [OF window_ok_prune [OF w]] by auto
  qed
qed

lemma window_run:
  assumes "window_ok W N t (runs b) past" "sorted (t # map (\<lambda>ev. be_now (fst ev)) evs)"
  shows "length (filter (\<lambda>u. s - W < u \<and> u \<le> s) (past @ log_of granted evs b)) \<le> N"
  using assms
proof (induction evs arbitrary: t b past)
  case Nil
  then show ?case by (simp add: window_ok_def)
next
  case (Cons ev evs)
  obtain env op where ev: "ev = (env, op)" by (cases ev)
  from Cons.prems window_step [of t b past env op] Cons.IH
    [of "be_now env" "perform env op b" "past @ (if granted env op b then [be_now env] else [])"]
  show ?case by (simp add: ev)
qed

lemma budget:
  assumes "sorted (map (\<lambda>ev. be_now (fst ev)) evs)" "runs b = []"
  shows "length (filter (\<lambda>u. s - W < u \<and> u \<le> s) (log_of granted evs b)) \<le> N"
proof (cases evs)
  case (Cons ev evs')
  have "window_ok W N (be_now (fst ev)) (runs b) []" by (simp add: window_ok_def)
  from window_run [OF this, of evs s] assms Cons show ?thesis by simp
qed simp

end

subsection \<open>The budgets\<close>

lemma admit_recovery_runs:
  "bp_recoveryRuns (snd (admit_recovery env r b)) =
     (if fst (admit_recovery env r b) = None
      then recent_runs Hour (be_now env) (bp_recoveryRuns b) @ [be_now env]
      else bp_recoveryRuns (snd (admit_recovery env r b)))"
  "fst (admit_recovery env r b) = None \<Longrightarrow> length (recent_runs Hour (be_now env) (bp_recoveryRuns b)) < 6"
  "bp_recoveryRuns (snd (admit_recovery env r b)) = bp_recoveryRuns b \<or>
   bp_recoveryRuns (snd (admit_recovery env r b)) = recent_runs Hour (be_now env) (bp_recoveryRuns b) \<or>
   bp_recoveryRuns (snd (admit_recovery env r b)) = recent_runs Hour (be_now env) (bp_recoveryRuns b) @ [be_now env]"
  by (auto simp: admit_recovery_def admit_runs_def recent_runs_def budget_window_def Let_def proc_frame
      split: option.splits if_splits)

lemma recover_starts:
  assumes "bp_startCount (snd (recover env t r force b)) \<noteq> bp_startCount b"
  shows "length (recent_runs Hour (be_now env) (bp_recoveryRuns b)) < 6 \<and>
    bp_recoveryRuns (snd (recover env t r force b)) = recent_runs Hour (be_now env) (bp_recoveryRuns b) @ [be_now env]"
proof -
  have "fst (admit_recovery env r b) = None"
  proof (rule ccontr)
    assume "fst (admit_recovery env r b) \<noteq> None"
    from recover_refused [OF this] assms show False by (simp add: proc_frame)
  qed
  then show ?thesis using admit_recovery_runs [of env r b] by (simp add: proc_frame)
qed

lemma clear_frame [proc_frame]:
  "bp_recoveryRuns (clearAuthGuard b) = bp_recoveryRuns b" "bp_watchdogRuns (clearAuthGuard b) = bp_watchdogRuns b"
  by (simp_all add: clearAuthGuard_def)

lemma recover_runs:
  "bp_recoveryRuns (snd (recover env t r force b)) = bp_recoveryRuns b \<or>
   bp_recoveryRuns (snd (recover env t r force b)) = recent_runs Hour (be_now env) (bp_recoveryRuns b) \<or>
   bp_recoveryRuns (snd (recover env t r force b)) = recent_runs Hour (be_now env) (bp_recoveryRuns b) @ [be_now env]"
  using admit_recovery_runs(3) [of env r b] unfolding recover_frame .

definition counters :: "Process \<Rightarrow> time list \<times> int" where
  "counters b = (bp_recoveryRuns b, bp_startCount b)"

definition via_recover :: "browser_env \<Rightarrow> Process \<Rightarrow> Process \<Rightarrow> bool" where
  \<comment> \<open>if anything was started or counted, then by one call of \<open>recover\<close>\<close>
  "via_recover env b b' \<longleftrightarrow> counters b' = counters b \<or>
     (\<exists>b0 t r force. counters b0 = counters b \<and> counters b' = counters (snd (recover env t r force b0)))"

lemma via_recover_same: "counters b' = counters b \<Longrightarrow> via_recover env b b'"
  by (simp add: via_recover_def)

lemma via_recover_call: "counters b0 = counters b \<Longrightarrow> via_recover env b (snd (operate a (recover env t r force) b0))"
  unfolding via_recover_def operate_snd by (rule disjI2) (force simp: counters_def)

lemma via_watch_tick: "via_recover env b (snd (watch_tick env w t st b))"
proof -
  define b1 where "b1 = (if bp_started b \<noteq> zero_time \<and> stableRuntime \<le> be_now env - bp_started b \<and> 0 < rc_Attempts (bp_recovery b)
      then set_recovery (\<lambda>r. r\<lparr>rc_Attempts := 0, rc_BackoffUntil := None\<rparr>) b else b)"
  obtain restart reason b2 where s: "shouldRestart env w st b1 = ((restart, reason), b2)" by (metis surj_pair)
  define b3 where "b3 = (if reason \<noteq> '''' then set_watchdog (\<lambda>s. s\<lparr>ws_LastReason := reason\<rparr>) b2 else b2)"
  have c1: "counters b1 = counters b" by (simp add: b1_def counters_def proc_frame)
  moreover have "counters b2 = counters b1" using shouldRestart_frame(3,6) [of env w st b1] by (simp add: s counters_def)
  ultimately have c3: "counters b3 = counters b" by (simp add: b3_def counters_def proc_frame)
  obtain allowed b4 where a: "watchdogRestartAllowedLocked (be_now env) b3 = (allowed, b4)" by fastforce
  have c4: "counters b4 = counters b" using watchdogAllowed_frame(3,6) [of "be_now env" b3] c3 by (simp add: a counters_def)
  define b5 where "b5 = set_watchdog (\<lambda>s. s\<lparr>ws_LastRestart := Some (be_now env), ws_LastReason := reason, ws_LastAction := ''restart''\<rparr>) b4"
  have c5: "counters b5 = counters b" using c4 by (simp add: b5_def counters_def proc_frame)
  have "watch_tick env w t st b =
     (if \<not> wd_Enabled w then (False, b1) else if \<not> restart then (False, b3) else if \<not> allowed then (False, b4)
      else (True, snd (operate ''recover'' (recover env t (''watchdog: '' @ reason) True) b5)))"
    unfolding watch_tick_def Let_def b1_def [symmetric] s prod.case b3_def [symmetric] a b5_def [symmetric] by (rule refl)
  then show ?thesis
    using via_recover_same [OF c1] via_recover_same [OF c3] via_recover_same [OF c4] via_recover_call [OF c5]
    by (auto simp del: operate_snd)
qed

lemma via_control_lost: "via_recover env b (snd (control_lost env t e b))"
proof -
  define b1 where "b1 = b\<lparr>bp_devTools := False\<rparr>"
  define b2 where "b2 = (if \<not> ag_Tripped (bp_guard b1) then b1\<lparr>bp_lastError := e, bp_controlFailures := bp_controlFailures b1 + 1\<rparr> else b1)"
  define ready where "ready = (\<not> ag_Tripped (bp_guard b1) \<and> bp_readySince b2 \<noteq> zero_time)"
  define b3 where "b3 = (if ready then set_recovery (\<lambda>r. r\<lparr>rc_State := ''degraded'', rc_Stage := ''control_reconnect'',
                 rc_LastResult := e, rc_LastAt := Some (be_now env)\<rparr>) b2 else b2)"
  have c3: "counters b3 = counters b" by (simp add: b3_def b2_def b1_def counters_def proc_frame)
  have "control_lost env t e b =
     (if ag_Tripped (bp_guard b3) then (True, b3)
      else if ready \<and> 5 \<le> bp_controlFailures b3 \<and> \<not> bp_manuallyStopped b3
      then (True, snd (operate ''recover'' (recover env t ''browser control unavailable'' True) b3)) else (False, b3))"
    unfolding control_lost_def Let_def b1_def [symmetric] b2_def [symmetric] ready_def [symmetric] b3_def [symmetric]
    by (rule refl)
  then show ?thesis using via_recover_same [OF c3] via_recover_call [OF c3] by (auto simp del: operate_snd)
qed

lemma via_hang: "via_recover env b (snd (handleRendererHang env w t b))"
proof -
  obtain err b1 where o: "operate ''recover'' (recover env t ''renderer unresponsive'' True) b = (err, b1)" by fastforce
  then have "via_recover env b b1" using via_recover_call [of b b env] by (metis snd_conv)
  moreover have "counters (snd (handleRendererHang env w t b)) = counters b1"
    unfolding handleRendererHang_def o by (auto simp: counters_def Let_def split: option.split)
  ultimately show ?thesis by (simp add: via_recover_def)
qed

lemma via_timer: "via_recover env b (recovery_timer env t b)"
proof (cases "bp_timer b")
  case (Some d)
  obtain epoch due where d: "d = (epoch, due)" by (cases d)
  let ?b = "b\<lparr>bp_timer := None\<rparr>"
  have c: "counters ?b = counters b" by (simp add: counters_def)
  have "recovery_timer env t b = (if be_now env < due then b
      else if bp_epoch b \<noteq> epoch \<or> bp_manuallyStopped b then snd (operate ''recover'' (\<lambda>b. (Some ''context canceled'', b)) ?b)
      else snd (operate ''recover'' (recover env t ''unexpected browser exit'' True) ?b))"
    using Some by (simp add: recovery_timer_def d)
  moreover have "counters (snd (operate ''recover'' (\<lambda>b. (Some ''context canceled'', b)) ?b)) = counters b"
    by (simp add: counters_def)
  ultimately show ?thesis
    using via_recover_call [OF c] by (auto simp del: operate_snd intro: via_recover_same)
qed (simp add: recovery_timer_def via_recover_same)

lemma via_automatic: "automatic op \<Longrightarrow> via_recover env b (perform env op b)"
proof (cases op)
  case (Op_Connected navigated)
  then show ?thesis by (intro via_recover_same) (simp add: control_connected_def counters_def Let_def proc_frame)
qed (simp_all add: via_watch_tick via_control_lost via_hang via_timer via_recover_same counters_def guard_stop_def proc_frame)

lemma recent_cases:
  assumes "via_recover env b b'"
  shows "bp_recoveryRuns b' = bp_recoveryRuns b \<or>
   bp_recoveryRuns b' = recent_runs Hour (be_now env) (bp_recoveryRuns b) \<or>
   bp_recoveryRuns b' = recent_runs Hour (be_now env) (bp_recoveryRuns b) @ [be_now env]"
  using assms unfolding via_recover_def
proof
  assume "\<exists>b0 t r force. counters b0 = counters b \<and> counters b' = counters (snd (recover env t r force b0))"
  then obtain b0 t r force where "counters b0 = counters b" "counters b' = counters (snd (recover env t r force b0))" by blast
  with recover_runs [of env t r force b0] show ?thesis by (simp add: counters_def)
qed (simp add: counters_def)

lemma perform_recoveryRuns:
  "bp_recoveryRuns (perform env op b) = bp_recoveryRuns b \<or>
   bp_recoveryRuns (perform env op b) = recent_runs Hour (be_now env) (bp_recoveryRuns b) \<or>
   bp_recoveryRuns (perform env op b) = recent_runs Hour (be_now env) (bp_recoveryRuns b) @ [be_now env]"
proof (cases "automatic op")
  case True
  then show ?thesis by (intro recent_cases via_automatic)
next
  case False
  show ?thesis
  proof (cases op)
    case (Op_Recover t r)
    then show ?thesis using recover_runs [of env t r False "allow_recovery b"] by (simp add: Recover_def allow_frame)
  next
    case (Op_Show t isolate)
    have "bp_recoveryRuns (snd (show_in_browser env t isolate b)) = bp_recoveryRuns b"
      unfolding show_in_browser_def by (simp add: start_frame restart_frame split: option.split)
    then show ?thesis using Op_Show by (simp add: SetActive_def)
  next
    case (Op_Reset t moved)
    have "bp_recoveryRuns (perform env op b) = bp_recoveryRuns b"
      unfolding Op_Reset by (simp add: ResetSession_def Let_def split_beta stop_frame start_frame cancel_frame clear_frame
          split: option.split)
    then show ?thesis by simp
  next
    case Op_Reload
    then show ?thesis by (simp add: Reload_def split: option.split)
  qed (use False in \<open>simp_all add: Start_browser_def Stop_def Shutdown_def Restart_browser_def
      start_frame restart_frame stop_frame allow_frame cancel_frame\<close>)
qed

definition starts_by_itself :: "browser_env \<Rightarrow> browser_op \<Rightarrow> Process \<Rightarrow> bool" where
  "starts_by_itself env op b \<longleftrightarrow> automatic op \<and> bp_startCount (perform env op b) \<noteq> bp_startCount b"

definition watchdog_restarts :: "browser_env \<Rightarrow> browser_op \<Rightarrow> Process \<Rightarrow> bool" where
  "watchdog_restarts env op b \<longleftrightarrow>
     (case op of Op_Watch w target stats \<Rightarrow> bp_running b \<and> fst (watch_tick env w target stats b) | _ \<Rightarrow> False)"

lemma starts_by_itself_runs:
  assumes "starts_by_itself env op b"
  shows "length (recent_runs Hour (be_now env) (bp_recoveryRuns b)) < 6 \<and>
    bp_recoveryRuns (perform env op b) = recent_runs Hour (be_now env) (bp_recoveryRuns b) @ [be_now env]"
proof -
  from assms have "via_recover env b (perform env op b)" "bp_startCount (perform env op b) \<noteq> bp_startCount b"
    by (simp_all add: starts_by_itself_def via_automatic)
  then obtain b0 t r force where b0: "counters b0 = counters b"
    "counters (perform env op b) = counters (snd (recover env t r force b0))"
    by (auto simp: via_recover_def counters_def)
  with \<open>bp_startCount (perform env op b) \<noteq> bp_startCount b\<close> recover_starts [of env t r force b0] show ?thesis
    by (simp add: counters_def)
qed

interpretation hourly_budget: restart_budget bp_recoveryRuns starts_by_itself Hour 6
  by unfold_locales (rule perform_recoveryRuns, rule starts_by_itself_runs)

lemma watchdogAllowed_runs:
  "fst (watchdogRestartAllowedLocked now b) \<Longrightarrow> length (recent_runs (30 * Minute) now (bp_watchdogRuns b)) < 3 \<and>
     bp_watchdogRuns (snd (watchdogRestartAllowedLocked now b)) = recent_runs (30 * Minute) now (bp_watchdogRuns b) @ [now]"
  "bp_watchdogRuns (snd (watchdogRestartAllowedLocked now b)) = bp_watchdogRuns b \<or>
   bp_watchdogRuns (snd (watchdogRestartAllowedLocked now b)) = recent_runs (30 * Minute) now (bp_watchdogRuns b) \<or>
   bp_watchdogRuns (snd (watchdogRestartAllowedLocked now b)) = recent_runs (30 * Minute) now (bp_watchdogRuns b) @ [now]"
  by (auto simp: watchdogRestartAllowedLocked_def watchdog_runs_def recent_runs_def watchdogRestartWindow_def Let_def
      proc_frame split: option.splits if_splits)

lemma watch_tick_runs:
  "bp_watchdogRuns (snd (watch_tick env w t st b)) = bp_watchdogRuns b \<and> \<not> fst (watch_tick env w t st b) \<or>
   (\<exists>b'. bp_watchdogRuns b' = bp_watchdogRuns b \<and>
      bp_watchdogRuns (snd (watch_tick env w t st b)) = bp_watchdogRuns (snd (watchdogRestartAllowedLocked (be_now env) b')) \<and>
      (fst (watch_tick env w t st b) \<longleftrightarrow> fst (watchdogRestartAllowedLocked (be_now env) b')))"
proof -
  define b1 where "b1 = (if bp_started b \<noteq> zero_time \<and> stableRuntime \<le> be_now env - bp_started b \<and> 0 < rc_Attempts (bp_recovery b)
      then set_recovery (\<lambda>r. r\<lparr>rc_Attempts := 0, rc_BackoffUntil := None\<rparr>) b else b)"
  obtain restart reason b2 where s: "shouldRestart env w st b1 = ((restart, reason), b2)" by (metis surj_pair)
  define b3 where "b3 = (if reason \<noteq> '''' then set_watchdog (\<lambda>s. s\<lparr>ws_LastReason := reason\<rparr>) b2 else b2)"
  have b1: "bp_watchdogRuns b1 = bp_watchdogRuns b" by (simp add: b1_def proc_frame)
  moreover have "bp_watchdogRuns b2 = bp_watchdogRuns b1" using shouldRestart_frame(7) [of env w st b1] by (simp add: s)
  ultimately have runs: "bp_watchdogRuns b1 = bp_watchdogRuns b" "bp_watchdogRuns b3 = bp_watchdogRuns b"
    by (simp_all add: b3_def proc_frame)
  obtain allowed b4 where a: "watchdogRestartAllowedLocked (be_now env) b3 = (allowed, b4)" by fastforce
  have "watch_tick env w t st b =
     (if \<not> wd_Enabled w then (False, b1) else if \<not> restart then (False, b3) else if \<not> allowed then (False, b4)
      else (True, snd (operate ''recover'' (recover env t (''watchdog: '' @ reason) True)
        (set_watchdog (\<lambda>s. s\<lparr>ws_LastRestart := Some (be_now env), ws_LastReason := reason, ws_LastAction := ''restart''\<rparr>) b4))))"
    unfolding watch_tick_def Let_def b1_def [symmetric] s prod.case b3_def [symmetric] a by (rule refl)
  with runs a show ?thesis by (cases "wd_Enabled w"; cases restart; cases allowed) (auto simp: proc_frame intro!: exI [of _ b3])
qed

lemma perform_watchdogRuns:
  "bp_watchdogRuns (perform env op b) = bp_watchdogRuns b \<or>
   bp_watchdogRuns (perform env op b) = recent_runs (30 * Minute) (be_now env) (bp_watchdogRuns b) \<or>
   bp_watchdogRuns (perform env op b) = recent_runs (30 * Minute) (be_now env) (bp_watchdogRuns b) @ [be_now env]"
proof (cases op)
  case (Op_Watch w t st)
  then show ?thesis using watch_tick_runs [of env w t st b] watchdogAllowed_runs(2) [of "be_now env"]
    by (cases "bp_running b") (simp, metis, simp)
next
  case (Op_Lost t e)
  have "bp_watchdogRuns (snd (control_lost env t e b)) = bp_watchdogRuns b"
    unfolding control_lost_def Let_def by (simp add: recover_frame set_frame)
  then show ?thesis using Op_Lost by simp
next
  case (Op_Hang w t)
  have "bp_watchdogRuns (snd (handleRendererHang env w t b)) = bp_watchdogRuns b"
    unfolding handleRendererHang_def Let_def split_beta operate_snd by (simp add: recover_frame split: option.split)
  then show ?thesis using Op_Hang by simp
next
  case (Op_Timer t)
  have "bp_watchdogRuns (recovery_timer env t b) = bp_watchdogRuns b"
    unfolding recovery_timer_def Let_def split_beta operate_snd by (simp add: recover_frame split: option.split)
  then show ?thesis using Op_Timer by simp
next
  case (Op_Reset t moved)
  have "bp_watchdogRuns (perform env op b) = bp_watchdogRuns b"
    unfolding Op_Reset by (simp add: ResetSession_def Let_def split_beta stop_frame start_frame cancel_frame clear_frame
        split: option.split)
  then show ?thesis by simp
next
  case (Op_Show t isolate)
  have "bp_watchdogRuns (snd (show_in_browser env t isolate b)) = bp_watchdogRuns b"
    unfolding show_in_browser_def by (simp add: start_frame restart_frame split: option.split)
  then show ?thesis using Op_Show by (simp add: SetActive_def)
next
  case Op_Reload
  then show ?thesis by (simp add: Reload_def split: option.split)
qed (simp_all add: Start_browser_def Stop_def Shutdown_def Restart_browser_def Recover_def guard_stop_def control_connected_def
  Let_def proc_frame)

lemma watchdog_restarts_runs:
  assumes "watchdog_restarts env op b"
  shows "length (recent_runs (30 * Minute) (be_now env) (bp_watchdogRuns b)) < 3 \<and>
    bp_watchdogRuns (perform env op b) = recent_runs (30 * Minute) (be_now env) (bp_watchdogRuns b) @ [be_now env]"
proof -
  obtain w t st where op: "op = Op_Watch w t st" "bp_running b" "fst (watch_tick env w t st b)"
    using assms by (auto simp: watchdog_restarts_def split: browser_op.splits)
  then obtain b' where b': "bp_watchdogRuns b' = bp_watchdogRuns b"
    "bp_watchdogRuns (snd (watch_tick env w t st b)) = bp_watchdogRuns (snd (watchdogRestartAllowedLocked (be_now env) b'))"
    "fst (watchdogRestartAllowedLocked (be_now env) b')"
    using watch_tick_runs [of env w t st b] by blast
  from watchdogAllowed_runs(1) [OF b'(3)] show ?thesis using op b' by simp
qed

interpretation watchdog_budget: restart_budget bp_watchdogRuns watchdog_restarts "30 * Minute" 3
  by unfold_locales (rule perform_watchdogRuns, rule watchdog_restarts_runs)

text \<open>C24: Whatever happens, in any hour at most six operations that nobody asked for start the browser process, and in
  any half hour the watchdog restarts it at most three times.\<close>

theorem restart_budgets:
  assumes "sorted (map (\<lambda>ev. be_now (fst ev)) evs)"
  shows "length (filter (\<lambda>u. t - Hour < u \<and> u \<le> t) (log_of starts_by_itself evs new_process)) \<le> 6 \<and>
    length (filter (\<lambda>u. t - 30 * Minute < u \<and> u \<le> t) (log_of watchdog_restarts evs new_process)) \<le> 3"
  using hourly_budget.budget [OF assms, of new_process t] watchdog_budget.budget [OF assms, of new_process t]
  by (simp add: new_process_def)

subsection \<open>The heartbeat\<close>

type_synonym tick = "time option \<times> time \<times> bool \<times> time"
  \<comment> \<open>a navigation before the tick, the tick, whether the page responds, and when a reload would have been sent\<close>

definition heartbeat_navigated :: "time option \<Rightarrow> heartbeat \<Rightarrow> heartbeat" where
  \<comment> \<open>the event \<^verbatim>\<open>Page.frameNavigated\<close>\<close>
  "heartbeat_navigated nav h = (case nav of None \<Rightarrow> h | Some t \<Rightarrow> h\<lparr>hb_lastNavigation := t\<rparr>)"

fun heartbeats :: "tick list \<Rightarrow> heartbeat \<Rightarrow> heartbeat_action list" where
  "heartbeats [] h = []"
| "heartbeats ((nav, now, responds, after) # ticks) h =
     (case heartbeat_tick now responds after (heartbeat_navigated nav h) of (action, h') \<Rightarrow> action # heartbeats ticks h')"

fun ticks_within :: "duration \<Rightarrow> time \<Rightarrow> tick list \<Rightarrow> bool" where
  \<comment> \<open>every tick comes less than \<open>d\<close> after the one before\<close>
  "ticks_within d before [] = True"
| "ticks_within d before ((nav, now, responds, after) # ticks) \<longleftrightarrow>
     before \<le> now \<and> now - before < d \<and> now \<le> after \<and> (nav = None \<or> before \<le> the nav) \<and> ticks_within d now ticks"

lemma heartbeats_safe:
  assumes "ticks_within Minute before ticks" "hb_missed h \<le> 1 \<or> hb_missed h = 2 \<and> before \<le> hb_lastNavigation h"
  shows "Restart_hung \<notin> set (heartbeats ticks h)"
  using assms
proof (induction ticks arbitrary: before h)
  case (Cons tick ticks)
  obtain nav now responds after where t: "tick = (nav, now, responds, after)" by (cases tick)
  have time: "now - before < Minute" "now \<le> after" "ticks_within Minute now ticks" using Cons.prems(1) by (simp_all add: t)
  let ?h = "heartbeat_navigated nav h"
  obtain action h' where tick: "heartbeat_tick now responds after ?h = (action, h')" by fastforce
  have "hb_missed ?h \<le> 1 \<or> hb_missed ?h = 2 \<and> before \<le> hb_lastNavigation ?h"
    using Cons.prems by (auto simp: t heartbeat_navigated_def split: option.split)
  then have "Restart_hung \<noteq> action \<and> (hb_missed h' \<le> 1 \<or> hb_missed h' = 2 \<and> now \<le> hb_lastNavigation h')"
    using tick time by (auto simp: heartbeat_tick_def Let_def split: if_splits)
  then show ?case using Cons.IH [OF time(3)] tick by (simp add: t)
qed simp

text \<open>While ticks come less than a minute apart (the ticker fires every thirty seconds) the heartbeat never asks
  for a restart of the browser, however long the page stays silent: the reload after two missed
  answers counts as a navigation, which resets the count at the next tick.\<close>

theorem hung_page_never_restarted:
  assumes "ticks_within Minute begun ticks"
  shows "Restart_hung \<notin> set (heartbeats ticks \<lparr>hb_missed = 0, hb_lastNavigation = opened\<rparr>)"
  using assms by (rule heartbeats_safe) simp

definition silent_ticks :: "tick list" where
  \<comment> \<open>the page never responds: ticks every thirty seconds, ten seconds for an answer\<close>
  "silent_ticks = map (\<lambda>i. (None, int i * 30 * Second, False, int i * 30 * Second + 10 * Second)) [2..<10]"

lemma hung_page_never_restarted_witness:
  "heartbeats silent_ticks \<lparr>hb_missed = 0, hb_lastNavigation = 0\<rparr> =
     [Nothing, Reload_page, Nothing, Nothing, Nothing, Reload_page, Nothing, Nothing] \<and>
   Restart_hung \<notin> set (heartbeats silent_ticks \<lparr>hb_missed = 0, hb_lastNavigation = 0\<rparr>)"
proof
  show "heartbeats silent_ticks \<lparr>hb_missed = 0, hb_lastNavigation = 0\<rparr> =
     [Nothing, Reload_page, Nothing, Nothing, Nothing, Reload_page, Nothing, Nothing]" by code_simp
  have "ticks_within Minute (31 * Second) silent_ticks" by code_simp
  then show "Restart_hung \<notin> set (heartbeats silent_ticks \<lparr>hb_missed = 0, hb_lastNavigation = 0\<rparr>)"
    by (rule hung_page_never_restarted)
qed

subsection \<open>Examples\<close>

definition demo_env_at :: "time \<Rightarrow> string option \<Rightarrow> browser_env" where
  "demo_env_at now err = \<lparr>be_now = now, be_banned = False, be_start = err, be_cdp = True, be_reload = None,
     be_navigate = None, be_terminate = None, be_exit = (None, 0), be_until = (\<lambda>_. ''later''), be_duration = (\<lambda>_. ''5s''),
     be_percent = (\<lambda>_. ''0.0''), be_origin = (\<lambda>u. u), be_kioskIP = '''', be_reboot = None\<rparr>"

definition demo_crashed :: Process where
  \<comment> \<open>started and crashed a minute later; the recovery waits\<close>
  "demo_crashed = perform (demo_env_at (61 * Second) None) (Op_Exit (Some ''signal: killed'') 137)
     (perform (demo_env_at Second None) (Op_Start ''http://ha'') new_process)"

lemma failed_recovery_not_retried_witness:
  "rc_State (bp_recovery (perform (demo_env_at (70 * Second) (Some ''no display'')) (Op_Timer ''http://ha'') demo_crashed))
     \<in> {''failed'', ''backoff''} \<and>
   \<not> bp_running (run_ops [(demo_env_at (3600 * Second) None, Op_Timer ''http://ha'')]
       (perform (demo_env_at (70 * Second) (Some ''no display'')) (Op_Timer ''http://ha'') demo_crashed))"
proof -
  let ?env = "demo_env_at (70 * Second) (Some ''no display'')"
  have b: "bp_timer demo_crashed = Some (bp_epoch demo_crashed, 66 * Second)"
    "rc_BackoffUntil (bp_recovery demo_crashed) = Some (66 * Second)" "\<not> bp_running demo_crashed"
    "\<not> bp_manuallyStopped demo_crashed" "\<not> ag_Tripped (bp_guard demo_crashed)"
    by code_simp+
  have e: "66 * Second \<le> be_now ?env" "\<not> be_banned ?env" "be_start ?env = Some ''no display''"
    by (simp_all add: demo_env_at_def duration_units)
  from failed_recovery_not_retried [OF b(1) e(1) b(2-5) e(2) disjI1 [OF e(3)] refl,
      where evs = "[(demo_env_at (3600 * Second) None, Op_Timer ''http://ha'')]"]
  show ?thesis by simp
qed

lemma crash_is_recovered_witness:
  "bp_running (perform (demo_env_at (70 * Second) None) (Op_Timer ''http://ha'') demo_crashed)"
proof -
  let ?b = "perform (demo_env_at Second None) (Op_Start ''http://ha'') new_process"
  let ?env = "demo_env_at (70 * Second) None"
  have b: "bp_running ?b" "\<not> bp_stopping ?b" "\<not> bp_manuallyStopped ?b" "\<not> ag_Tripped (bp_guard ?b)"
    "length (filter (\<lambda>t. be_now ?env - budget_window < t) (bp_recoveryRuns ?b)) < 6" by code_simp+
  have e: "\<not> be_banned ?env" "be_start ?env = None" by (simp_all add: demo_env_at_def)
  have t: "bp_timer demo_crashed = Some (bp_epoch demo_crashed, 66 * Second)" by code_simp
  have "66 * Second \<le> be_now ?env" by (simp add: demo_env_at_def duration_units)
  with crash_is_recovered [OF b(1-4) demo_crashed_def e b(5)] t show ?thesis by auto
qed

lemma guard_blocks_starts_witness:
  "\<exists>b. bp_startCount b = 1 \<and> ag_Tripped (bp_guard b) \<and>
     bp_startCount (run_ops [(demo_env_at (9 * Second) None, Op_GuardStop), (demo_env_at (10 * Second) None, Op_Start ''http://ha'')] b) = 1"
proof -
  let ?b = "snd (blockAuthentication (demo_env_at (2 * Second) None) ban_evidence
    (perform (demo_env_at Second None) (Op_Start ''http://ha'') new_process))"
  have b: "ag_Tripped (bp_guard ?b)" "bp_startCount ?b = 1" by code_simp+
  from guard_blocks_starts [OF b(1), of "[(demo_env_at (9 * Second) None, Op_GuardStop), (demo_env_at (10 * Second) None, Op_Start ''http://ha'')]"] b
  show ?thesis by (intro exI [of _ ?b]) simp
qed


definition demo_crashes :: browser_run where
  \<comment> \<open>a browser that crashes a second after each start, while its recovery is tried every thirteen minutes\<close>
  "demo_crashes = (demo_env_at Second None, Op_Start ''http://ha'') #
     concat (map (\<lambda>i. [(demo_env_at (int i * 13 * Minute) None, Op_Exit (Some ''crash'') 1),
       (demo_env_at (int i * 13 * Minute + 12 * Minute) None, Op_Timer ''http://ha'')]) [1..<4])"

lemma restart_budgets_witness:
  "length (log_of starts_by_itself demo_crashes new_process) = 3 \<and>
   length (filter (\<lambda>u. 60 * Minute - Hour < u \<and> u \<le> 60 * Minute) (log_of starts_by_itself demo_crashes new_process)) \<le> 6"
proof
  show "length (log_of starts_by_itself demo_crashes new_process) = 3" by code_simp
  have "sorted (map (\<lambda>ev. be_now (fst ev)) demo_crashes)" by code_simp
  from restart_budgets [OF this, of "60 * Minute"]
  show "length (filter (\<lambda>u. 60 * Minute - Hour < u \<and> u \<le> 60 * Minute) (log_of starts_by_itself demo_crashes new_process)) \<le> 6"
    by blast
qed

end
