(* ===== verification/Config_Normalize.thy ===== *)
theory Config_Normalize
  imports Config_Pages Config_Rules
begin

section \<open>Normalization and validation of the configuration\<close>

text \<open>
  \<^verbatim>\<open>normalize\<close>, \<^verbatim>\<open>migrateSchema\<close>, \<^verbatim>\<open>Validate\<close>, \<^verbatim>\<open>Repair\<close>, the Raspberry safe mode and the defaults of
  \<^verbatim>\<open>internal/config/config.go\<close>, with the local pages of \<^verbatim>\<open>localpages.go\<close>. One definition per section of
  the configuration, composed in the order of the code. What the code takes from the libraries and
  the machine is the record \<open>config_env\<close>: how addresses and dates are parsed, a random token, the
  default directories and the architecture. Error texts are constructors.
\<close>

record web_url =
  wu_Scheme :: string
  wu_Host :: string
  wu_Hostname :: string

record config_env =
  ce_url :: "string \<Rightarrow> web_url option" \<comment> \<open>\<^verbatim>\<open>url.Parse\<close>\<close>
  ce_unspecified :: "string \<Rightarrow> bool" \<comment> \<open>\<^verbatim>\<open>net.ParseIP\<close> gives an unspecified address\<close>
  ce_date :: "string \<Rightarrow> bool" \<comment> \<open>\<^verbatim>\<open>time.ParseInLocation\<close> accepts a countdown target\<close>
  ce_token :: string
  ce_path :: string
  ce_browserDir :: string
  ce_arm64 :: bool

definition currentConfigVersion :: int where
  "currentConfigVersion = 4"

subsection \<open>Small helpers\<close>

definition supportedMQTTVersion :: "string \<Rightarrow> bool" where
  "supportedMQTTVersion version \<longleftrightarrow> trim_space version \<in> {''3.1.1'', ''5.0''}"

definition supportedPerformanceProfile :: "string \<Rightarrow> bool" where
  "supportedPerformanceProfile profile \<longleftrightarrow> trim_space (to_lower profile) \<in>
     {''quality'', ''balanced'', ''raspberry'', ''low-power'', ''minimal'', ''conservative''}"

definition NormalizeKioskTheme :: "string \<Rightarrow> string" where
  "NormalizeKioskTheme theme =
     (let t = trim_space (to_lower theme) in
      if t \<in> {''light'', ''dark'', ''force-dark''} then t else ''dark'')"

definition staleProjectValue :: "string \<Rightarrow> bool" where
  "staleProjectValue value \<longleftrightarrow>
     (let normalized = to_lower (trim_space value) in
      normalized \<noteq> '''' \<and>
      list_ex (\<lambda>item. contains normalized item) [''touchkio'', ''go.kiosk'', ''go-kiosk'', ''go_kiosk''])"

definition defaultProfile :: "config_env \<Rightarrow> string" where
  "defaultProfile env = (if ce_arm64 env then ''low-power'' else ''balanced'')"

fun unique_nonempty :: "string list \<Rightarrow> string list \<Rightarrow> string list" where
  \<comment> \<open>a loop of \<^verbatim>\<open>appendUnique\<close>; the first argument is the map of the values already taken\<close>
  "unique_nonempty seen [] = []"
| "unique_nonempty seen (v # vs) =
     (if v = '''' \<or> v \<in> set seen then unique_nonempty seen vs else v # unique_nonempty (v # seen) vs)"

definition appendUnique :: "string list \<Rightarrow> string list \<Rightarrow> string list" where
  "appendUnique values additions = unique_nonempty [] (map trim_space values @ additions)"

subsection \<open>Local pages\<close>

definition IsLocalSource :: "string \<Rightarrow> bool" where
  "IsLocalSource t \<longleftrightarrow> t \<in> {''clock'', ''slideshow'', ''html'', ''weather'', ''countdown'', ''news'', ''camera'', ''immich''}"

definition JoinHostPort :: "string \<Rightarrow> string \<Rightarrow> string" where
  \<comment> \<open>\<^verbatim>\<open>net.JoinHostPort\<close>\<close>
  "JoinHostPort host port =
     (if CHR '':'' \<in> set host then ''['' @ host @ '']:'' @ port else host @ '':'' @ port)"

definition LocalPageURL :: "config_env \<Rightarrow> AdminConfig \<Rightarrow> string \<Rightarrow> string" where
  "LocalPageURL env admin pageID =
     (let scheme = (if adm_TLSCert admin \<noteq> '''' \<and> adm_TLSKey admin \<noteq> '''' then ''https'' else ''http'');
          bind = trim_space (adm_Bind admin);
          host = (if bind \<noteq> '''' \<and> \<not> ce_unspecified env bind then bind else ''127.0.0.1'')
      in scheme @ ''://'' @ JoinHostPort host (itoa (adm_Port admin)) @ ''/local/'' @ pageID)"

definition cleanURLList :: "string list \<Rightarrow> string list" where
  "cleanURLList urls = filter (\<lambda>u. u \<noteq> '''') (map trim_space urls)"

definition normalizeLocalPage :: "string \<Rightarrow> LocalPage option \<Rightarrow> LocalPage" where
  "normalizeLocalPage t local =
     (let l = (case local of None \<Rightarrow> zero_local | Some l \<Rightarrow> l);
          out = zero_local\<lparr>loc_Title := trim_space (loc_Title l)\<rparr>
      in if t = ''clock'' then
           out\<lparr>loc_Hour12 := loc_Hour12 l, loc_ShowSeconds := loc_ShowSeconds l, loc_HideDate := loc_HideDate l\<rparr>
         else if t = ''slideshow'' \<or> t = ''immich'' then
           (let out = out\<lparr>loc_IntervalSeconds := (if loc_IntervalSeconds l \<le> 0 then 10 else loc_IntervalSeconds l),
                          loc_Fit := (if loc_Fit l \<noteq> ''cover'' then ''contain'' else loc_Fit l),
                          loc_Shuffle := loc_Shuffle l\<rparr>
            in if t = ''slideshow'' then out\<lparr>loc_Folder := trim_space (loc_Folder l)\<rparr>
               else out\<lparr>loc_ImmichURL := trim_right_set (trim_space (loc_ImmichURL l)) ''/'',
                        loc_ImmichAPIKey := trim_space (loc_ImmichAPIKey l),
                        loc_ImmichAlbum := trim_space (loc_ImmichAlbum l)\<rparr>)
         else if t = ''html'' then out\<lparr>loc_HTML := loc_HTML l\<rparr>
         else if t = ''weather'' then
           out\<lparr>loc_Latitude := (if loc_Longitude l = None then None else loc_Latitude l),
               loc_Longitude := (if loc_Latitude l = None then None else loc_Longitude l),
               loc_Location := trim_space (loc_Location l),
               loc_Units := (if loc_Units l = ''imperial'' then ''imperial'' else ''metric'')\<rparr>
         else if t = ''countdown'' then
           out\<lparr>loc_Target := trim_space (loc_Target l), loc_DoneText := trim_space (loc_DoneText l),
               loc_CountUp := loc_CountUp l\<rparr>
         else if t = ''news'' then
           out\<lparr>loc_Feeds := cleanURLList (loc_Feeds l),
               loc_IntervalSeconds := (if loc_IntervalSeconds l \<le> 0 then 12 else loc_IntervalSeconds l)\<rparr>
         else if t = ''camera'' then out\<lparr>loc_Streams := cleanURLList (loc_Streams l)\<rparr>
         else out)"

definition normalize_local :: "config_env \<Rightarrow> AdminConfig \<Rightarrow> KioskPage \<Rightarrow> KioskPage" where
  \<comment> \<open>a round of \<^verbatim>\<open>normalizeLocalPages\<close>\<close>
  "normalize_local env admin p =
     (if \<not> IsLocalSource (pg_SourceType p) then p\<lparr>pg_Local := None\<rparr>
      else p\<lparr>pg_Local := Some (normalizeLocalPage (pg_SourceType p) (pg_Local p)),
             pg_URL := LocalPageURL env admin (pg_PageID p)\<rparr>)"

definition normalizeLocalPages :: "config_env \<Rightarrow> AdminConfig \<Rightarrow> KioskConfig \<Rightarrow> KioskConfig" where
  "normalizeLocalPages env admin k = k\<lparr>k_Pages := map (normalize_local env admin) (k_Pages k)\<rparr>"

subsection \<open>Schema migration\<close>

definition schedule_migration :: "KioskConfig \<Rightarrow> KioskConfig" where
  \<comment> \<open>the step to schema 3\<close>
  "schedule_migration k =
     (let sd = k_Scheduler k;
          sd' = (if k_TimeRules k = [] then sd
                 else sd\<lparr>sd_Enabled := True,
                         sd_Mode := (if sd_Mode sd = '''' \<or> sd_Mode sd = ''rotation''
                                     then (if k_Rotation k = [] then ''time'' else ''hybrid'') else sd_Mode sd)\<rparr>)
      in k\<lparr>k_Scheduler := sd',
           k_Pages := map (\<lambda>p. if pg_DisplayMode p = ''schedule''
             then p\<lparr>pg_DisplayOptions := (pg_DisplayOptions p)\<lparr>dsp_PowerOffAfter := True\<rparr>\<rparr> else p) (k_Pages k)\<rparr>)"

definition migrateSchema :: "Config \<Rightarrow> Config" where
  "migrateSchema c =
     (let c = (if c_Version c = 0 then c\<lparr>c_Version := 2\<rparr> else c);
          c = (if c_Version c < 3 then c\<lparr>c_Kiosk := schedule_migration (c_Kiosk c), c_Version := 3\<rparr> else c)
      in if c_Version c < 4
         then c\<lparr>c_MQTT := (c_MQTT c)\<lparr>mq_RejectUnauthorized := True\<rparr>, c_Version := currentConfigVersion\<rparr>
         else c)"

subsection \<open>Normalization\<close>

definition normalize_admin :: "config_env \<Rightarrow> AdminConfig \<Rightarrow> AdminConfig" where
  "normalize_admin env a =
     a\<lparr>adm_Bind := (if adm_Bind a \<in> {''127.0.0.1'', ''localhost'', ''''} then ''0.0.0.0'' else adm_Bind a),
       adm_Port := (if adm_Port a = 0 then 33333 else adm_Port a),
       adm_Token := (if adm_Token a = '''' then ce_token env else adm_Token a)\<rparr>"

definition initial_pages :: "KioskConfig \<Rightarrow> KioskConfig" where
  "initial_pages k =
     (let urls = (if k_URLs k = [] then [''https://demo.home-assistant.io''] else k_URLs k)
      in k\<lparr>k_URLs := urls,
           k_Pages := (if k_Pages k = []
             then map (\<lambda>(i, u). zero_page\<lparr>pg_Name := ''Kiosk '' @ itoa (int i + 1), pg_URL := u\<rparr>)
                    (zip [0..<length urls] urls)
             else k_Pages k)\<rparr>)"

definition normalize_pagelist :: "config_env \<Rightarrow> AdminConfig \<Rightarrow> KioskConfig \<Rightarrow> KioskConfig" where
  "normalize_pagelist env admin k =
     (let k = normalizeLocalPages env admin (normalizeKioskPages (migrateLegacySequence (initial_pages k)))
      in k\<lparr>k_URLs := PageURLs k\<rparr>)"

definition normalize_scheduler :: "KioskScheduler \<Rightarrow> KioskScheduler" where
  "normalize_scheduler s =
     s\<lparr>sd_Mode := (if sd_Mode s = '''' then ''rotation'' else sd_Mode s),
       sd_TickInterval := (if sd_TickInterval s = 0 then 15 * Second else sd_TickInterval s)\<rparr>"

definition normalize_kiosk :: "config_env \<Rightarrow> KioskConfig \<Rightarrow> KioskConfig" where
  \<comment> \<open>the other settings of the kiosk\<close>
  "normalize_kiosk env k =
     (let k = k\<lparr>k_BrowserPreset := (if k_BrowserPreset k = '''' then ''chromium'' else k_BrowserPreset k),
                k_UserDataDir := (if k_UserDataDir k = '''' \<or> staleProjectValue (k_UserDataDir k)
                                  then ce_browserDir env else k_UserDataDir k),
                k_Theme := NormalizeKioskTheme (if k_Theme k = '''' then ''dark'' else k_Theme k),
                k_ZoomPercent := (if k_ZoomPercent k = 0 then 125 else k_ZoomPercent k),
                k_Scheduler := normalize_scheduler (k_Scheduler k)\<rparr>
      in if k_Rotation k = [] \<and> PageURLs k \<noteq> [] \<and> sd_Mode (k_Scheduler k) \<noteq> ''time''
         then k\<lparr>k_Rotation := [\<lparr>rot_Page = 0, rot_DurationSeconds = 3600\<rparr>]\<rparr> else k)"

definition normalize_performance :: "config_env \<Rightarrow> PerfConfig \<Rightarrow> PerfConfig" where
  "normalize_performance env p =
     p\<lparr>pf_Profile := (if pf_Profile p = '''' \<or> \<not> supportedPerformanceProfile (pf_Profile p)
                      then defaultProfile env else pf_Profile p),
       pf_GPUMode := (if pf_GPUMode p = '''' then ''auto'' else pf_GPUMode p)\<rparr>"

definition normalize_watchdog :: "string \<Rightarrow> WatchdogConfig \<Rightarrow> WatchdogConfig" where
  "normalize_watchdog profile w =
     (let grace = (if wd_CPUGrace w = 0 then 10 * Minute else wd_CPUGrace w);
          grace = (if grace = 45 * Second \<or> grace = 120 * Second then 10 * Minute else grace);
          rss = (if wd_MaxRSSMB w = 0 then 900 else wd_MaxRSSMB w);
          rss = (if profile = ''raspberry'' \<and> rss = 700 then 1200 else rss);
          cpu = (if profile = ''raspberry'' \<and> wd_MaxCPUPercent w = 160 then 220 else wd_MaxCPUPercent w);
          cpu = (if cpu = 0 \<or> cpu = 180 \<or> cpu = 220 then 300 else cpu)
      in w\<lparr>wd_CheckInterval := (if wd_CheckInterval w = 0 then 10 * Second else wd_CheckInterval w),
           wd_CPUGrace := grace, wd_MaxRSSMB := rss, wd_MaxCPUPercent := cpu\<rparr>)"

definition maxMQTTPacket :: int where
  "maxMQTTPacket = 256 * 1048576"

definition normalize_mqtt :: "MQTTConfig \<Rightarrow> MQTTConfig" where
  "normalize_mqtt m =
     (let bytes = (if mq_MaxPacketBytes m \<le> 0 then 1048576 else mq_MaxPacketBytes m)
      in m\<lparr>mq_Discovery := (if mq_Discovery m = '''' then ''homeassistant'' else mq_Discovery m),
           mq_BaseTopic := (if mq_BaseTopic m = '''' then ''kioskmate'' else mq_BaseTopic m),
           mq_Version := (if mq_Version m = '''' \<or> \<not> supportedMQTTVersion (mq_Version m) then ''3.1.1'' else mq_Version m),
           mq_Node := (if mq_Node m = '''' then ''kioskmate'' else mq_Node m),
           mq_Interval := (if mq_Interval m = 0 then 30 * Second else mq_Interval m),
           mq_KeepAlive := (if mq_KeepAlive m = 0 then 60 * Second else mq_KeepAlive m),
           mq_MaxPacketBytes := (if maxMQTTPacket < bytes then maxMQTTPacket else bytes)\<rparr>)"

definition normalize_time :: "TimeConfig \<Rightarrow> TimeConfig" where
  "normalize_time t =
     t\<lparr>tm_NTPServer := trim_space (if trim_space (tm_NTPServer t) = '''' then ''pool.ntp.org'' else tm_NTPServer t),
       tm_Timezone := trim_space (tm_Timezone t)\<rparr>"

definition normalize_update :: "UpdateConfig \<Rightarrow> UpdateConfig" where
  "normalize_update u =
     u\<lparr>up_Repository := ''MickLesk/KioskMate'',
       up_Service := (if up_Service u = '''' \<or> staleProjectValue (up_Service u)
                      then ''kioskmate.service'' else up_Service u)\<rparr>"

definition normalize :: "config_env \<Rightarrow> Config \<Rightarrow> Config" where
  "normalize env c =
     (let c = migrateSchema (c\<lparr>c_MQTT := (c_MQTT c)\<lparr>mq_PasswordConfigured := False\<rparr>\<rparr>);
          c = c\<lparr>c_Admin := normalize_admin env (c_Admin c)\<rparr>;
          c = c\<lparr>c_Kiosk := normalize_kiosk env (normalize_pagelist env (c_Admin c) (c_Kiosk c))\<rparr>;
          c = c\<lparr>c_Performance := normalize_performance env (c_Performance c)\<rparr>
      in c\<lparr>c_Watchdog := normalize_watchdog (pf_Profile (c_Performance c)) (c_Watchdog c),
           c_MQTT := normalize_mqtt (c_MQTT c),
           c_Time := normalize_time (c_Time c),
           c_Update := normalize_update (c_Update c)\<rparr>)"

definition defaults :: "config_env \<Rightarrow> string \<Rightarrow> Config" where
  "defaults env path =
     \<lparr>c_Path = path, c_LoadWarning = '''', c_Version = currentConfigVersion,
      c_Admin = \<lparr>adm_Bind = ''0.0.0.0'', adm_Port = 33333, adm_Token = ce_token env,
        adm_PasswordHash = '''', adm_TLSCert = '''', adm_TLSKey = ''''\<rparr>,
      c_Kiosk = zero_kiosk
        \<lparr>k_URLs := [''https://demo.home-assistant.io''],
         k_Pages := [zero_page\<lparr>pg_Name := ''Home Assistant Demo'', pg_URL := ''https://demo.home-assistant.io''\<rparr>],
         k_BrowserPreset := ''chromium'', k_Theme := ''dark'', k_ZoomPercent := 125, k_Widget := True,
         k_Scheduler := \<lparr>sd_Enabled = False, sd_Mode = ''rotation'', sd_TickInterval = 15 * Second,
           sd_Latitude = 0, sd_Longitude = 0\<rparr>,
         k_Rotation := [\<lparr>rot_Page = 0, rot_DurationSeconds = 3600\<rparr>]\<rparr>,
      c_Performance = \<lparr>pf_Profile = defaultProfile env, pf_GPUMode = ''auto'', pf_ReduceMotion = True,
        pf_AuthMonitor = ''''\<rparr>,
      c_Watchdog = \<lparr>wd_RestartOnCPU = False, wd_Enabled = True, wd_CheckInterval = 10 * Second,
        wd_MaxRSSMB = 900, wd_MaxCPUPercent = 300, wd_CPUGrace = 10 * Minute, wd_RebootOnHang = False\<rparr>,
      c_MQTT = \<lparr>mq_Enabled = False, mq_URL = '''', mq_Version = '''', mq_Username = '''', mq_Password = '''',
        mq_PasswordConfigured = False, mq_Discovery = ''homeassistant'', mq_BaseTopic = ''kioskmate'',
        mq_Node = ''kioskmate'', mq_ClientID = '''', mq_KeepAlive = 60 * Second, mq_ForceDisableRetain = False,
        mq_CAFile = '''', mq_CertFile = '''', mq_KeyFile = '''', mq_ServerName = '''',
        mq_RejectUnauthorized = True, mq_MaxPacketBytes = 1048576, mq_Interval = 30 * Second\<rparr>,
      c_Time = \<lparr>tm_NTPServer = ''pool.ntp.org'', tm_Timezone = ''''\<rparr>,
      c_Update = \<lparr>up_Repository = ''MickLesk/KioskMate'', up_Prerelease = False, up_Service = ''kioskmate.service''\<rparr>,
      c_Revision = ''''\<rparr>"

subsection \<open>Validation\<close>

datatype page_error =
    UrlRequired | UrlScheme | PageDuration | PageBrightness | PageSchedule
  | SlideshowFolder | SlideshowInterval | HtmlNeeded | HtmlTooLong | WeatherIncomplete | WeatherRange
  | WeatherUnits | CountdownTarget | CountdownFormat | CountdownText | NewsFeed | NewsTooMany | NewsURL
  | NewsInterval | CameraStream | CameraTooMany | CameraURL | ImmichServer | ImmichKey | ImmichAlbum
  | ImmichInterval | TitleTooLong

datatype config_error =
    NewerSchema int | AdminPort | AdminBind | AdminTLS | Zoom | TickInterval | PageSwitch | DisplayBackend
  | MaxTabs | Rules "string \<times> rule_error" | Inserts "string \<times> rule_error" | Location
  | PresenceMode | PresenceTimeoutRange | PresenceTopic | ReloadEvery | ReloadTime | ReloadCycles
  | Page nat page_error | TimeSettings | Repository | ServiceUnit | MqttURL | MqttTLS | MqttPacketSize

definition validWebURL :: "config_env \<Rightarrow> string \<Rightarrow> bool" where
  "validWebURL env raw =
     (case ce_url env (trim_space raw) of
        None \<Rightarrow> False
      | Some u \<Rightarrow> wu_Scheme u \<in> {''http'', ''https''} \<and> wu_Host u \<noteq> '''')"

definition immichAlbumPattern :: "string \<Rightarrow> bool" where
  "immichAlbumPattern s \<longleftrightarrow>
     8 \<le> length s \<and> length s \<le> 64 \<and> list_all (\<lambda>c. c \<in> set (digits @ ''ABCDEFabcdef-'')) s"

definition interval_error :: "int \<Rightarrow> int \<Rightarrow> int \<Rightarrow> bool" where
  \<comment> \<open>an interval that is set and outside its range\<close>
  "interval_error v low high \<longleftrightarrow> v \<noteq> 0 \<and> (v < low \<or> high < v)"

definition local_type_error :: "config_env \<Rightarrow> KioskPage \<Rightarrow> LocalPage \<Rightarrow> page_error option" where
  \<comment> \<open>the cases of \<^verbatim>\<open>validateLocalPage\<close>\<close>
  "local_type_error env page l =
     (let t = pg_SourceType page; enabled = \<not> pg_Disabled page in
      if t = ''slideshow'' then
        (let folder = trim_space (loc_Folder l) in
         if folder = '''' \<or> \<not> has_prefix folder ''/'' then Some SlideshowFolder
         else if interval_error (loc_IntervalSeconds l) 2 86400 then Some SlideshowInterval else None)
      else if t = ''html'' then
        (if trim_space (loc_HTML l) = '''' \<and> enabled then Some HtmlNeeded
         else if 262144 < length (loc_HTML l) then Some HtmlTooLong else None)
      else if t = ''weather'' then
        (if (loc_Latitude l = None) \<noteq> (loc_Longitude l = None) then Some WeatherIncomplete
         else if (case (loc_Latitude l, loc_Longitude l) of
                    (Some lat, Some lon) \<Rightarrow> lat < - 90 \<or> 90 < lat \<or> lon < - 180 \<or> 180 < lon
                  | _ \<Rightarrow> False) then Some WeatherRange
         else if loc_Units l \<notin> {'''', ''metric'', ''imperial''} then Some WeatherUnits else None)
      else if t = ''countdown'' then
        (let target = trim_space (loc_Target l) in
         if target = '''' \<and> enabled then Some CountdownTarget
         else if target \<noteq> '''' \<and> \<not> ce_date env target then Some CountdownFormat
         else if 200 < length (loc_DoneText l) then Some CountdownText else None)
      else if t = ''news'' then
        (let feeds = cleanURLList (loc_Feeds l) in
         if feeds = [] \<and> enabled then Some NewsFeed
         else if 5 < length feeds then Some NewsTooMany
         else if \<not> list_all (validWebURL env) feeds then Some NewsURL
         else if interval_error (loc_IntervalSeconds l) 4 600 then Some NewsInterval else None)
      else if t = ''camera'' then
        (let streams = cleanURLList (loc_Streams l) in
         if streams = [] \<and> enabled then Some CameraStream
         else if 4 < length streams then Some CameraTooMany
         else if \<not> list_all (validWebURL env) streams then Some CameraURL else None)
      else if t = ''immich'' then
        (let album = trim_space (loc_ImmichAlbum l) in
         if \<not> validWebURL env (loc_ImmichURL l) \<and> enabled then Some ImmichServer
         else if trim_space (loc_ImmichAPIKey l) = '''' \<and> enabled then Some ImmichKey
         else if album \<noteq> '''' \<and> \<not> immichAlbumPattern album then Some ImmichAlbum
         else if interval_error (loc_IntervalSeconds l) 2 86400 then Some ImmichInterval else None)
      else None)"

definition validateLocalPage :: "config_env \<Rightarrow> KioskPage \<Rightarrow> page_error option" where
  "validateLocalPage env page =
     (let l = (case pg_Local page of None \<Rightarrow> zero_local | Some l \<Rightarrow> l) in
      case local_type_error env page l of
        Some e \<Rightarrow> Some e
      | None \<Rightarrow> if 200 < length (trim_space (loc_Title l)) then Some TitleTooLong else None)"

definition page_url_error :: "config_env \<Rightarrow> KioskPage \<Rightarrow> page_error option" where
  "page_url_error env page =
     (case ce_url env (trim_space (pg_URL page)) of
        None \<Rightarrow> Some UrlScheme
      | Some u \<Rightarrow> if wu_Scheme u \<notin> {''http'', ''https''} \<or> wu_Hostname u = '''' then Some UrlScheme else None)"

definition page_settings_error :: "KioskPage \<Rightarrow> page_error option" where
  "page_settings_error page =
     (if pg_DurationSeconds page < 0 \<or> 7 * 24 * 60 * 60 < pg_DurationSeconds page then Some PageDuration
      else if (case dsp_Brightness (pg_DisplayOptions page) of None \<Rightarrow> False | Some b \<Rightarrow> b < 1 \<or> 100 < b)
      then Some PageBrightness
      else if pg_DisplayMode page = ''schedule'' \<and>
        (\<not> validScheduleClock (sch_Start (pg_Schedule page)) \<or> \<not> validScheduleClock (sch_End (pg_Schedule page)))
      then Some PageSchedule else None)"

definition validate_page :: "config_env \<Rightarrow> KioskPage \<Rightarrow> page_error option" where
  \<comment> \<open>a round of the loop over the pages; a disabled page without an address is skipped\<close>
  "validate_page env page =
     (if IsLocalSource (pg_SourceType page) then
        (case validateLocalPage env page of Some e \<Rightarrow> Some e | None \<Rightarrow> page_settings_error page)
      else if trim_space (pg_URL page) = '''' then (if pg_Disabled page then None else Some UrlRequired)
      else (case page_url_error env page of Some e \<Rightarrow> Some e | None \<Rightarrow> page_settings_error page))"

definition validate_presence :: "PresenceConfig \<Rightarrow> config_error option" where
  "validate_presence p =
     (if \<not> ps_Enabled p then None
      else if ps_Mode p \<notin> {'''', ''wake'', ''require''} then Some PresenceMode
      else if ps_TimeoutMinutes p < 0 \<or> 24 * 60 < ps_TimeoutMinutes p then Some PresenceTimeoutRange
      else if contains_any (ps_Topic p) [CHR ''#'', CHR ''+'', CHR 0x00] then Some PresenceTopic
      else None)"

definition validate_maintenance :: "KioskMaintenance \<Rightarrow> config_error option" where
  "validate_maintenance m =
     (if interval_error (mt_ReloadEveryMinutes m) 10 (7 * 24 * 60) then Some ReloadEvery
      else if trim_space (mt_ReloadAt m) \<noteq> '''' \<and> \<not> validClock (trim_space (mt_ReloadAt m)) then Some ReloadTime
      else if mt_ReloadAfterCycles m < 0 \<or> 10000 < mt_ReloadAfterCycles m then Some ReloadCycles
      else None)"

definition validate_update :: "UpdateConfig \<Rightarrow> config_error option" where
  "validate_update u =
     (let repository = trim_space (up_Repository u); parts = split_at CHR ''/'' repository in
      if repository \<noteq> '''' \<and>
        (length parts \<noteq> 2 \<or> trim_space (parts ! 0) = '''' \<or> trim_space (parts ! 1) = '''' \<or>
         contains_any repository [CHR '' '', CHR 0x09, CHR 0x0D, CHR 0x0A])
      then Some Repository
      else if contains_any (up_Service u) [CHR ''/'', CHR 0x5C, CHR 0x0D, CHR 0x0A, CHR 0x00] then Some ServiceUnit
      else None)"

definition validate_mqtt :: "config_env \<Rightarrow> MQTTConfig \<Rightarrow> config_error option" where
  "validate_mqtt env m =
     (if \<not> mq_Enabled m then None
      else case ce_url env (trim_space (mq_URL m)) of
        None \<Rightarrow> Some MqttURL
      | Some u \<Rightarrow>
          if wu_Scheme u \<notin> {''mqtt'', ''mqtts''} \<or> wu_Hostname u = '''' then Some MqttURL
          else if (trim_space (mq_CertFile m) = '''') \<noteq> (trim_space (mq_KeyFile m) = '''') then Some MqttTLS
          else if mq_MaxPacketBytes m < 1024 \<or> maxMQTTPacket < mq_MaxPacketBytes m then Some MqttPacketSize
          else None)"

definition validate_admin :: "AdminConfig \<Rightarrow> config_error option" where
  "validate_admin a =
     (if adm_Port a < 0 \<or> 65535 < adm_Port a then Some AdminPort
      else if contains_any (adm_Bind a) [CHR 0x0D, CHR 0x0A, CHR 0x00] then Some AdminBind
      else if (trim_space (adm_TLSCert a) = '''') \<noteq> (trim_space (adm_TLSKey a) = '''') then Some AdminTLS
      else None)"

definition validate_kiosk :: "KioskConfig \<Rightarrow> config_error option" where
  \<comment> \<open>the scalar settings, up to the number of tabs\<close>
  "validate_kiosk k =
     (if interval_error (k_ZoomPercent k) 25 500 then Some Zoom
      else if sd_TickInterval (k_Scheduler k) < 0 \<or> 24 * Hour < sd_TickInterval (k_Scheduler k) then Some TickInterval
      else if k_PageSwitch k \<notin> {'''', ''navigate'', ''tabs''} then Some PageSwitch
      else if k_DisplayBackend k \<notin> {'''', ''auto'', ''wayland'', ''x11''} then Some DisplayBackend
      else if k_MaxTabs k < 0 \<or> 8 < k_MaxTabs k then Some MaxTabs
      else None)"

definition validate_location :: "KioskScheduler \<Rightarrow> config_error option" where
  "validate_location s =
     (if sd_Latitude s < - 90 \<or> 90 < sd_Latitude s \<or> sd_Longitude s < - 180 \<or> 180 < sd_Longitude s
      then Some Location else None)"

definition Validate :: "config_env \<Rightarrow> Config \<Rightarrow> config_error option" where
  "Validate env c =
     (let k = c_Kiosk c in
      first_error (\<lambda>r. r)
        [if currentConfigVersion < c_Version c then Some (NewerSchema (c_Version c)) else None,
         validate_admin (c_Admin c), validate_kiosk k,
         map_option Rules (validateRules k), map_option Inserts (validateInserts k),
         validate_location (k_Scheduler k), validate_presence (k_Presence k),
         validate_maintenance (k_Maintenance k),
         first_error (\<lambda>(i, p). map_option (Page i) (validate_page env p)) (zip [0..<length (k_Pages k)] (k_Pages k)),
         if contains_any (tm_Timezone (c_Time c) @ tm_NTPServer (c_Time c)) [CHR 0x0D, CHR 0x0A, CHR 0x00]
         then Some TimeSettings else None,
         validate_update (c_Update c), validate_mqtt env (c_MQTT c)])"

subsection \<open>Repair\<close>

type_synonym repair_issue = "string \<times> string \<times> bool" \<comment> \<open>identifier, message, fixed\<close>

definition repair_if :: "(Config \<Rightarrow> bool) \<Rightarrow> string \<Rightarrow> string \<Rightarrow> (Config \<Rightarrow> Config) \<Rightarrow> Config \<times> repair_issue list \<Rightarrow> Config \<times> repair_issue list" where
  \<comment> \<open>one \<^verbatim>\<open>if\<close> of \<^verbatim>\<open>Repair\<close>: repair and report\<close>
  "repair_if broken i message fix_it r = (if broken (fst r) then (fix_it (fst r), snd r @ [(i, message, True)]) else r)"

definition set_update :: "(UpdateConfig \<Rightarrow> UpdateConfig) \<Rightarrow> Config \<Rightarrow> Config" where
  "set_update f c = c\<lparr>c_Update := f (c_Update c)\<rparr>"
definition set_admin :: "(AdminConfig \<Rightarrow> AdminConfig) \<Rightarrow> Config \<Rightarrow> Config" where
  "set_admin f c = c\<lparr>c_Admin := f (c_Admin c)\<rparr>"
definition set_mqtt :: "(MQTTConfig \<Rightarrow> MQTTConfig) \<Rightarrow> Config \<Rightarrow> Config" where
  "set_mqtt f c = c\<lparr>c_MQTT := f (c_MQTT c)\<rparr>"
definition set_kiosk :: "(KioskConfig \<Rightarrow> KioskConfig) \<Rightarrow> Config \<Rightarrow> Config" where
  "set_kiosk f c = c\<lparr>c_Kiosk := f (c_Kiosk c)\<rparr>"

lemmas config_parts = set_update_def set_admin_def set_mqtt_def set_kiosk_def

definition default_pages :: "KioskConfig \<Rightarrow> KioskConfig" where
  "default_pages k =
     (let k = k\<lparr>k_Pages := [zero_page\<lparr>pg_Name := ''Home Assistant Demo'', pg_URL := ''https://demo.home-assistant.io''\<rparr>]\<rparr>
      in k\<lparr>k_URLs := PageURLs k\<rparr>)"

definition stale_or_empty :: "string \<Rightarrow> bool" where
  "stale_or_empty v \<longleftrightarrow> v = '''' \<or> staleProjectValue v"

definition Repair :: "config_env \<Rightarrow> Config \<Rightarrow> Config \<times> repair_issue list" where
  \<comment> \<open>the repaired configuration and the issues of the report, whose \<^verbatim>\<open>Changed\<close> holds when one is fixed\<close>
  "Repair env c =
     (let r = (c, []);
          r = repair_if (\<lambda>c. up_Repository (c_Update c) \<noteq> ''MickLesk/KioskMate'')
                ''update_repository'' ''Update repository reset to MickLesk/KioskMate.''
                (set_update (up_Repository_update (\<lambda>_. ''MickLesk/KioskMate''))) r;
          r = repair_if (\<lambda>c. up_Service (c_Update c) \<noteq> ''kioskmate.service'')
                ''update_service'' ''Systemd user service reset to kioskmate.service.''
                (set_update (up_Service_update (\<lambda>_. ''kioskmate.service''))) r;
          r = repair_if (\<lambda>c. adm_Bind (c_Admin c) \<in> {''127.0.0.1'', ''localhost'', ''''})
                ''admin_bind'' ''Admin bind address reset to 0.0.0.0 for LAN access.''
                (set_admin (adm_Bind_update (\<lambda>_. ''0.0.0.0''))) r;
          r = repair_if (\<lambda>c. adm_Port (c_Admin c) = 0)
                ''admin_port'' ''Admin port reset to 33333.'' (set_admin (adm_Port_update (\<lambda>_. 33333))) r;
          r = repair_if (\<lambda>c. stale_or_empty (mq_Node (c_MQTT c)))
                ''mqtt_node'' ''MQTT node reset to kioskmate.'' (set_mqtt (mq_Node_update (\<lambda>_. ''kioskmate''))) r;
          r = repair_if (\<lambda>c. stale_or_empty (mq_BaseTopic (c_MQTT c)))
                ''mqtt_base_topic'' ''MQTT base topic reset to kioskmate.''
                (set_mqtt (mq_BaseTopic_update (\<lambda>_. ''kioskmate''))) r;
          r = repair_if (\<lambda>c. \<not> supportedMQTTVersion (mq_Version (c_MQTT c)))
                ''mqtt_version'' ''MQTT protocol reset to 3.1.1 because the configured version is unsupported.''
                (set_mqtt (mq_Version_update (\<lambda>_. ''3.1.1''))) r;
          r = repair_if (\<lambda>c. stale_or_empty (k_UserDataDir (c_Kiosk c)))
                ''browser_profile'' ''Browser profile path reset to KioskMate config directory.''
                (set_kiosk (k_UserDataDir_update (\<lambda>_. ce_browserDir env))) r;
          r = repair_if (\<lambda>c. PageURLs (c_Kiosk c) = [])
                ''kiosk_pages'' ''Added a default kiosk page because no active URL was configured.''
                (set_kiosk default_pages) r
      in (normalize env (fst r),
          if snd r = [] then [(''ok'', ''No repairable issues found.'', False)] else snd r))"

definition ApplyRaspberrySafeMode :: "config_env \<Rightarrow> Config \<Rightarrow> Config" where
  "ApplyRaspberrySafeMode env c =
     normalize env
       (c\<lparr>c_Performance := (c_Performance c)\<lparr>pf_Profile := ''low-power'', pf_GPUMode := ''auto'', pf_ReduceMotion := True\<rparr>,
          c_Watchdog := (c_Watchdog c)\<lparr>wd_Enabled := True, wd_CheckInterval := 10 * Second,
            wd_CPUGrace := 10 * Minute, wd_MaxRSSMB := 1200, wd_MaxCPUPercent := 300\<rparr>,
          c_Kiosk := (c_Kiosk c)\<lparr>k_BrowserPreset := ''chromium-lite'',
            k_ExtraArgs := appendUnique (k_ExtraArgs (c_Kiosk c))
              [''--disable-extensions'', ''--disable-sync'', ''--metrics-recording-only'']\<rparr>\<rparr>)"

subsection \<open>Normalization is idempotent\<close>

named_theorems normalized "what normalization leaves alone once it is done"

lemma normalize_admin_idem [normalized]:
  "ce_token env \<noteq> '''' \<Longrightarrow> normalize_admin env (normalize_admin env a) = normalize_admin env a"
  by (simp add: normalize_admin_def)

lemma NormalizeKioskTheme_range: "NormalizeKioskTheme t \<in> {''light'', ''dark'', ''force-dark''}"
  by (simp add: NormalizeKioskTheme_def Let_def)

lemma NormalizeKioskTheme_idem [normalized]: "NormalizeKioskTheme (NormalizeKioskTheme t) = NormalizeKioskTheme t"
proof -
  have "trim_space (to_lower ''light'') = ''light''" "trim_space (to_lower ''dark'') = ''dark''"
    "trim_space (to_lower ''force-dark'') = ''force-dark''" by code_simp+
  then have "NormalizeKioskTheme s = s" if "s \<in> {''light'', ''dark'', ''force-dark''}" for s
    using that by (auto simp: NormalizeKioskTheme_def)
  then show ?thesis using NormalizeKioskTheme_range by blast
qed

lemma NormalizeKioskTheme_nonempty [simp]: "NormalizeKioskTheme t \<noteq> ''''"
  using NormalizeKioskTheme_range [of t] by auto

lemma defaultProfile_supported [simp]: "supportedPerformanceProfile (defaultProfile env)" "defaultProfile env \<noteq> ''''"
proof -
  have "supportedPerformanceProfile ''low-power''" "supportedPerformanceProfile ''balanced''" by code_simp+
  then show "supportedPerformanceProfile (defaultProfile env)" "defaultProfile env \<noteq> ''''"
    by (simp_all add: defaultProfile_def)
qed

lemma normalize_performance_idem [normalized]:
  "normalize_performance env (normalize_performance env p) = normalize_performance env p"
  by (simp add: normalize_performance_def)

lemma normalize_watchdog_idem [normalized]:
  "normalize_watchdog profile (normalize_watchdog profile w) = normalize_watchdog profile w"
  by (simp add: normalize_watchdog_def Let_def duration_units)

lemma supported_mqtt_default [simp]: "supportedMQTTVersion ''3.1.1''"
  by code_simp

lemma normalize_mqtt_idem [normalized]: "normalize_mqtt (normalize_mqtt m) = normalize_mqtt m"
  by (simp add: normalize_mqtt_def Let_def duration_units maxMQTTPacket_def)

lemma ntp_default [simp]: "trim_space ''pool.ntp.org'' = ''pool.ntp.org''"
  by code_simp

lemma normalize_time_idem [normalized]: "normalize_time (normalize_time t) = normalize_time t"
  by (simp add: normalize_time_def)

lemma service_default [simp]: "\<not> staleProjectValue ''kioskmate.service''"
  by code_simp

lemma normalize_update_idem [normalized]: "normalize_update (normalize_update u) = normalize_update u"
  by (simp add: normalize_update_def)

lemma normalize_scheduler_idem [normalized]: "normalize_scheduler (normalize_scheduler s) = normalize_scheduler s"
  by (simp add: normalize_scheduler_def duration_units)

lemma trim_right_set_idem [simp]: "trim_right_set (trim_right_set s cs) cs = trim_right_set s cs"
  by (simp add: trim_right_set_def)

lemma cleanURLList_idem [simp]: "cleanURLList (cleanURLList us) = cleanURLList us"
  by (induction us) (simp_all add: cleanURLList_def)

definition immich_trimmed :: "KioskPage \<Rightarrow> bool" where
  "immich_trimmed p \<longleftrightarrow>
     (case pg_Local p of None \<Rightarrow> True | Some l \<Rightarrow> trim_space (loc_ImmichURL l) = loc_ImmichURL l)"

lemma normalizeLocalPage_idem:
  assumes "trim_space (loc_ImmichURL (normalizeLocalPage t l)) = loc_ImmichURL (normalizeLocalPage t l)"
  shows "normalizeLocalPage t (Some (normalizeLocalPage t l)) = normalizeLocalPage t l"
proof -
  define m where "m = (case l of None \<Rightarrow> zero_local | Some l \<Rightarrow> l)"
  have m: "normalizeLocalPage t l = normalizeLocalPage t (Some m)"
    by (simp add: normalizeLocalPage_def m_def)
  consider "t = ''clock''" | "t = ''slideshow''" | "t = ''immich''" | "t = ''html''" | "t = ''weather''"
    | "t = ''countdown''" | "t = ''news''" | "t = ''camera''"
    | "t \<notin> {''clock'', ''slideshow'', ''immich'', ''html'', ''weather'', ''countdown'', ''news'', ''camera''}"
    by auto
  then show ?thesis
    using assms unfolding m by cases (simp_all add: normalizeLocalPage_def zero_local_def Let_def)
qed

lemma normalize_local_idem:
  "immich_trimmed (normalize_local env a p) \<Longrightarrow>
   normalize_local env a (normalize_local env a p) = normalize_local env a p"
  by (cases "IsLocalSource (pg_SourceType p)")
     (simp_all add: normalize_local_def immich_trimmed_def normalizeLocalPage_idem)

lemma normalize_local_complete [simp]: "page_complete (normalize_local env a p) \<longleftrightarrow> page_complete p"
  by (simp add: normalize_local_def page_complete_def)

lemma normalize_local_id [simp]: "pg_PageID (normalize_local env a p) = pg_PageID p"
  by (simp add: normalize_local_def)

lemma initial_pages_nonempty [simp]: "k_Pages (initial_pages k) \<noteq> []" "k_URLs (initial_pages k) \<noteq> []"
  by (auto simp: initial_pages_def Let_def)

lemma initial_pages_id: "k_Pages k \<noteq> [] \<Longrightarrow> k_URLs k \<noteq> [] \<Longrightarrow> initial_pages k = k"
  by (simp add: initial_pages_def)

lemma PageURLs_cong: "k_Pages k = k_Pages k' \<Longrightarrow> k_URLs k = k_URLs k' \<Longrightarrow> PageURLs k = PageURLs k'"
  by (simp add: PageURLs_def)

lemma PageURLs_PageURLs: "PageURLs (k\<lparr>k_URLs := PageURLs k\<rparr>) = PageURLs k"
proof -
  have "filter (\<lambda>u. u \<noteq> '''') (map trim_space us) = us"
    if "us = filter (\<lambda>u. u \<noteq> '''') (map trim_space vs)" for us vs
    unfolding that by (induction vs) simp_all
  then show ?thesis by (simp add: PageURLs_def)
qed

definition pages_settled :: "KioskConfig \<Rightarrow> bool" where
  \<comment> \<open>an address is left, and the address of an Immich server does not end in white space\<close>
  "pages_settled k \<longleftrightarrow> k_URLs k \<noteq> [] \<and> list_all immich_trimmed (k_Pages k)"

lemma normalize_pagelist_pages:
  "k_Pages (normalize_pagelist env a k) =
     map (normalize_local env a) (k_Pages (normalizeKioskPages (migrateLegacySequence (initial_pages k))))"
  by (simp add: normalize_pagelist_def normalizeLocalPages_def Let_def)

lemma normalize_pagelist_pages_ok:
  "list_all page_complete (k_Pages (normalize_pagelist env a k))"
  "distinct (map pg_PageID (k_Pages (normalize_pagelist env a k)))"
proof -
  let ?k = "migrateLegacySequence (initial_pages k)"
  show "list_all page_complete (k_Pages (normalize_pagelist env a k))"
    using normalize_pages_complete [of ?k 0 "[]" "k_Pages ?k"]
    by (simp add: normalize_pagelist_pages normalizeKioskPages_def list.pred_map comp_def)
  show "distinct (map pg_PageID (k_Pages (normalize_pagelist env a k)))"
    using normalize_pages_ids [of ?k 0 "[]" "k_Pages ?k"]
    by (simp add: normalize_pagelist_pages normalizeKioskPages_def comp_def)
qed

lemma migrate_nonempty: "k_Pages k \<noteq> [] \<Longrightarrow> k_Pages (migrateLegacySequence k) \<noteq> []"
proof (cases "rotation_legacy k")
  case True
  then have rotation: "k_Rotation k \<noteq> []" by (simp add: rotation_legacy_def Let_def)
  have "enabledPages (migrateLegacySequence k) \<noteq> []"
    by (rule migrate_parts [OF True]) (simp only: rotation list.map_disc_iff append_is_Nil_conv simp_thms not_False_eq_True)
  then show ?thesis by (auto simp: enabledPages_def)
qed (simp add: migrateLegacySequence_def)

lemma normalize_pagelist_nonempty: "k_Pages (normalize_pagelist env a k) \<noteq> []"
proof -
  have "k_Pages (migrateLegacySequence (initial_pages k)) \<noteq> []"
    by (rule migrate_nonempty) simp
  then have "length (k_Pages (normalizeKioskPages (migrateLegacySequence (initial_pages k)))) \<noteq> 0"
    by (simp add: normalizeKioskPages_def)
  then show ?thesis by (simp add: normalize_pagelist_pages)
qed

lemma normalize_pagelist_idem:
  assumes pages: "k_Pages k' = k_Pages (normalize_pagelist env a k)"
    and urls: "k_URLs k' = k_URLs (normalize_pagelist env a k)"
    and settled: "pages_settled (normalize_pagelist env a k)"
  shows "normalize_pagelist env a k' = k'"
proof -
  let ?k = "normalize_pagelist env a k"
  have nonempty: "k_Pages k' \<noteq> []" "k_URLs k' \<noteq> []"
    using pages urls settled normalize_pagelist_nonempty by (simp_all add: pages_settled_def)
  have ids: "list_all page_complete (k_Pages k')" "distinct (map pg_PageID (k_Pages k'))"
    using pages normalize_pagelist_pages_ok by simp_all
  then have "list_ex (\<lambda>p. pg_PageID p \<noteq> '''') (k_Pages k')"
    using nonempty by (cases "k_Pages k'") (auto simp: page_complete_def)
  then have "migrateLegacySequence (initial_pages k') = k'"
    using nonempty by (simp add: initial_pages_id migrateLegacySequence_unchanged)
  moreover have "normalizeKioskPages k' = k'"
    using ids by (simp add: normalizeKioskPages_def normalize_pages_unchanged)
  moreover have "normalizeLocalPages env a k' = k'"
  proof -
    have "map (normalize_local env a) (k_Pages k') = k_Pages k'"
      using settled unfolding pages pages_settled_def normalize_pagelist_pages
      by (auto simp: list_all_iff normalize_local_idem)
    then show ?thesis by (simp add: normalizeLocalPages_def)
  qed
  moreover have "PageURLs k' = k_URLs k'"
  proof -
    have "k_URLs ?k = PageURLs ?k"
      by (simp add: normalize_pagelist_def Let_def PageURLs_PageURLs)
    then show ?thesis using PageURLs_cong [OF pages urls] urls by simp
  qed
  ultimately show ?thesis by (simp add: normalize_pagelist_def)
qed

lemma normalize_kiosk_pages [simp]: "k_Pages (normalize_kiosk env k) = k_Pages k" "k_URLs (normalize_kiosk env k) = k_URLs k"
  by (simp_all add: normalize_kiosk_def Let_def)

lemma normalize_kiosk_idem [normalized]: "normalize_kiosk env (normalize_kiosk env k) = normalize_kiosk env k"
proof -
  have [simp]: "PageURLs (k\<lparr>k_Rotation := r\<rparr>) = PageURLs k"
    "PageURLs (k\<lparr>k_BrowserPreset := a, k_UserDataDir := d, k_Theme := e, k_ZoomPercent := z, k_Scheduler := s\<rparr>) = PageURLs k"
    "PageURLs (k\<lparr>k_BrowserPreset := a, k_UserDataDir := d, k_Theme := e, k_ZoomPercent := z, k_Scheduler := s,
       k_Rotation := r\<rparr>) = PageURLs k"
    for k r a d e z s by (simp_all add: PageURLs_def)
  show ?thesis
    by (simp add: normalize_kiosk_def Let_def normalized)
qed

lemma migrateSchema_current: "4 \<le> c_Version c \<Longrightarrow> migrateSchema c = c"
  by (simp add: migrateSchema_def Let_def)

lemma migrateSchema_version: "c_Version (migrateSchema c) = max 4 (c_Version c)"
  by (simp add: migrateSchema_def Let_def currentConfigVersion_def)

lemma migrateSchema_password: "mq_PasswordConfigured (c_MQTT (migrateSchema c)) = mq_PasswordConfigured (c_MQTT c)"
  by (simp add: migrateSchema_def Let_def)

lemma normalize_parts:
  "c_Version (normalize env c) = max 4 (c_Version c)"
  "\<not> mq_PasswordConfigured (c_MQTT (normalize env c))"
  "c_Path (normalize env c) = c_Path c"
  by (simp_all add: normalize_def Let_def migrateSchema_version migrateSchema_password normalize_mqtt_def)
     (simp add: migrateSchema_def Let_def)

text \<open>C13: Normalizing a second time changes nothing, unless no address is left or the address of an
  Immich server ends in white space after its slashes are removed: every save and every start writes
  the same configuration.\<close>

theorem normalize_idempotent:
  assumes "ce_token env \<noteq> ''''" "pages_settled (c_Kiosk (normalize env c))"
  shows "normalize env (normalize env c) = normalize env c"
proof -
  let ?n = "normalize env c"
  define c0 where "c0 = migrateSchema (c\<lparr>c_MQTT := (c_MQTT c)\<lparr>mq_PasswordConfigured := False\<rparr>\<rparr>)"
  define a where "a = normalize_admin env (c_Admin c0)"
  define k where "k = normalize_pagelist env a (c_Kiosk c0)"
  have admin: "c_Admin ?n = a" by (simp add: normalize_def Let_def a_def c0_def)
  have kiosk: "c_Kiosk ?n = normalize_kiosk env k" by (simp add: normalize_def Let_def a_def c0_def k_def)
  have perf: "c_Performance ?n = normalize_performance env (c_Performance c0)"
    by (simp add: normalize_def Let_def c0_def)
  have wd: "c_Watchdog ?n = normalize_watchdog (pf_Profile (c_Performance ?n)) (c_Watchdog c0)"
    by (simp add: normalize_def Let_def c0_def)
  have rest: "c_MQTT ?n = normalize_mqtt (c_MQTT c0)" "c_Time ?n = normalize_time (c_Time c0)"
    "c_Update ?n = normalize_update (c_Update c0)"
    by (simp_all add: normalize_def Let_def c0_def)
  have schema: "migrateSchema (?n\<lparr>c_MQTT := (c_MQTT ?n)\<lparr>mq_PasswordConfigured := False\<rparr>\<rparr>) = ?n"
    using normalize_parts by (simp add: migrateSchema_current)
  have "pages_settled k" using assms(2) by (simp add: kiosk pages_settled_def)
  then have list: "normalize_pagelist env a (normalize_kiosk env k) = normalize_kiosk env k"
    unfolding k_def by (intro normalize_pagelist_idem) simp_all
  have "normalize_admin env a = a" using assms(1) by (simp add: a_def normalized)
  moreover have "normalize_performance env (c_Performance ?n) = c_Performance ?n"
    by (simp add: perf normalized)
  moreover have "normalize_watchdog (pf_Profile (c_Performance ?n)) (c_Watchdog ?n) = c_Watchdog ?n"
    by (simp add: wd normalized)
  ultimately show ?thesis
    using list unfolding normalize_def [of env ?n] Let_def schema
    by (simp add: admin kiosk rest normalized)
qed

definition demo_env :: config_env where
  "demo_env = \<lparr>ce_url = (\<lambda>s. if has_prefix s ''https://'' then Some \<lparr>wu_Scheme = ''https'', wu_Host = drop 8 s, wu_Hostname = drop 8 s\<rparr> else None),
     ce_unspecified = (\<lambda>s. s = ''0.0.0.0''), ce_date = (\<lambda>s. True), ce_token = ''token'', ce_path = ''/etc/kioskmate.json'',
     ce_browserDir = ''/var/browser'', ce_arm64 = False\<rparr>"

lemma normalize_idempotent_witness:
  "normalize demo_env (normalize demo_env (defaults demo_env ''/etc/kioskmate.json'')) =
   normalize demo_env (defaults demo_env ''/etc/kioskmate.json'')"
proof (rule normalize_idempotent)
  show "ce_token demo_env \<noteq> ''''" by (simp add: demo_env_def)
  show "pages_settled (c_Kiosk (normalize demo_env (defaults demo_env ''/etc/kioskmate.json'')))"
    by code_simp
qed

end
