(* ===== verification/Config_Store.thy ===== *)
theory Config_Store
  imports Config_Normalize "HOL-Library.AList" "HOL-Library.List_Lexorder" "HOL-Library.Char_ord"
begin

section \<open>The stored configuration\<close>

text \<open>
  Reading and writing the configuration: \<^verbatim>\<open>Load\<close>, \<^verbatim>\<open>Save\<close>, \<^verbatim>\<open>Mutate\<close>, \<^verbatim>\<open>Replace\<close>, the backups and the
  atomic write of \<^verbatim>\<open>internal/config/config.go\<close>. The disk is a list of files; every operation on it
  asks the record \<open>disk_env\<close> whether it works, fails, or (a write) leaves a part of the data behind.
  A crash is the case in which every later operation fails, since the code does nothing else to the
  disk then. Directories, permissions and the loss of a rename after power failure are not modelled.
  How a configuration is encoded as JSON is a parameter, as is the clock of the backup names.
\<close>

subsection \<open>The disk\<close>

datatype fault = Works | Fails | Torn nat

record disk =
  dk_files :: "(string \<times> string) list"
  dk_ops :: nat \<comment> \<open>the number of operations so far\<close>

record disk_env =
  de_fault :: "nat \<Rightarrow> fault"
  de_temp :: "nat \<Rightarrow> string" \<comment> \<open>the name \<^verbatim>\<open>os.CreateTemp\<close> gives its file\<close>
  de_stamp :: "nat \<Rightarrow> string" \<comment> \<open>the time in the name of a backup\<close>
  de_seconds :: "nat \<Rightarrow> string" \<comment> \<open>the time in the name of a corrupt file\<close>

datatype store_error =
    Disk_error | Invalid config_error | Encoding | Refused string
  | Undecodable | Backup_missing | Backup_undecodable | Not_preserved | Not_restored | No_replacement

type_synonym disk_action = "disk \<Rightarrow> store_error option \<times> disk"

definition contents :: "string \<Rightarrow> disk \<Rightarrow> string option" where
  "contents path d = map_of (dk_files d) path"

definition disk_op :: "disk_env \<Rightarrow> (disk \<Rightarrow> disk) \<Rightarrow> (nat \<Rightarrow> disk \<Rightarrow> disk) \<Rightarrow> disk_action" where
  \<comment> \<open>an operation on the disk: its effect, and its effect when it is torn\<close>
  "disk_op env works torn d =
     (let d' = d\<lparr>dk_ops := Suc (dk_ops d)\<rparr> in
      case de_fault env (dk_ops d) of
        Works \<Rightarrow> (None, works d') | Fails \<Rightarrow> (Some Disk_error, d') | Torn n \<Rightarrow> (Some Disk_error, torn n d'))"

definition put_file :: "string \<Rightarrow> string \<Rightarrow> disk \<Rightarrow> disk" where
  "put_file path data d = d\<lparr>dk_files := AList.update path data (dk_files d)\<rparr>"

definition drop_file :: "string \<Rightarrow> disk \<Rightarrow> disk" where
  "drop_file path d = d\<lparr>dk_files := AList.delete path (dk_files d)\<rparr>"

definition rename_file :: "string \<Rightarrow> string \<Rightarrow> disk \<Rightarrow> disk" where
  "rename_file old new d = (case contents old d of None \<Rightarrow> d | Some data \<Rightarrow> put_file new data (drop_file old d))"

definition and_then :: "disk_action \<Rightarrow> disk_action \<Rightarrow> disk_action" where
  \<comment> \<open>\<^verbatim>\<open>if err := a; err != nil { return err }; return b\<close>\<close>
  "and_then a b d = (case a d of (None, d) \<Rightarrow> b d | (Some e, d) \<Rightarrow> (Some e, d))"

definition simple_op :: "disk_env \<Rightarrow> (disk \<Rightarrow> disk) \<Rightarrow> disk_action" where
  "simple_op env f = disk_op env f (\<lambda>_ d. d)"

definition ignore_error :: "disk_action \<Rightarrow> disk \<Rightarrow> disk" where
  "ignore_error a d = snd (a d)"

definition atomicWriteFile :: "disk_env \<Rightarrow> string \<Rightarrow> string \<Rightarrow> disk_action" where
  "atomicWriteFile env path data d =
     (let temp = de_temp env (dk_ops d) in
      and_then (simple_op env (put_file temp ''''))
        (\<lambda>d. let r =
             and_then (simple_op env (\<lambda>d. d)) \<comment> \<open>\<^verbatim>\<open>Chmod\<close>\<close>
            (and_then (disk_op env (put_file temp data) (\<lambda>n. put_file temp (take n data)))
            (and_then (simple_op env (\<lambda>d. d)) \<comment> \<open>\<^verbatim>\<open>Sync\<close>\<close>
            (and_then (simple_op env (\<lambda>d. d)) \<comment> \<open>\<^verbatim>\<open>Close\<close>\<close>
                      (simple_op env (rename_file temp path))))) d
          in (fst r, ignore_error (simple_op env (drop_file temp)) (snd r)))
        d)"

definition read_file :: "disk_env \<Rightarrow> string \<Rightarrow> disk \<Rightarrow> (store_error + string option) \<times> disk" where
  \<comment> \<open>\<^verbatim>\<open>os.ReadFile\<close>; \<^verbatim>\<open>Inr None\<close> is \<^verbatim>\<open>os.ErrNotExist\<close>\<close>
  "read_file env path d =
     (case simple_op env (\<lambda>d. d) d of
        (Some e, d) \<Rightarrow> (Inl e, d)
      | (None, d) \<Rightarrow> (Inr (contents path d), d))"

subsection \<open>Backups\<close>

fun dir_of :: "string \<Rightarrow> string" where
  \<comment> \<open>\<^verbatim>\<open>filepath.Dir\<close> of a clean path\<close>
  "dir_of path = rev (drop 1 (dropWhile (\<lambda>c. c \<noteq> CHR ''/'') (rev path)))"

definition BackupDir :: "string \<Rightarrow> string" where
  "BackupDir path = dir_of path @ ''/backups''"

definition dir_entries :: "string \<Rightarrow> disk \<Rightarrow> string list" where
  "dir_entries dir d =
     filter (\<lambda>n. CHR ''/'' \<notin> set n) (map (drop (length dir + 1))
       (filter (\<lambda>p. has_prefix p (dir @ ''/'')) (map fst (dk_files d))))"

definition backup_name :: "string \<Rightarrow> bool" where
  "backup_name n \<longleftrightarrow> has_prefix n ''config-'' \<and> has_suffix n ''.json''"

fun remove_all :: "disk_env \<Rightarrow> string list \<Rightarrow> disk_action" where
  "remove_all env [] d = (None, d)"
| "remove_all env (p # ps) d = and_then (simple_op env (drop_file p)) (remove_all env ps) d"

definition pruneConfigBackups :: "disk_env \<Rightarrow> string \<Rightarrow> nat \<Rightarrow> disk_action" where
  "pruneConfigBackups env dir keep =
     and_then (simple_op env (\<lambda>d. d)) \<comment> \<open>\<^verbatim>\<open>ReadDir\<close>\<close>
       (\<lambda>d. let names = sort (filter backup_name (dir_entries dir d))
            in remove_all env (map (\<lambda>n. dir @ ''/'' @ n) (take (length names - keep) names)) d)"

definition backupIfChanged :: "disk_env \<Rightarrow> string \<Rightarrow> string \<Rightarrow> disk_action" where
  "backupIfChanged env path new d =
     (case read_file env path d of
        (Inl e, d) \<Rightarrow> (Some e, d)
      | (Inr None, d) \<Rightarrow> (None, d)
      | (Inr (Some current), d) \<Rightarrow>
          if trim_space current = trim_space new then (None, d)
          else
            and_then (simple_op env (\<lambda>d. d)) \<comment> \<open>\<^verbatim>\<open>Stat\<close>\<close>
           (and_then (simple_op env (\<lambda>d. d)) \<comment> \<open>\<^verbatim>\<open>MkdirAll\<close>\<close>
           (and_then (\<lambda>d. atomicWriteFile env
                (BackupDir path @ ''/config-'' @ de_stamp env (dk_ops d) @ ''.json'') current d)
           (and_then (pruneConfigBackups env (BackupDir path) 10)
                     (atomicWriteFile env (path @ ''.bak'') current)))) d)"

subsection \<open>Saving\<close>

record codec =
  js_indent :: "Config \<Rightarrow> string" \<comment> \<open>\<^verbatim>\<open>json.MarshalIndent\<close>\<close>
  js_compact :: "Config \<Rightarrow> string" \<comment> \<open>\<^verbatim>\<open>json.Marshal\<close>\<close>
  js_decode :: "Config \<Rightarrow> string \<Rightarrow> Config option" \<comment> \<open>\<^verbatim>\<open>json.Unmarshal\<close> into a configuration\<close>

record host_env =
  hs_config :: config_env
  hs_disk :: disk_env
  hs_codec :: codec

definition newline :: string where
  "newline = [CHR 0x0A]"

definition file_text :: "host_env \<Rightarrow> Config \<Rightarrow> string" where
  "file_text h c = js_indent (hs_codec h) c @ newline"

definition write_config :: "host_env \<Rightarrow> Config \<Rightarrow> disk_action" where
  \<comment> \<open>the disk operations of \<^verbatim>\<open>saveLocked\<close>\<close>
  "write_config h c =
     and_then (simple_op (hs_disk h) (\<lambda>d. d)) \<comment> \<open>\<^verbatim>\<open>MkdirAll\<close>\<close>
    (and_then (backupIfChanged (hs_disk h) (c_Path c) (js_indent (hs_codec h) c))
              (atomicWriteFile (hs_disk h) (c_Path c) (file_text h c)))"

definition saveLocked :: "host_env \<Rightarrow> Config \<Rightarrow> disk \<Rightarrow> store_error option \<times> Config \<times> disk" where
  "saveLocked h c d =
     (let c = (if c_Path c = '''' then c\<lparr>c_Path := ce_path (hs_config h)\<rparr> else c);
          c = normalize (hs_config h) c
      in case Validate (hs_config h) c of
           Some e \<Rightarrow> (Some (Invalid e), c, d)
         | None \<Rightarrow> (case write_config h c d of (r, d) \<Rightarrow> (r, c, d)))"

subsection \<open>The live configuration\<close>

record store =
  so_config :: Config
  so_changed :: bool \<comment> \<open>the change channel, which holds at most one notification\<close>
  so_disk :: disk

definition zero_config :: Config where
  "zero_config =
     \<lparr>c_Path = '''', c_LoadWarning = '''', c_Version = 0,
      c_Admin = \<lparr>adm_Bind = '''', adm_Port = 0, adm_Token = '''', adm_PasswordHash = '''', adm_TLSCert = '''', adm_TLSKey = ''''\<rparr>,
      c_Kiosk = zero_kiosk,
      c_Performance = \<lparr>pf_Profile = '''', pf_GPUMode = '''', pf_ReduceMotion = False, pf_AuthMonitor = ''''\<rparr>,
      c_Watchdog = \<lparr>wd_RestartOnCPU = False, wd_Enabled = False, wd_CheckInterval = 0, wd_MaxRSSMB = 0,
        wd_MaxCPUPercent = 0, wd_CPUGrace = 0, wd_RebootOnHang = False\<rparr>,
      c_MQTT = \<lparr>mq_Enabled = False, mq_URL = '''', mq_Version = '''', mq_Username = '''', mq_Password = '''',
        mq_PasswordConfigured = False, mq_Discovery = '''', mq_BaseTopic = '''', mq_Node = '''', mq_ClientID = '''',
        mq_KeepAlive = 0, mq_ForceDisableRetain = False, mq_CAFile = '''', mq_CertFile = '''', mq_KeyFile = '''',
        mq_ServerName = '''', mq_RejectUnauthorized = False, mq_MaxPacketBytes = 0, mq_Interval = 0\<rparr>,
      c_Time = \<lparr>tm_NTPServer = '''', tm_Timezone = ''''\<rparr>,
      c_Update = \<lparr>up_Repository = '''', up_Prerelease = False, up_Service = ''''\<rparr>, c_Revision = ''''\<rparr>"

definition hide_password_flag :: "Config \<Rightarrow> Config" where
  "hide_password_flag c = c\<lparr>c_MQTT := (c_MQTT c)\<lparr>mq_PasswordConfigured := False\<rparr>\<rparr>"

definition save_next :: "host_env \<Rightarrow> Config \<Rightarrow> store \<Rightarrow> store_error option \<times> store" where
  \<comment> \<open>the common end of \<^verbatim>\<open>Mutate\<close> and \<^verbatim>\<open>Replace\<close>: save, and only then take over and notify\<close>
  "save_next h c s =
     (case saveLocked h (hide_password_flag c) (so_disk s) of
        (Some e, _, d) \<Rightarrow> (Some e, s\<lparr>so_disk := d\<rparr>)
      | (None, c, d) \<Rightarrow> (None, s\<lparr>so_config := c, so_changed := True, so_disk := d\<rparr>))"

definition Mutate :: "host_env \<Rightarrow> (Config \<Rightarrow> string + Config) \<Rightarrow> store \<Rightarrow> store_error option \<times> store" where
  "Mutate h change s =
     (let cfg = so_config s in
      case js_decode (hs_codec h) zero_config (js_compact (hs_codec h) cfg) of
        None \<Rightarrow> (Some Encoding, s)
      | Some c \<Rightarrow>
          (case change (hide_password_flag (c\<lparr>c_Path := c_Path cfg\<rparr>)) of
             Inl e \<Rightarrow> (Some (Refused e), s)
           | Inr c \<Rightarrow> save_next h c s))"

definition Replace :: "host_env \<Rightarrow> Config option \<Rightarrow> store \<Rightarrow> store_error option \<times> store" where
  "Replace h c s =
     (case c of None \<Rightarrow> (Some No_replacement, s)
      | Some c \<Rightarrow> save_next h (c\<lparr>c_Path := c_Path (so_config s)\<rparr>) s)"

definition Snapshot :: "store \<Rightarrow> Config" where
  "Snapshot s = so_config s"

definition take_change :: "store \<Rightarrow> bool \<times> store" where
  \<comment> \<open>a receiver of \<^verbatim>\<open>Changes\<close> looks at the channel\<close>
  "take_change s = (so_changed s, s\<lparr>so_changed := False\<rparr>)"

subsection \<open>Loading\<close>

definition migration_warning :: "int \<Rightarrow> string" where
  "migration_warning version =
     ''configuration migrated from schema '' @ itoa version @ '' to '' @ itoa currentConfigVersion @
     ''; previous content is available in the backup history''"

definition restored_warning :: "string \<Rightarrow> string \<Rightarrow> string" where
  "restored_warning path corrupt =
     ''primary config was corrupt and restored from '' @ path @ ''.bak; preserved original as '' @ corrupt"

definition restore_backup :: "host_env \<Rightarrow> string \<Rightarrow> string \<Rightarrow> disk \<Rightarrow> (store_error + Config) \<times> disk" where
  \<comment> \<open>the file is not valid: fall back to the last backup\<close>
  "restore_backup h path data d =
     (case read_file (hs_disk h) (path @ ''.bak'') d of
        (Inl e, d) \<Rightarrow> (Inl Backup_missing, d)
      | (Inr None, d) \<Rightarrow> (Inl Backup_missing, d)
      | (Inr (Some backup), d) \<Rightarrow>
          (case js_decode (hs_codec h) (defaults (hs_config h) path) backup of
             None \<Rightarrow> (Inl Backup_undecodable, d)
           | Some c \<Rightarrow>
               (let corrupt = path @ ''.corrupt-'' @ de_seconds (hs_disk h) (dk_ops d) in
                case atomicWriteFile (hs_disk h) corrupt data d of
                  (Some e, d) \<Rightarrow> (Inl Not_preserved, d)
                | (None, d) \<Rightarrow>
                    (case atomicWriteFile (hs_disk h) path backup d of
                       (Some e, d) \<Rightarrow> (Inl Not_restored, d)
                     | (None, d) \<Rightarrow>
                         (Inr (c\<lparr>c_LoadWarning := restored_warning path corrupt\<rparr>), d)))))"

definition read_config :: "host_env \<Rightarrow> string \<Rightarrow> disk \<Rightarrow> (store_error + Config) \<times> disk" where
  "read_config h path d =
     (case read_file (hs_disk h) path d of
        (Inl e, d) \<Rightarrow> (Inl e, d)
      | (Inr None, d) \<Rightarrow> (Inr (defaults (hs_config h) path), d)
      | (Inr (Some data), d) \<Rightarrow>
          (case js_decode (hs_codec h) (defaults (hs_config h) path) data of
             Some c \<Rightarrow> (Inr c, d)
           | None \<Rightarrow> restore_backup h path data d))"

definition finish_load :: "host_env \<Rightarrow> string \<Rightarrow> Config \<Rightarrow> disk \<Rightarrow> (store_error + Config) \<times> disk" where
  "finish_load h path c d =
     (let version = c_Version c;
          c = normalize (hs_config h) (c\<lparr>c_Path := path\<rparr>);
          c = (if version < currentConfigVersion
               then c\<lparr>c_LoadWarning := (if c_LoadWarning c \<noteq> '''' then c_LoadWarning c @ ''; '' else '''') @ migration_warning version\<rparr>
               else c)
      in case saveLocked h c d of
           (Some e, _, d) \<Rightarrow> (Inl e, d)
         | (None, c, d) \<Rightarrow> (Inr c, d))"

definition Load :: "host_env \<Rightarrow> string \<Rightarrow> disk \<Rightarrow> (store_error + Config) \<times> disk" where
  "Load h path d =
     (let path = (if path = '''' then ce_path (hs_config h) else path) in
      case read_config h path d of
        (Inl e, d) \<Rightarrow> (Inl e, d)
      | (Inr c, d) \<Rightarrow> finish_load h path c d)"

subsection \<open>What the disk operations change\<close>

named_theorems disk_frame "which files an operation on the disk leaves alone"

lemma contents_put [simp]: "contents p (put_file q data d) = (if p = q then Some data else contents p d)"
  by (simp add: contents_def put_file_def update_conv')

lemma contents_drop [simp]: "contents p (drop_file q d) = (if p = q then None else contents p d)"
  by (simp add: contents_def drop_file_def delete_conv')

lemma contents_ops [simp]: "contents p (d\<lparr>dk_ops := n\<rparr>) = contents p d"
  by (simp add: contents_def)

lemma contents_rename:
  "contents p (rename_file q r d) =
     (if contents q d = None then contents p d
      else if p = r then contents q d else if p = q then None else contents p d)"
  by (auto simp: rename_file_def split: option.split)

lemma simple_op_cases:
  obtains (ok) "simple_op env f d = (None, f (d\<lparr>dk_ops := Suc (dk_ops d)\<rparr>))"
    | (failed) "simple_op env f d = (Some Disk_error, d\<lparr>dk_ops := Suc (dk_ops d)\<rparr>)"
  by (cases "de_fault env (dk_ops d)") (simp_all add: simple_op_def disk_op_def Let_def)

lemma and_then_None: "and_then a b d = (None, d') \<longleftrightarrow> (\<exists>e. a d = (None, e) \<and> b e = (None, d'))"
  by (auto simp: and_then_def split: prod.split option.split)

lemma and_then_frame:
  assumes "\<And>d. contents p (snd (a d)) = contents p d" "\<And>d. contents p (snd (b d)) = contents p d"
  shows "contents p (snd (and_then a b d)) = contents p d"
  using assms(1) [of d] assms(2) by (auto simp: and_then_def split: prod.split option.split)

lemma simple_op_frame:
  "(\<And>d. contents p (f d) = contents p d) \<Longrightarrow> contents p (snd (simple_op env f d)) = contents p d"
  by (cases rule: simple_op_cases [of env f d]) simp_all

lemma disk_op_frame:
  "(\<And>d. contents p (f d) = contents p d) \<Longrightarrow> (\<And>n d. contents p (g n d) = contents p d) \<Longrightarrow>
   contents p (snd (disk_op env f g d)) = contents p d"
  by (cases "de_fault env (dk_ops d)") (simp_all add: disk_op_def Let_def)

text \<open>What the file of an action holds afterwards: the new data after a success, the old after an error.\<close>

definition writes :: "string \<Rightarrow> string \<Rightarrow> disk_action \<Rightarrow> bool" where
  "writes p data a \<longleftrightarrow>
     (\<forall>d. contents p (snd (a d)) = (if fst (a d) = None then Some data else contents p d))"

definition keeps :: "string \<Rightarrow> disk_action \<Rightarrow> bool" where
  "keeps p a \<longleftrightarrow> (\<forall>d. contents p (snd (a d)) = contents p d)"

lemma keeps_simple [disk_frame]: "(\<And>d. contents p (f d) = contents p d) \<Longrightarrow> keeps p (simple_op env f)"
  by (simp add: keeps_def simple_op_frame)

lemma keeps_and_then [disk_frame]: "keeps p a \<Longrightarrow> keeps p b \<Longrightarrow> keeps p (and_then a b)"
  by (simp add: keeps_def and_then_frame)

lemma keeps_disk_op [disk_frame]:
  "(\<And>d. contents p (f d) = contents p d) \<Longrightarrow> (\<And>n d. contents p (g n d) = contents p d) \<Longrightarrow>
   keeps p (disk_op env f g)"
  by (simp add: keeps_def disk_op_frame)

lemma writes_after: "keeps p a \<Longrightarrow> writes p data b \<Longrightarrow> writes p data (and_then a b)"
  by (auto simp: keeps_def writes_def and_then_def split: prod.split option.split)
     (metis fst_conv option.distinct(1) snd_conv)+

definition temp_apart :: "host_env \<Rightarrow> string \<Rightarrow> bool" where
  "temp_apart h p \<longleftrightarrow> (\<forall>n. de_temp (hs_disk h) n \<noteq> p)"

lemma writes_through_temp:
  assumes "temp \<noteq> path"
  shows "writes path data
    (and_then (disk_op env (put_file temp data) (\<lambda>n. put_file temp (take n data)))
    (and_then (simple_op env (\<lambda>d. d)) (and_then (simple_op env (\<lambda>d. d)) (simple_op env (rename_file temp path)))))"
  using assms
  by (auto simp: writes_def and_then_def disk_op_def simple_op_def Let_def contents_rename split: fault.split)

lemma writes_atomic:
  assumes "\<And>n. de_temp env n \<noteq> path"
  shows "writes path data (atomicWriteFile env path data)"
  unfolding writes_def
proof
  fix d :: disk
  let ?t = "de_temp env (dk_ops d)"
  let ?chain = "and_then (simple_op env (\<lambda>d. d))
    (and_then (disk_op env (put_file ?t data) (\<lambda>n. put_file ?t (take n data)))
    (and_then (simple_op env (\<lambda>d. d)) (and_then (simple_op env (\<lambda>d. d)) (simple_op env (rename_file ?t path)))))"
  have chain: "writes path data ?chain"
    by (intro writes_after writes_through_temp disk_frame) (use assms in simp_all)
  have drop: "contents path (ignore_error (simple_op env (drop_file ?t)) e) = contents path e" for e
    using simple_op_frame [of path "drop_file ?t" env e] assms [of "dk_ops d"] by (simp add: ignore_error_def)
  have "keeps path (simple_op env (put_file ?t ''''))"
    using assms [of "dk_ops d"] by (intro disk_frame) simp
  moreover have "writes path data (\<lambda>d. (fst (?chain d), ignore_error (simple_op env (drop_file ?t)) (snd (?chain d))))"
    using chain drop by (simp add: writes_def)
  ultimately have "writes path data (and_then (simple_op env (put_file ?t ''''))
      (\<lambda>d. (fst (?chain d), ignore_error (simple_op env (drop_file ?t)) (snd (?chain d)))))"
    by (rule writes_after)
  then show "contents path (snd (atomicWriteFile env path data d)) =
      (if fst (atomicWriteFile env path data d) = None then Some data else contents path d)"
    by (simp add: writes_def atomicWriteFile_def Let_def)
qed

lemma keeps_atomic [disk_frame]:
  assumes "\<And>n. de_temp env n \<noteq> p" "path \<noteq> p"
  shows "keeps p (atomicWriteFile env path data)"
  unfolding keeps_def
proof
  fix d :: disk
  let ?t = "de_temp env (dk_ops d)"
  let ?chain = "and_then (simple_op env (\<lambda>d. d))
    (and_then (disk_op env (put_file ?t data) (\<lambda>n. put_file ?t (take n data)))
    (and_then (simple_op env (\<lambda>d. d)) (and_then (simple_op env (\<lambda>d. d)) (simple_op env (rename_file ?t path)))))"
  have t: "p \<noteq> ?t" "p \<noteq> path" using assms(1) [of "dk_ops d"] assms(2) by auto
  have chain: "keeps p ?chain"
    by (intro disk_frame) (simp_all add: t contents_rename)
  have drop: "keeps p (simple_op env (drop_file ?t))" by (intro disk_frame) (simp add: t)
  have "keeps p (and_then (simple_op env (put_file ?t ''''))
      (\<lambda>d. (fst (?chain d), ignore_error (simple_op env (drop_file ?t)) (snd (?chain d)))))"
  proof (rule keeps_and_then)
    show "keeps p (simple_op env (put_file ?t ''''))" by (intro disk_frame) (simp add: t)
    show "keeps p (\<lambda>d. (fst (?chain d), ignore_error (simple_op env (drop_file ?t)) (snd (?chain d))))"
      using chain drop by (simp add: keeps_def ignore_error_def)
  qed
  then show "contents p (snd (atomicWriteFile env path data d)) = contents p d"
    by (simp add: keeps_def atomicWriteFile_def Let_def)
qed

subsection \<open>The backups leave the configuration alone\<close>

lemma dir_of_split: "CHR ''/'' \<in> set path \<Longrightarrow> \<exists>base. path = dir_of path @ ''/'' @ base \<and> CHR ''/'' \<notin> set base"
proof -
  assume "CHR ''/'' \<in> set path"
  then obtain base dir where p: "path = dir @ CHR ''/'' # base" "CHR ''/'' \<notin> set base"
    using split_list_last by metis
  have "dropWhile (\<lambda>c. c \<noteq> CHR ''/'') (rev base @ CHR ''/'' # rev dir) = CHR ''/'' # rev dir"
    using p(2) by (subst dropWhile_append2) auto
  then have "dropWhile (\<lambda>c. c \<noteq> CHR ''/'') (rev path) = CHR ''/'' # rev dir"
    using p(1) by simp
  then show ?thesis using p by (intro exI [of _ base]) simp
qed

lemma backup_path_other: "BackupDir path @ ''/'' @ n \<noteq> path"
proof
  assume eq: "BackupDir path @ ''/'' @ n = path"
  define dir where "dir = dir_of path"
  have eq': "path = dir @ ''/'' @ (''backups/'' @ n)" using eq by (simp add: BackupDir_def dir_def)
  then have "CHR ''/'' \<in> set path" by simp
  then obtain base where base: "path = dir @ ''/'' @ base" "CHR ''/'' \<notin> set base"
    using dir_of_split unfolding dir_def by blast
  with eq' have "base = ''backups/'' @ n" by simp
  with base(2) show False by simp
qed

lemma keeps_remove_all: "p \<notin> set ps \<Longrightarrow> keeps p (remove_all env ps)"
proof (induction ps)
  case (Cons q qs)
  have "keeps p (and_then (simple_op env (drop_file q)) (remove_all env qs))"
    using Cons by (intro disk_frame) auto
  then show ?case by (simp add: keeps_def)
qed (simp add: keeps_def)

lemma keeps_prune:
  assumes "\<And>n. dir @ ''/'' @ n \<noteq> p"
  shows "keeps p (pruneConfigBackups env dir keep)"
proof -
  have "keeps p (remove_all env (map (\<lambda>n. dir @ ''/'' @ n) ns))" for ns
    by (rule keeps_remove_all) (use assms in auto)
  then have "keeps p (\<lambda>d. let names = sort (filter backup_name (dir_entries dir d))
      in remove_all env (map (\<lambda>n. dir @ ''/'' @ n) (take (length names - keep) names)) d)"
    by (simp add: keeps_def Let_def)
  then show ?thesis unfolding pruneConfigBackups_def by (intro disk_frame) simp_all
qed

lemma read_file_cases:
  obtains (failed) e d' where "read_file env p d = (Inl e, d')" "\<And>q. contents q d' = contents q d"
    | (read) d' where "read_file env p d = (Inr (contents p d), d')" "\<And>q. contents q d' = contents q d"
  by (cases rule: simple_op_cases [of env "\<lambda>d. d" d]) (simp_all add: read_file_def)

lemma keeps_backup:
  assumes temps: "\<And>n. de_temp env n \<noteq> p" and other: "p \<noteq> path @ ''.bak''" "\<And>n. BackupDir path @ ''/'' @ n \<noteq> p"
  shows "keeps p (backupIfChanged env path new)"
  unfolding keeps_def
proof
  fix d :: disk
  let ?rest = "\<lambda>current. and_then (simple_op env (\<lambda>d. d)) (and_then (simple_op env (\<lambda>d. d))
    (and_then (\<lambda>d. atomicWriteFile env (BackupDir path @ ''/config-'' @ de_stamp env (dk_ops d) @ ''.json'') current d)
    (and_then (pruneConfigBackups env (BackupDir path) 10) (atomicWriteFile env (path @ ''.bak'') current))))"
  have "keeps p (atomicWriteFile env (BackupDir path @ ''/config-'' @ s @ ''.json'') current)" for s current
    using temps other(2) [of "''config-'' @ s @ ''.json''"] by (intro keeps_atomic) simp_all
  then have new: "keeps p (\<lambda>d. atomicWriteFile env (BackupDir path @ ''/config-'' @ de_stamp env (dk_ops d) @ ''.json'') current d)" for current
    by (simp add: keeps_def)
  have bak: "keeps p (atomicWriteFile env (path @ ''.bak'') current)" for current
    using temps other(1) by (intro keeps_atomic) simp_all
  have "keeps p (?rest current)" for current
    by (intro keeps_and_then new bak keeps_prune keeps_simple) (use other in simp_all)
  then show "contents p (snd (backupIfChanged env path new d)) = contents p d"
    by (cases rule: read_file_cases [of env path d])
       (simp_all add: backupIfChanged_def keeps_def split: option.split)
qed

lemma bak_other: "path \<noteq> path @ ''.bak''"
  by simp

lemma writes_config:
  assumes "temp_apart h (c_Path c)"
  shows "writes (c_Path c) (file_text h c) (write_config h c)"
proof -
  have temps: "\<And>n. de_temp (hs_disk h) n \<noteq> c_Path c" using assms by (simp add: temp_apart_def)
  have "keeps (c_Path c) (backupIfChanged (hs_disk h) (c_Path c) (js_indent (hs_codec h) c))"
    using temps backup_path_other by (intro keeps_backup) simp_all
  then show ?thesis unfolding write_config_def
    by (intro writes_after keeps_simple writes_atomic temps) simp_all
qed

lemma saveLocked_cases:
  assumes "temp_apart h (c_Path c)" "c_Path c \<noteq> ''''"
  obtains (failed) e c' d' where "saveLocked h c d = (Some e, c', d')" "contents (c_Path c) d' = contents (c_Path c) d"
    | (saved) d' where "saveLocked h c d = (None, normalize (hs_config h) c, d')"
        "contents (c_Path c) d' = Some (file_text h (normalize (hs_config h) c))"
        "Validate (hs_config h) (normalize (hs_config h) c) = None"
proof -
  let ?n = "normalize (hs_config h) c"
  have path: "c_Path ?n = c_Path c" by (simp add: normalize_parts)
  show thesis
  proof (cases "Validate (hs_config h) ?n")
    case None
    obtain r d' where w: "write_config h ?n d = (r, d')" by fastforce
    have "writes (c_Path c) (file_text h ?n) (write_config h ?n)"
      using writes_config [of h ?n] assms(1) path by simp
    with w have "contents (c_Path c) d' = (if r = None then Some (file_text h ?n) else contents (c_Path c) d)"
      unfolding writes_def by (metis fst_conv snd_conv)
    then show thesis
      using failed saved None w assms(2) by (cases r) (simp_all add: saveLocked_def Let_def)
  qed (use failed assms(2) in \<open>simp add: saveLocked_def Let_def\<close>)
qed

subsection \<open>Memory and file agree\<close>

datatype store_op =
    Mutating "Config \<Rightarrow> string + Config" | Replacing "Config option" | Taking_change

fun attempt :: "host_env \<Rightarrow> store_op \<Rightarrow> store \<Rightarrow> store_error option \<times> store" where
  "attempt h (Mutating f) s = Mutate h f s"
| "attempt h (Replacing c) s = Replace h c s"
| "attempt h Taking_change s = (None, snd (take_change s))"

definition run_store :: "host_env \<Rightarrow> store_op list \<Rightarrow> store \<Rightarrow> store" where
  "run_store h = fold (\<lambda>op s. snd (attempt h op s))"

definition path_kept :: "store_op \<Rightarrow> bool" where
  \<comment> \<open>no change of the code touches the path of the file\<close>
  "path_kept op = (case op of Mutating f \<Rightarrow> (\<forall>c c'. f c = Inr c' \<longrightarrow> c_Path c' = c_Path c) | _ \<Rightarrow> True)"

definition store_ok :: "host_env \<Rightarrow> store \<Rightarrow> bool" where
  \<comment> \<open>the configuration in memory is normalized and valid, and the file holds it\<close>
  "store_ok h s \<longleftrightarrow>
     c_Path (so_config s) \<noteq> '''' \<and>
     contents (c_Path (so_config s)) (so_disk s) = Some (file_text h (so_config s)) \<and>
     Validate (hs_config h) (so_config s) = None \<and> so_config s \<in> range (normalize (hs_config h))"

lemma hide_password_flag_path [simp]: "c_Path (hide_password_flag c) = c_Path c"
  by (simp add: hide_password_flag_def)

lemma save_next_cases:
  assumes "temp_apart h (c_Path c)" "c_Path c \<noteq> ''''"
  obtains (failed) e d where "save_next h c s = (Some e, s\<lparr>so_disk := d\<rparr>)"
      "contents (c_Path c) d = contents (c_Path c) (so_disk s)"
    | (saved) c' d where "save_next h c s = (None, s\<lparr>so_config := c', so_changed := True, so_disk := d\<rparr>)"
      "c' = normalize (hs_config h) (hide_password_flag c)" "c_Path c' = c_Path c"
      "contents (c_Path c) d = Some (file_text h c')" "Validate (hs_config h) c' = None"
proof -
  have "temp_apart h (c_Path (hide_password_flag c))" "c_Path (hide_password_flag c) \<noteq> ''''"
    using assms by simp_all
  then show thesis
  proof (cases rule: saveLocked_cases [of h "hide_password_flag c" "so_disk s"])
    case (failed e c' d')
    then show thesis using that(1) by (simp add: save_next_def)
  next
    case (saved d')
    then show thesis using that(2) by (simp add: save_next_def normalize_parts)
  qed
qed

lemma save_next_ok:
  assumes "store_ok h s" "temp_apart h (c_Path (so_config s))" "c_Path c = c_Path (so_config s)"
  shows "store_ok h (snd (save_next h c s))" "c_Path (so_config (snd (save_next h c s))) = c_Path (so_config s)"
    "fst (save_next h c s) \<noteq> None \<Longrightarrow> so_config (snd (save_next h c s)) = so_config s \<and>
       so_changed (snd (save_next h c s)) = so_changed s"
    "fst (save_next h c s) = None \<Longrightarrow> so_changed (snd (save_next h c s))"
proof -
  have "temp_apart h (c_Path c)" "c_Path c \<noteq> ''''" using assms by (simp_all add: store_ok_def)
  then have "store_ok h (snd (save_next h c s)) \<and> c_Path (so_config (snd (save_next h c s))) = c_Path (so_config s) \<and>
    (fst (save_next h c s) \<noteq> None \<longrightarrow> so_config (snd (save_next h c s)) = so_config s \<and>
       so_changed (snd (save_next h c s)) = so_changed s) \<and>
    (fst (save_next h c s) = None \<longrightarrow> so_changed (snd (save_next h c s)))"
    by (cases rule: save_next_cases [of h c s]) (use assms in \<open>auto simp: store_ok_def\<close>)
  then show "store_ok h (snd (save_next h c s))" "c_Path (so_config (snd (save_next h c s))) = c_Path (so_config s)"
    "fst (save_next h c s) \<noteq> None \<Longrightarrow> so_config (snd (save_next h c s)) = so_config s \<and>
       so_changed (snd (save_next h c s)) = so_changed s"
    "fst (save_next h c s) = None \<Longrightarrow> so_changed (snd (save_next h c s))"
    by blast+
qed

text \<open>The interface of the live configuration that its clients rely on: operations that may be refused.\<close>

locale saved_store =
  fixes h :: host_env and legal :: "'op \<Rightarrow> bool" and perform :: "'op \<Rightarrow> store \<Rightarrow> store_error option \<times> store"
  assumes ok: "legal op \<Longrightarrow> store_ok h s \<Longrightarrow> temp_apart h (c_Path (so_config s)) \<Longrightarrow>
      store_ok h (snd (perform op s))"
    and path: "legal op \<Longrightarrow> store_ok h s \<Longrightarrow> temp_apart h (c_Path (so_config s)) \<Longrightarrow>
      c_Path (so_config (snd (perform op s))) = c_Path (so_config s)"
    and refused: "legal op \<Longrightarrow> store_ok h s \<Longrightarrow> temp_apart h (c_Path (so_config s)) \<Longrightarrow>
      fst (perform op s) \<noteq> None \<Longrightarrow>
      so_config (snd (perform op s)) = so_config s \<and> so_changed (snd (perform op s)) = so_changed s"
begin

lemma run_ok:
  assumes "list_all legal ops" "store_ok h s" "temp_apart h (c_Path (so_config s))"
  shows "store_ok h (fold (\<lambda>op s. snd (perform op s)) ops s) \<and>
    c_Path (so_config (fold (\<lambda>op s. snd (perform op s)) ops s)) = c_Path (so_config s)"
  using assms by (induction ops arbitrary: s) (simp_all add: ok path)

lemma refused_keeps_file:
  assumes "legal op" "store_ok h s" "temp_apart h (c_Path (so_config s))" "fst (perform op s) \<noteq> None"
  shows "contents (c_Path (so_config s)) (so_disk (snd (perform op s))) = contents (c_Path (so_config s)) (so_disk s)"
  using ok [OF assms(1-3)] refused [OF assms] assms(2) by (simp add: store_ok_def)

end

lemma Mutate_cases:
  assumes "path_kept (Mutating f)"
  obtains (refused) e where "Mutate h f s = (Some e, s)"
    | (saving) c where "Mutate h f s = save_next h c s" "c_Path c = c_Path (so_config s)"
proof (cases "js_decode (hs_codec h) zero_config (js_compact (hs_codec h) (so_config s))")
  case (Some c)
  show thesis
  proof (cases "f (hide_password_flag (c\<lparr>c_Path := c_Path (so_config s)\<rparr>))")
    case (Inr c')
    then have "c_Path c' = c_Path (so_config s)" using assms by (simp add: path_kept_def)
    with Some Inr show thesis by (intro saving [of c']) (simp_all add: Mutate_def)
  qed (use Some refused in \<open>simp add: Mutate_def\<close>)
qed (use refused in \<open>simp add: Mutate_def\<close>)

lemma attempt_cases:
  assumes "path_kept op"
  obtains (refused) e where "attempt h op s = (Some e, s)"
    | (saving) c where "attempt h op s = save_next h c s" "c_Path c = c_Path (so_config s)"
    | (taking) "attempt h op s = (None, s\<lparr>so_changed := False\<rparr>)" "op = Taking_change"
proof (cases op)
  case (Mutating f)
  then have "path_kept (Mutating f)" using assms by simp
  then show thesis using Mutating refused saving by (cases rule: Mutate_cases [where h = h and s = s]) auto
next
  case (Replacing c)
  then show thesis using refused saving by (cases c) (auto simp: Replace_def)
qed (use taking in \<open>simp add: take_change_def\<close>)

interpretation live: saved_store h path_kept "attempt h" for h
proof
  fix op s assume *: "path_kept op" and s: "store_ok h s" "temp_apart h (c_Path (so_config s))"
  have "store_ok h (snd (attempt h op s)) \<and> c_Path (so_config (snd (attempt h op s))) = c_Path (so_config s) \<and>
    (fst (attempt h op s) \<noteq> None \<longrightarrow>
      so_config (snd (attempt h op s)) = so_config s \<and> so_changed (snd (attempt h op s)) = so_changed s)"
    using * by (cases rule: attempt_cases [of op h s]) (use s save_next_ok [OF s] in \<open>auto simp: store_ok_def\<close>)
  then show "store_ok h (snd (attempt h op s))" "c_Path (so_config (snd (attempt h op s))) = c_Path (so_config s)"
    "fst (attempt h op s) \<noteq> None \<Longrightarrow>
      so_config (snd (attempt h op s)) = so_config s \<and> so_changed (snd (attempt h op s)) = so_changed s"
    by blast+
qed

subsection \<open>A disk without faults\<close>

definition working :: "disk_env \<Rightarrow> bool" where
  "working env \<longleftrightarrow> de_fault env = (\<lambda>_. Works)"

definition succeeds :: "disk_action \<Rightarrow> bool" where
  "succeeds a \<longleftrightarrow> (\<forall>d. fst (a d) = None)"

named_theorems disk_works "operations that succeed on a disk without faults"

lemma succeeds_simple [disk_works]: "working env \<Longrightarrow> succeeds (simple_op env f)"
  by (simp add: succeeds_def working_def simple_op_def disk_op_def Let_def)

lemma succeeds_disk_op [disk_works]: "working env \<Longrightarrow> succeeds (disk_op env f g)"
  by (simp add: succeeds_def working_def disk_op_def Let_def)

lemma succeeds_and_then [disk_works]: "succeeds a \<Longrightarrow> succeeds b \<Longrightarrow> succeeds (and_then a b)"
  by (auto simp: succeeds_def and_then_def split: prod.split option.split) (metis fst_conv option.distinct(1))

lemma succeeds_atomic [disk_works]:
  assumes "working env"
  shows "succeeds (atomicWriteFile env path data)"
  unfolding succeeds_def
proof
  fix d :: disk
  let ?t = "de_temp env (dk_ops d)"
  let ?chain = "and_then (simple_op env (\<lambda>d. d))
    (and_then (disk_op env (put_file ?t data) (\<lambda>n. put_file ?t (take n data)))
    (and_then (simple_op env (\<lambda>d. d)) (and_then (simple_op env (\<lambda>d. d)) (simple_op env (rename_file ?t path)))))"
  have "succeeds ?chain" using assms by (intro disk_works)
  then have "succeeds (\<lambda>d. (fst (?chain d), ignore_error (simple_op env (drop_file ?t)) (snd (?chain d))))"
    by (simp add: succeeds_def)
  then have "succeeds (and_then (simple_op env (put_file ?t ''''))
      (\<lambda>d. (fst (?chain d), ignore_error (simple_op env (drop_file ?t)) (snd (?chain d)))))"
    using assms by (intro disk_works)
  then show "fst (atomicWriteFile env path data d) = None"
    by (simp add: succeeds_def atomicWriteFile_def Let_def)
qed

lemma succeeds_remove_all [disk_works]: "working env \<Longrightarrow> succeeds (remove_all env ps)"
proof (induction ps)
  case (Cons p ps)
  then have "succeeds (and_then (simple_op env (drop_file p)) (remove_all env ps))" by (intro disk_works) simp_all
  then show ?case by (simp add: succeeds_def)
qed (simp add: succeeds_def)

lemma succeeds_prune [disk_works]:
  assumes "working env" shows "succeeds (pruneConfigBackups env dir keep)"
proof -
  have "succeeds (\<lambda>d. let names = sort (filter backup_name (dir_entries dir d))
      in remove_all env (map (\<lambda>n. dir @ ''/'' @ n) (take (length names - keep) names)) d)"
    using succeeds_remove_all [OF assms] by (simp add: succeeds_def Let_def)
  then show ?thesis unfolding pruneConfigBackups_def using assms by (intro disk_works)
qed

lemma read_file_works:
  "working env \<Longrightarrow> read_file env p d = (Inr (contents p d), d\<lparr>dk_ops := Suc (dk_ops d)\<rparr>)"
  by (simp add: read_file_def simple_op_def disk_op_def working_def Let_def)

lemma succeeds_backup [disk_works]:
  assumes "working env" shows "succeeds (backupIfChanged env path new)"
proof -
  have atomic: "succeeds (\<lambda>d. atomicWriteFile env (f d) current d)" for f current
    using succeeds_atomic [OF assms] by (simp add: succeeds_def)
  have "succeeds (and_then (simple_op env (\<lambda>d. d)) (and_then (simple_op env (\<lambda>d. d))
    (and_then (\<lambda>d. atomicWriteFile env (BackupDir path @ ''/config-'' @ de_stamp env (dk_ops d) @ ''.json'') current d)
    (and_then (pruneConfigBackups env (BackupDir path) 10) (atomicWriteFile env (path @ ''.bak'') current)))))" for current
    using assms by (intro disk_works atomic)
  then show ?thesis
    by (simp add: succeeds_def backupIfChanged_def read_file_works [OF assms] split: option.split)
qed

lemma succeeds_write_config [disk_works]: "working (hs_disk h) \<Longrightarrow> succeeds (write_config h c)"
  unfolding write_config_def by (intro disk_works)

lemma saveLocked_works:
  assumes "working (hs_disk h)" "temp_apart h (c_Path c)" "c_Path c \<noteq> ''''"
    and "normalize (hs_config h) c = c" "Validate (hs_config h) c = None"
  obtains d' where "saveLocked h c d = (None, c, d')" "contents (c_Path c) d' = Some (file_text h c)"
proof -
  have "fst (write_config h c d) = None"
    using succeeds_write_config [OF assms(1)] by (simp add: succeeds_def)
  then have "fst (saveLocked h c d) = None"
    using assms(3-5) by (cases "write_config h c d") (simp add: saveLocked_def)
  then show thesis
    using that by (cases rule: saveLocked_cases [OF assms(2,3), of d]) (simp_all add: assms(4))
qed

subsection \<open>The configuration survives a restart\<close>

lemma normalize_warning: "normalize env (c\<lparr>c_LoadWarning := w\<rparr>) = (normalize env c)\<lparr>c_LoadWarning := w\<rparr>"
  by (simp add: normalize_def migrateSchema_def Let_def)

lemma Validate_warning: "Validate env (c\<lparr>c_LoadWarning := w\<rparr>) = Validate env c"
  by (simp add: Validate_def)

lemma Validate_version: "Validate env c = None \<Longrightarrow> c_Version c \<le> 4"
  by (auto simp: Validate_def Let_def currentConfigVersion_def split: option.splits if_splits)

definition codec_reads :: "host_env \<Rightarrow> Config \<Rightarrow> bool" where
  \<comment> \<open>decoding the file of a configuration gives it back, except for the two fields without a key\<close>
  "codec_reads h c \<longleftrightarrow> (\<forall>base. js_decode (hs_codec h) base (file_text h c) =
     Some (c\<lparr>c_Path := c_Path base, c_LoadWarning := c_LoadWarning base\<rparr>))"

lemma finish_load_works:
  assumes "working (hs_disk h)" "temp_apart h (c_Path c)" "c_Path c \<noteq> ''''"
    and "normalize (hs_config h) c = c" "Validate (hs_config h) c = None"
  obtains d' where "finish_load h (c_Path c) c d = (Inr c, d')" "contents (c_Path c) d' = Some (file_text h c)"
proof -
  have "\<not> c_Version c < currentConfigVersion"
    using assms(4) normalize_parts(1) [of "hs_config h" c] by (simp add: currentConfigVersion_def)
  moreover obtain d' where "saveLocked h c d = (None, c, d')" "contents (c_Path c) d' = Some (file_text h c)"
    using saveLocked_works [OF assms] .
  ultimately show thesis using that assms(4) by (simp add: finish_load_def)
qed

lemma defaults_path [simp]: "c_Path (defaults env p) = p" "c_LoadWarning (defaults env p) = ''''"
  by (simp_all add: defaults_def)

lemma Load_saved:
  assumes h: "working (hs_disk h)" "temp_apart h path" "path \<noteq> ''''"
    and c: "c_Path c = path" "codec_reads h c" "Validate (hs_config h) c = None" "normalize (hs_config h) c = c"
    and saved: "contents path d = Some (file_text h c)"
  obtains d' where "Load h path d = (Inr (c\<lparr>c_LoadWarning := ''''\<rparr>), d')"
    "contents path d' = Some (file_text h (c\<lparr>c_LoadWarning := ''''\<rparr>))"
proof -
  let ?c = "c\<lparr>c_LoadWarning := ''''\<rparr>"
  have "js_decode (hs_codec h) (defaults (hs_config h) path) (file_text h c) = Some ?c"
    using c(1,2) by (simp add: codec_reads_def)
  then have "read_config h path d = (Inr ?c, d\<lparr>dk_ops := Suc (dk_ops d)\<rparr>)"
    by (simp add: read_config_def read_file_works [OF h(1)] saved)
  moreover obtain d' where "finish_load h path ?c (d\<lparr>dk_ops := Suc (dk_ops d)\<rparr>) = (Inr ?c, d')"
      "contents path d' = Some (file_text h ?c)"
    using finish_load_works [of h ?c] h c by (auto simp: normalize_warning Validate_warning)
  ultimately show thesis using that h(3) by (simp add: Load_def)
qed

text \<open>C12: However the operations on the live configuration fail or are cut off, the configuration in
  memory stays normalized and valid and the file holds it; an operation that is refused changes
  neither the configuration nor the file nor the notification.\<close>

theorem memory_matches_file:
  assumes "store_ok h s" "temp_apart h (c_Path (so_config s))" "list_all path_kept ops" "path_kept op"
    and "s' = run_store h ops s"
  shows "store_ok h s' \<and>
    (fst (attempt h op s') = None \<or>
     so_config (snd (attempt h op s')) = so_config s' \<and> so_changed (snd (attempt h op s')) = so_changed s' \<and>
     contents (c_Path (so_config s)) (so_disk (snd (attempt h op s'))) = contents (c_Path (so_config s)) (so_disk s'))"
proof -
  have run: "store_ok h s'" "c_Path (so_config s') = c_Path (so_config s)"
    using live.run_ok [OF assms(3,1,2)] by (simp_all add: assms(5) run_store_def)
  then show ?thesis
    using live.refused [OF assms(4), of h s'] live.refused_keeps_file [OF assms(4), of h s'] assms(2) by auto
qed


subsection \<open>Backups\<close>

lemma writes_ok: "writes p data a \<Longrightarrow> fst (a d) = None \<Longrightarrow> contents p (snd (a d)) = Some data"
  by (simp add: writes_def)

lemma writes_then_keeps:
  assumes "writes p data a" "keeps p b" "and_then a b d = (None, d')"
  shows "contents p d' = Some data"
proof -
  from assms(3) obtain e where "a d = (None, e)" "b e = (None, d')" by (auto simp: and_then_None)
  then show ?thesis using assms(1,2) unfolding writes_def keeps_def by (metis fst_conv snd_conv)
qed

lemma backup_written:
  assumes "\<And>n. de_temp env n \<noteq> path @ ''.bak''" "backupIfChanged env path new d = (None, d')"
    and "contents path d = Some old" "trim_space old \<noteq> trim_space new"
  shows "contents (path @ ''.bak'') d' = Some old"
proof (cases rule: read_file_cases [of env path d])
  case (failed e d1)
  then show ?thesis using assms(2) by (simp add: backupIfChanged_def)
next
  case (read d1)
  let ?b = "atomicWriteFile env (path @ ''.bak'') old"
  have "\<exists>e. ?b e = (None, d')"
    using assms(2-4) read by (auto simp: backupIfChanged_def and_then_None)
  then show ?thesis
    using writes_atomic [of env "path @ ''.bak''" old] assms(1) unfolding writes_def by (metis fst_conv snd_conv)
qed

lemma saveLocked_backup:
  assumes "saveLocked h c d = (None, c', d')" "c_Path c \<noteq> ''''" "temp_apart h (c_Path c @ ''.bak'')"
    and "contents (c_Path c) d = Some old" "trim_space old \<noteq> trim_space (js_indent (hs_codec h) c')"
  shows "contents (c_Path c @ ''.bak'') d' = Some old"
proof -
  let ?n = "normalize (hs_config h) c"
  have c': "c' = ?n" "write_config h ?n d = (None, d')"
    using assms(1,2) by (auto simp: saveLocked_def Let_def split: option.splits prod.splits)
  have path: "c_Path ?n = c_Path c" by (simp add: normalize_parts)
  have temps: "\<And>n. de_temp (hs_disk h) n \<noteq> c_Path c @ ''.bak''" using assms(3) by (simp add: temp_apart_def)
  from c'(2) obtain d1 d2 where steps: "simple_op (hs_disk h) (\<lambda>d. d) d = (None, d1)"
      "backupIfChanged (hs_disk h) (c_Path c) (js_indent (hs_codec h) ?n) d1 = (None, d2)"
      "atomicWriteFile (hs_disk h) (c_Path c) (file_text h ?n) d2 = (None, d')"
    by (auto simp: write_config_def and_then_None path)
  have "contents (c_Path c) d1 = Some old"
    using simple_op_frame [of "c_Path c" "\<lambda>d. d" "hs_disk h" d] steps(1) assms(4) by simp
  then have "contents (c_Path c @ ''.bak'') d2 = Some old"
    using backup_written [OF temps steps(2)] assms(5) c'(1) by simp
  moreover have "keeps (c_Path c @ ''.bak'') (atomicWriteFile (hs_disk h) (c_Path c) (file_text h ?n))"
    using temps by (intro keeps_atomic) simp_all
  ultimately show ?thesis using steps(3) by (metis keeps_def snd_conv)
qed

lemma restore_backup_works:
  assumes "working (hs_disk h)" "temp_apart h path" "contents (path @ ''.bak'') d = Some backup"
    and "js_decode (hs_codec h) (defaults (hs_config h) path) backup = Some c"
  obtains d' where "restore_backup h path data d =
      (Inr (c\<lparr>c_LoadWarning := restored_warning path (path @ ''.corrupt-'' @ de_seconds (hs_disk h) (Suc (dk_ops d)))\<rparr>), d')"
    "contents path d' = Some backup"
proof -
  let ?d = "d\<lparr>dk_ops := Suc (dk_ops d)\<rparr>"
  let ?corrupt = "path @ ''.corrupt-'' @ de_seconds (hs_disk h) (Suc (dk_ops d))"
  obtain d1 where d1: "atomicWriteFile (hs_disk h) ?corrupt data ?d = (None, d1)"
    using succeeds_atomic [OF assms(1)] unfolding succeeds_def by (metis prod.collapse)
  obtain d2 where d2: "atomicWriteFile (hs_disk h) path backup d1 = (None, d2)"
    using succeeds_atomic [OF assms(1)] unfolding succeeds_def by (metis prod.collapse)
  have "contents path d2 = Some backup"
    using writes_atomic [of "hs_disk h" path backup] assms(2) d2
    unfolding writes_def temp_apart_def by (metis fst_conv snd_conv)
  then show thesis
    using that d1 d2 assms(4) by (simp add: restore_backup_def read_file_works [OF assms(1)] assms(3))
qed


subsection \<open>An example\<close>

definition demo_saved :: "string \<Rightarrow> Config" where
  \<comment> \<open>the default configuration with a given token\<close>
  "demo_saved token = normalize demo_env (defaults (demo_env\<lparr>ce_token := token\<rparr>) ''/etc/kioskmate.json'')"

definition demo_config :: Config where
  "demo_config = demo_saved ''token''"

definition demo_disk_env :: disk_env where
  \<comment> \<open>the fourth operation fails\<close>
  "demo_disk_env = \<lparr>de_fault = (\<lambda>n. if n = 3 then Fails else Works), de_temp = (\<lambda>_. ''/etc/tmp''),
     de_stamp = (\<lambda>_. ''1''), de_seconds = (\<lambda>_. ''1'')\<rparr>"

definition demo_host :: host_env where
  "demo_host = \<lparr>hs_config = demo_env, hs_disk = demo_disk_env,
     hs_codec = \<lparr>js_indent = (\<lambda>c. if adm_Token (c_Admin c) = ''token'' then ''{}'' else ''[]''), js_compact = (\<lambda>_. ''{}''),
       js_decode = (\<lambda>base t. if t = ''{}'' @ newline \<or> t = ''{}''
         then Some (demo_config\<lparr>c_Path := c_Path base, c_LoadWarning := c_LoadWarning base\<rparr>) else None)\<rparr>\<rparr>"

definition next_host :: host_env where
  "next_host = demo_host\<lparr>hs_disk := demo_disk_env\<lparr>de_fault := (\<lambda>_. Works)\<rparr>\<rparr>"

definition demo_store :: store where
  "demo_store = \<lparr>so_config = demo_config, so_changed = False,
     so_disk = \<lparr>dk_files = [(''/etc/kioskmate.json'', ''{}'' @ newline)], dk_ops = 0\<rparr>\<rparr>"

lemma demo_saved_facts:
  assumes "pages_settled (c_Kiosk (demo_saved token))"
  shows "c_Path (demo_saved token) = ''/etc/kioskmate.json''" "normalize demo_env (demo_saved token) = demo_saved token"
    "hide_password_flag (demo_saved token) = demo_saved token"
proof -
  show "c_Path (demo_saved token) = ''/etc/kioskmate.json''" by (simp add: demo_saved_def normalize_parts)
  show "normalize demo_env (demo_saved token) = demo_saved token"
    using assms unfolding demo_saved_def by (intro normalize_idempotent) (simp_all add: demo_env_def)
  have "\<not> mq_PasswordConfigured (c_MQTT (demo_saved token))" by (simp add: demo_saved_def normalize_parts)
  then show "hide_password_flag (demo_saved token) = demo_saved token" by (simp add: hide_password_flag_def)
qed

lemma demo_settled: "pages_settled (c_Kiosk (demo_saved ''token''))" "pages_settled (c_Kiosk (demo_saved ''other''))"
  unfolding demo_saved_def by code_simp+

lemma demo_valid: "Validate demo_env (demo_saved ''token'') = None" "Validate demo_env (demo_saved ''other'') = None"
  unfolding demo_saved_def by code_simp+

lemma demo_token: "token \<noteq> '''' \<Longrightarrow> adm_Token (c_Admin (demo_saved token)) = token"
  by (simp add: demo_saved_def normalize_def Let_def migrateSchema_current defaults_def currentConfigVersion_def
      normalize_admin_def)

lemmas demo_config_facts = demo_saved_facts [OF demo_settled(1), folded demo_config_def] demo_settled(1) [folded demo_config_def]

lemma demo_host_facts [simp]:
  "temp_apart demo_host ''/etc/kioskmate.json''" "temp_apart next_host ''/etc/kioskmate.json''"
  "temp_apart next_host ''/etc/kioskmate.json.bak''"
  "hs_config demo_host = demo_env" "hs_config next_host = demo_env" "hs_codec next_host = hs_codec demo_host"
  "working (hs_disk next_host)" "ce_token demo_env \<noteq> ''''"
  by (simp_all add: temp_apart_def demo_host_def next_host_def demo_disk_env_def working_def demo_env_def)

lemma demo_texts:
  "file_text demo_host demo_config = ''{}'' @ newline" "file_text next_host demo_config = ''{}'' @ newline"
  by (simp_all add: demo_config_def file_text_def demo_host_def next_host_def demo_token)

lemma demo_codec: "codec_reads demo_host demo_config" "codec_reads next_host demo_config"
  unfolding codec_reads_def demo_texts by (simp_all add: demo_host_def next_host_def)

lemma demo_store_ok: "store_ok demo_host demo_store"
proof -
  have "demo_config \<in> range (normalize demo_env)" by (simp add: demo_config_def demo_saved_def)
  then show ?thesis
    using demo_valid by (simp add: store_ok_def demo_store_def demo_config_facts contents_def demo_texts)
       (simp add: demo_config_def)
qed

lemma demo_replace:
  assumes "so_config s = demo_config"
  shows "so_config (snd (attempt demo_host (Replacing (Some demo_config)) s)) = demo_config"
proof -
  have same: "c\<lparr>c_Path := c_Path c\<rparr> = c" for c :: Config by simp
  have "attempt demo_host (Replacing (Some demo_config)) s = save_next demo_host demo_config s"
    using same [of demo_config] assms by (simp only: attempt.simps Replace_def option.case)
  moreover have "so_config (snd (save_next demo_host demo_config s)) = demo_config"
    by (cases rule: save_next_cases [of demo_host demo_config s])
       (use demo_config_facts assms in simp_all)
  ultimately show ?thesis by (simp only:)
qed

abbreviation demo_ops :: "store_op list" where
  "demo_ops \<equiv> [Replacing (Some demo_config), Mutating (\<lambda>_. Inl ''refused''), Taking_change]"

lemma demo_store_run: "so_config (run_store demo_host demo_ops demo_store) = demo_config"
proof -
  have "so_config (snd (Mutate demo_host (\<lambda>_. Inl e) s)) = so_config s" for e s
    by (simp add: Mutate_def split: option.split)
  then show ?thesis
    using demo_replace [of demo_store] by (simp add: run_store_def take_change_def demo_store_def)
qed

lemma demo_store_path [simp]: "c_Path (so_config demo_store) = ''/etc/kioskmate.json''"
  by (simp add: demo_store_def demo_config_facts)

lemma demo_ops_path: "list_all path_kept demo_ops"
  by (simp add: path_kept_def)

lemma memory_matches_file_witness:
  "store_ok demo_host (run_store demo_host demo_ops demo_store)"
proof -
  have "path_kept Taking_change" by (simp add: path_kept_def)
  then show ?thesis
    using memory_matches_file [OF demo_store_ok _ demo_ops_path _ refl, of Taking_change] by simp
qed



end
