(* ===== verification/Admin_Auth.thy ===== *)
theory Admin_Auth
  imports Config_Store
begin

section \<open>Signing in to the Admin server\<close>

text \<open>
  Passwords, sessions, login limits and the guard in front of the protected handlers of
  \<^verbatim>\<open>internal/admin/server.go\<close>. A session is stored under the hash of its cookie. The maps of the code
  are association lists, whose order is the order in which the code happens to go through the map.
  The clock, random numbers, hash functions and the parsing of addresses are the record
  \<open>auth_env\<close>; a request is the record of what the handlers read of it. Answers are a datatype; the
  texts of the error messages that come from libraries are left out. The mutex makes each block of a
  handler atomic; a handler is modelled as a whole, with one time of day.
\<close>

record Session =
  ss_ID :: string
  ss_CSRF :: string
  ss_Created :: time
  ss_LastSeen :: time
  ss_Remote :: string
  ss_UserAgent :: string

record auth_env =
  ae_now :: time
  ae_sha256 :: "string \<Rightarrow> string" \<comment> \<open>in hexadecimal digits\<close>
  ae_isHex :: "string \<Rightarrow> bool" \<comment> \<open>\<^verbatim>\<open>hex.DecodeString\<close> accepts the text\<close>
  ae_cookie :: string \<comment> \<open>\<^verbatim>\<open>randomID(32)\<close>\<close>
  ae_csrf :: string \<comment> \<open>\<^verbatim>\<open>randomID(24)\<close>\<close>
  ae_salt :: "string option" \<comment> \<open>sixteen random bytes, or the error of the source\<close>
  ae_base64 :: "string \<Rightarrow> string"
  ae_unbase64 :: "string \<Rightarrow> string option"
  ae_argon2 :: "string \<Rightarrow> string \<Rightarrow> int \<Rightarrow> int \<Rightarrow> int \<Rightarrow> nat \<Rightarrow> string"
  ae_hmac :: "string \<Rightarrow> string \<Rightarrow> string" \<comment> \<open>key, message\<close>
  ae_params :: "string \<Rightarrow> (int \<times> int \<times> int) option" \<comment> \<open>\<^verbatim>\<open>fmt.Sscanf\<close> of the parameters\<close>
  ae_splitHost :: "string \<Rightarrow> string option"
  ae_originHost :: "string \<Rightarrow> string option" \<comment> \<open>the host of an origin that \<^verbatim>\<open>url.Parse\<close> accepts\<close>
  ae_loopback :: "string \<Rightarrow> bool"
  ae_writable :: bool \<comment> \<open>the session file can be written\<close>

record credentials =
  cr_Token :: string
  cr_Password :: string
  cr_Current :: string
  cr_Next :: string

record request =
  rq_Method :: string
  rq_RemoteAddr :: string
  rq_UserAgent :: string
  rq_Cookie :: "string option"
  rq_Token :: string \<comment> \<open>header \<^verbatim>\<open>X-KioskMate-Token\<close>\<close>
  rq_Authorization :: string
  rq_CSRF :: string \<comment> \<open>header \<^verbatim>\<open>X-KioskMate-CSRF\<close>\<close>
  rq_Origin :: string
  rq_Host :: string
  rq_TLS :: bool
  rq_ForwardedProto :: string
  rq_Body :: "credentials option" \<comment> \<open>None: the body is not valid JSON\<close>

record server =
  sv_store :: store
  sv_sessions :: "(string \<times> Session) list"
  sv_attempts :: "(string \<times> time list) list"
  sv_file :: "(string \<times> Session) list option" \<comment> \<open>the session file, decoded\<close>
  sv_audit :: "(string \<times> string) list" \<comment> \<open>action and status of the audit events\<close>

datatype answer =
    Accepted string \<comment> \<open>with the CSRF token of the session\<close>
  | Done | Session_list "Session list" | Method_not_allowed | Setup_completed | Rate_limited int
  | Bad_request | Invalid_token | Weak_password | Internal_error | Invalid_credentials | Wrong_password
  | Unauthorized | Origin_rejected | Csrf_rejected

definition loginAttemptWindow :: duration where "loginAttemptWindow = 5 * Minute"
definition loginAttemptLimit :: nat where "loginAttemptLimit = 10"
definition maxAttemptClients :: nat where "maxAttemptClients = 256"

definition admin_config :: "server \<Rightarrow> AdminConfig" where
  "admin_config s = c_Admin (Snapshot (sv_store s))"

subsection \<open>Passwords\<close>

definition argonMemory :: int where "argonMemory = 65536"

definition HashPassword :: "auth_env \<Rightarrow> string \<Rightarrow> string option" where
  "HashPassword env password =
     map_option (\<lambda>salt. ''argon2id$v=19$m=65536,t=3,p=2$'' @ ae_base64 env salt @ ''$'' @
       ae_base64 env (ae_argon2 env password salt 3 argonMemory 2 32)) (ae_salt env)"

definition verifyArgon2ID :: "auth_env \<Rightarrow> string \<Rightarrow> string \<Rightarrow> bool" where
  "verifyArgon2ID env password encoded =
     (let parts = split_at CHR ''$'' encoded in
      if length parts \<noteq> 5 \<or> parts ! 0 \<noteq> ''argon2id'' \<or> parts ! 1 \<noteq> ''v=19'' then False
      else case ae_params env (parts ! 2) of
        None \<Rightarrow> False
      | Some (memory, iterations, parallelism) \<Rightarrow>
          if memory < 8192 \<or> 262144 < memory \<or> iterations < 1 \<or> 10 < iterations \<or> parallelism < 1 \<or> 8 < parallelism
          then False
          else case (ae_unbase64 env (parts ! 3), ae_unbase64 env (parts ! 4)) of
            (Some salt, Some want) \<Rightarrow>
              16 \<le> length salt \<and> 16 \<le> length want \<and> length want \<le> 64 \<and>
              ae_argon2 env password salt iterations memory parallelism (length want) = want
          | _ \<Rightarrow> False)"

definition passwordDigest :: "auth_env \<Rightarrow> string \<Rightarrow> string \<Rightarrow> int \<Rightarrow> string" where
  "passwordDigest env password salt iterations =
     (ae_hmac env password ^^ nat (iterations - 1)) (ae_hmac env password salt)"

definition verifyLegacyPassword :: "auth_env \<Rightarrow> string \<Rightarrow> string \<Rightarrow> bool" where
  "verifyLegacyPassword env password encoded =
     (let parts = split_at CHR ''$'' encoded in
      if length parts \<noteq> 4 \<or> parts ! 0 \<noteq> ''sha256iter'' then False
      else case (atoi (parts ! 1), ae_unbase64 env (parts ! 2), ae_unbase64 env (parts ! 3)) of
        (Some iterations, Some salt, Some want) \<Rightarrow>
          10000 \<le> iterations \<and> passwordDigest env password salt iterations = want
      | _ \<Rightarrow> False)"

definition VerifyPassword :: "auth_env \<Rightarrow> string \<Rightarrow> string \<Rightarrow> bool" where
  "VerifyPassword env password encoded =
     (if has_prefix encoded ''argon2id$'' then verifyArgon2ID env password encoded
      else verifyLegacyPassword env password encoded)"

definition weak_password :: "string \<Rightarrow> bool" where
  \<comment> \<open>\<^verbatim>\<open>validatePassword\<close> returns an error\<close>
  "weak_password password \<longleftrightarrow> length password < 8"

subsection \<open>What a request shows\<close>

definition remoteIP :: "auth_env \<Rightarrow> request \<Rightarrow> string" where
  "remoteIP env r = (case ae_splitHost env (rq_RemoteAddr r) of Some host \<Rightarrow> host | None \<Rightarrow> rq_RemoteAddr r)"

definition validToken :: "server \<Rightarrow> request \<Rightarrow> bool" where
  "validToken s r =
     (let token = (if rq_Token r = '''' then trim_prefix (rq_Authorization r) ''Bearer '' else rq_Token r);
          stored = adm_Token (admin_config s)
      in token \<noteq> '''' \<and> stored \<noteq> '''' \<and> token = stored)"

definition sameOrigin :: "auth_env \<Rightarrow> request \<Rightarrow> bool" where
  "sameOrigin env r =
     (let origin = trim_space (rq_Origin r) in
      if origin = '''' then True
      else case ae_originHost env origin of None \<Rightarrow> False | Some host \<Rightarrow> equal_fold host (rq_Host r))"

definition requestIsHTTPS :: "auth_env \<Rightarrow> request \<Rightarrow> bool" where
  "requestIsHTTPS env r =
     (if rq_TLS r then True
      else if \<not> equal_fold (trim_space (rq_ForwardedProto r)) ''https'' then False
      else ae_loopback env (trim_space (remoteIP env r)))"

subsection \<open>Sessions\<close>

definition sessionKey :: "auth_env \<Rightarrow> string \<Rightarrow> string" where
  "sessionKey env token = ae_sha256 env token"

definition sessionFingerprint :: "string \<Rightarrow> string" where
  "sessionFingerprint key = (if 12 < length key then take 12 key else key)"

definition isSessionHash :: "auth_env \<Rightarrow> string \<Rightarrow> bool" where
  "isSessionHash env v \<longleftrightarrow> length v = 64 \<and> ae_isHex env v"

definition session_alive :: "time \<Rightarrow> Session \<Rightarrow> bool" where
  "session_alive now ss \<longleftrightarrow> now - ss_Created ss \<le> 7 * 24 * Hour \<and> now - ss_LastSeen ss \<le> 24 * Hour"

definition pruneSessions :: "time \<Rightarrow> server \<Rightarrow> server" where
  "pruneSessions now s = s\<lparr>sv_sessions := filter (\<lambda>(k, ss). session_alive now ss) (sv_sessions s)\<rparr>"

definition persistSessions :: "auth_env \<Rightarrow> server \<Rightarrow> server" where
  "persistSessions env s =
     (if c_Path (Snapshot (sv_store s)) = '''' \<or> \<not> ae_writable env then s
      else s\<lparr>sv_file := Some (sv_sessions s)\<rparr>)"

definition migrate_session :: "auth_env \<Rightarrow> string \<times> Session \<Rightarrow> string \<times> Session" where
  \<comment> \<open>a round of the loop of \<^verbatim>\<open>loadSessions\<close>\<close>
  "migrate_session env e =
     (case e of (key, ss) \<Rightarrow>
        (let stored = (if isSessionHash env key then key else sessionKey env key);
             ss = (if ss_ID ss = '''' \<or> ss_ID ss = key then ss\<lparr>ss_ID := sessionFingerprint stored\<rparr> else ss);
             ss = (if ss_CSRF ss = '''' then ss\<lparr>ss_CSRF := ae_csrf env\<rparr> else ss)
         in (stored, ss)))"

definition loadSessions :: "auth_env \<Rightarrow> server \<Rightarrow> server" where
  "loadSessions env s =
     (case sv_file s of
        None \<Rightarrow> s
      | Some saved \<Rightarrow>
          if c_Path (Snapshot (sv_store s)) = '''' then s
          else persistSessions env (pruneSessions (ae_now env)
                 (s\<lparr>sv_sessions := fold (\<lambda>(k, ss). AList.update k ss) (map (migrate_session env) saved) []\<rparr>)))"

definition NewServer :: "auth_env \<Rightarrow> store \<Rightarrow> (string \<times> Session) list option \<Rightarrow> server" where
  "NewServer env st saved =
     loadSessions env \<lparr>sv_store = st, sv_sessions = [], sv_attempts = [], sv_file = saved, sv_audit = []\<rparr>"

fun oldest_from :: "string \<Rightarrow> time \<Rightarrow> (string \<times> Session) list \<Rightarrow> string" where
  "oldest_from i t [] = i"
| "oldest_from i t ((k, s) # ss) =
     (if i = '''' \<or> ss_LastSeen s < t then oldest_from k (ss_LastSeen s) ss else oldest_from i t ss)"

definition oldest_session :: "(string \<times> Session) list \<Rightarrow> string" where
  "oldest_session ss = oldest_from '''' zero_time ss"

lemma oldest_from_mem: "oldest_from i t ss \<in> insert i (fst ` set ss)"
  by (induction i t ss rule: oldest_from.induct) auto

lemma oldest_session_mem:
  assumes "ss \<noteq> []"
  shows "oldest_session ss \<in> fst ` set ss"
proof (cases ss)
  case (Cons e es)
  then show ?thesis
    using oldest_from_mem [of "fst e" "ss_LastSeen (snd e)" es] by (cases e) (simp add: oldest_session_def)
qed (use assms in simp)

lemma length_delete_key: "k \<in> fst ` set xs \<Longrightarrow> length (AList.delete k xs) < length xs"
  by (induction xs) (auto simp: AList.delete_eq le_imp_less_Suc)

function evict_sessions :: "(string \<times> Session) list \<Rightarrow> (string \<times> Session) list" where
  \<comment> \<open>the loop of \<^verbatim>\<open>createSession\<close>: at most 32 sessions, the least recently seen go first\<close>
  "evict_sessions ss = (if 32 < length ss then evict_sessions (AList.delete (oldest_session ss) ss) else ss)"
  by pat_completeness auto
termination
proof (relation "measure length")
  fix ss :: "(string \<times> Session) list" assume "32 < length ss"
  then have "oldest_session ss \<in> fst ` set ss" by (intro oldest_session_mem) auto
  then show "(AList.delete (oldest_session ss) ss, ss) \<in> measure length"
    using length_delete_key by simp
qed simp

declare evict_sessions.simps [simp del]

definition new_session :: "auth_env \<Rightarrow> request \<Rightarrow> Session" where
  "new_session env r =
     \<lparr>ss_ID = sessionFingerprint (sessionKey env (ae_cookie env)), ss_CSRF = ae_csrf env, ss_Created = ae_now env,
      ss_LastSeen = ae_now env, ss_Remote = remoteIP env r, ss_UserAgent = rq_UserAgent r\<rparr>"

definition createSession :: "auth_env \<Rightarrow> request \<Rightarrow> server \<Rightarrow> Session \<times> server" where
  "createSession env r s =
     (let session = new_session env r;
          s = pruneSessions (ae_now env) s;
          s = s\<lparr>sv_sessions := evict_sessions
                 (AList.update (sessionKey env (ae_cookie env)) session (sv_sessions s))\<rparr>
      in (session, persistSessions env s))"

definition authenticated :: "auth_env \<Rightarrow> request \<Rightarrow> server \<Rightarrow> bool \<times> server" where
  "authenticated env r s =
     (if validToken s r then (True, s)
      else case rq_Cookie r of
        None \<Rightarrow> (False, s)
      | Some cookie \<Rightarrow>
          if cookie = '''' then (False, s)
          else
            (let s = pruneSessions (ae_now env) s; key = sessionKey env cookie in
             case map_of (sv_sessions s) key of
               None \<Rightarrow> (False, s)
             | Some session \<Rightarrow>
                 (let persist = (5 * Minute \<le> ae_now env - ss_LastSeen session);
                      s = s\<lparr>sv_sessions := AList.update key (session\<lparr>ss_LastSeen := ae_now env\<rparr>) (sv_sessions s)\<rparr>
                  in (True, if persist then persistSessions env s else s))))"

definition sessionCSRF :: "auth_env \<Rightarrow> server \<Rightarrow> request \<Rightarrow> string" where
  "sessionCSRF env s r =
     (case rq_Cookie r of
        None \<Rightarrow> ''''
      | Some cookie \<Rightarrow>
          if cookie = '''' then ''''
          else (case map_of (sv_sessions s) (sessionKey env cookie) of
                  None \<Rightarrow> '''' | Some session \<Rightarrow> ss_CSRF session))"

definition validCSRF :: "auth_env \<Rightarrow> server \<Rightarrow> request \<Rightarrow> bool" where
  "validCSRF env s r =
     (let want = sessionCSRF env s r; got = trim_space (rq_CSRF r)
      in want \<noteq> '''' \<and> got \<noteq> '''' \<and> want = got)"

subsection \<open>Login limits\<close>

definition allowAttempt :: "auth_env \<Rightarrow> request \<Rightarrow> server \<Rightarrow> (bool \<times> duration) \<times> server" where
  "allowAttempt env r s =
     (let cutoff = ae_now env - loginAttemptWindow;
          attempts = filter (\<lambda>(c, ts). ts \<noteq> [])
            (map (\<lambda>(c, ts). (c, filter (\<lambda>t. cutoff < t) ts)) (sv_attempts s));
          kept = (case map_of attempts (remoteIP env r) of None \<Rightarrow> [] | Some ts \<Rightarrow> ts);
          s = s\<lparr>sv_attempts := attempts\<rparr>
      in if length kept < loginAttemptLimit then ((True, 0), s)
         else ((False, max Second (hd kept + loginAttemptWindow - ae_now env)), s))"

fun oldest_client :: "string \<Rightarrow> time \<Rightarrow> (string \<times> time list) list \<Rightarrow> string" where
  "oldest_client i t [] = i"
| "oldest_client i t ((c, ts) # cs) =
     (if ts = [] then c
      else if i = '''' \<or> last ts < t then oldest_client c (last ts) cs
      else oldest_client i t cs)"

definition recordFailedAttempt :: "auth_env \<Rightarrow> request \<Rightarrow> server \<Rightarrow> server" where
  "recordFailedAttempt env r s =
     (let key = remoteIP env r; cs = sv_attempts s;
          cs = (if map_of cs key = None \<and> maxAttemptClients \<le> length cs
                then AList.delete (oldest_client '''' zero_time cs) cs else cs);
          ts = (case map_of cs key of None \<Rightarrow> [] | Some ts \<Rightarrow> ts)
      in s\<lparr>sv_attempts := AList.update key (ts @ [ae_now env]) cs\<rparr>)"

definition clearAttempts :: "auth_env \<Rightarrow> request \<Rightarrow> server \<Rightarrow> server" where
  "clearAttempts env r s = s\<lparr>sv_attempts := AList.delete (remoteIP env r) (sv_attempts s)\<rparr>"

subsection \<open>Handlers\<close>

type_synonym handler = "request \<Rightarrow> server \<Rightarrow> answer \<times> server"

definition audit :: "string \<Rightarrow> string \<Rightarrow> server \<Rightarrow> server" where
  "audit action status s = s\<lparr>sv_audit := sv_audit s @ [(action, status)]\<rparr>"

definition mutate_server :: "host_env \<Rightarrow> (Config \<Rightarrow> string + Config) \<Rightarrow> server \<Rightarrow> store_error option \<times> server" where
  "mutate_server h f s = (case Mutate h f (sv_store s) of (e, st) \<Rightarrow> (e, s\<lparr>sv_store := st\<rparr>))"

definition set_password :: "string \<Rightarrow> Config \<Rightarrow> string + Config" where
  "set_password hash c = Inr (c\<lparr>c_Admin := (c_Admin c)\<lparr>adm_PasswordHash := hash\<rparr>\<rparr>)"

definition first_password :: "string \<Rightarrow> Config \<Rightarrow> string + Config" where
  \<comment> \<open>the change of \<^verbatim>\<open>authSetup\<close>, which looks again under the lock\<close>
  "first_password hash c =
     (if adm_PasswordHash (c_Admin c) \<noteq> '''' then Inl ''setup already completed'' else set_password hash c)"

definition retry_seconds :: "duration \<Rightarrow> int" where
  "retry_seconds d = quot64 d Second"

definition start_session :: "auth_env \<Rightarrow> string \<Rightarrow> handler" where
  \<comment> \<open>the common end of a successful setup and login\<close>
  "start_session env action r s =
     (case createSession env r (clearAttempts env r s) of
        (session, s) \<Rightarrow> (Accepted (ss_CSRF session), audit action ''ok'' s))"

definition commit_setup :: "auth_env \<Rightarrow> host_env \<Rightarrow> string \<Rightarrow> handler" where
  \<comment> \<open>the end of \<^verbatim>\<open>authSetup\<close>, from the change of the configuration\<close>
  "commit_setup env h hash r s =
     (case mutate_server h (first_password hash) s of
        (Some (Refused e), s) \<Rightarrow> (Setup_completed, s)
      | (Some e, s) \<Rightarrow> (Internal_error, s)
      | (None, s) \<Rightarrow> start_session env ''setup'' r s)"

definition authSetup :: "auth_env \<Rightarrow> host_env \<Rightarrow> handler" where
  "authSetup env h r s =
     (if rq_Method r \<noteq> ''POST'' then (Method_not_allowed, s)
      else if adm_PasswordHash (admin_config s) \<noteq> '''' then (Setup_completed, s)
      else case allowAttempt env r s of
        ((False, retry), s) \<Rightarrow> (Rate_limited (retry_seconds retry), audit ''setup'' ''rate_limited'' s)
      | ((True, _), s) \<Rightarrow>
          (case rq_Body r of
             None \<Rightarrow> (Bad_request, s)
           | Some body \<Rightarrow>
               if cr_Token body \<noteq> adm_Token (admin_config s) then
                 (Invalid_token, audit ''setup'' ''failed'' (recordFailedAttempt env r s))
               else if weak_password (cr_Password body) then (Weak_password, s)
               else case HashPassword env (cr_Password body) of
                 None \<Rightarrow> (Internal_error, s)
               | Some hash \<Rightarrow> commit_setup env h hash r s))"

definition login_ok :: "auth_env \<Rightarrow> credentials \<Rightarrow> server \<Rightarrow> bool" where
  "login_ok env body s =
     (let admin = admin_config s in
      if adm_PasswordHash admin \<noteq> '''' then VerifyPassword env (cr_Password body) (adm_PasswordHash admin)
      else cr_Token body \<noteq> '''' \<and> cr_Token body = adm_Token admin)"

definition upgrade_hash :: "auth_env \<Rightarrow> host_env \<Rightarrow> string \<Rightarrow> server \<Rightarrow> server" where
  \<comment> \<open>a login with an old kind of hash replaces it\<close>
  "upgrade_hash env h password s =
     (if has_prefix (adm_PasswordHash (admin_config s)) ''sha256iter$'' then
        (case HashPassword env password of
           None \<Rightarrow> s | Some hash \<Rightarrow> snd (mutate_server h (set_password hash) s))
      else s)"

definition authLogin :: "auth_env \<Rightarrow> host_env \<Rightarrow> handler" where
  "authLogin env h r s =
     (if rq_Method r \<noteq> ''POST'' then (Method_not_allowed, s)
      else case allowAttempt env r s of
        ((False, retry), s) \<Rightarrow> (Rate_limited (retry_seconds retry), audit ''login'' ''rate_limited'' s)
      | ((True, _), s) \<Rightarrow>
          (case rq_Body r of
             None \<Rightarrow> (Bad_request, s)
           | Some body \<Rightarrow>
               if \<not> login_ok env body s then
                 (Invalid_credentials, audit ''login'' ''failed'' (recordFailedAttempt env r s))
               else start_session env ''login'' r (upgrade_hash env h (cr_Password body) s)))"

definition authLogout :: "auth_env \<Rightarrow> handler" where
  "authLogout env r s =
     (if rq_Method r \<noteq> ''POST'' then (Method_not_allowed, s)
      else
        (let s = (case rq_Cookie r of
                    None \<Rightarrow> s
                  | Some cookie \<Rightarrow> persistSessions env
                      (s\<lparr>sv_sessions := AList.delete (sessionKey env cookie) (sv_sessions s)\<rparr>))
         in (Done, audit ''logout'' ''ok'' s)))"

definition authSessions :: "auth_env \<Rightarrow> handler" where
  "authSessions env r s =
     (if rq_Method r \<noteq> ''GET'' then (Method_not_allowed, s)
      else
        (let s = pruneSessions (ae_now env) s
         in (Session_list (map (\<lambda>(k, ss). ss\<lparr>ss_CSRF := ''''\<rparr>) (sv_sessions s)), s)))"

definition end_all_sessions :: "auth_env \<Rightarrow> server \<Rightarrow> server" where
  "end_all_sessions env s = persistSessions env (s\<lparr>sv_sessions := []\<rparr>)"

definition authLogoutAll :: "auth_env \<Rightarrow> handler" where
  "authLogoutAll env r s =
     (if rq_Method r \<noteq> ''POST'' then (Method_not_allowed, s)
      else (Done, audit ''logout_all'' ''ok'' (end_all_sessions env s)))"

definition authPassword :: "auth_env \<Rightarrow> host_env \<Rightarrow> handler" where
  "authPassword env h r s =
     (if rq_Method r \<noteq> ''POST'' then (Method_not_allowed, s)
      else case rq_Body r of
        None \<Rightarrow> (Bad_request, s)
      | Some body \<Rightarrow>
          (let old = adm_PasswordHash (admin_config s) in
           if old \<noteq> '''' \<and> \<not> VerifyPassword env (cr_Current body) old then (Wrong_password, s)
           else if weak_password (cr_Next body) then (Weak_password, s)
           else case HashPassword env (cr_Next body) of
             None \<Rightarrow> (Internal_error, s)
           | Some hash \<Rightarrow>
               (case mutate_server h (set_password hash) s of
                  (Some e, s) \<Rightarrow> (Internal_error, s)
                | (None, s) \<Rightarrow> (Done, audit ''password_change'' ''ok'' (end_all_sessions env s)))))"

definition auth :: "auth_env \<Rightarrow> handler \<Rightarrow> handler" where
  \<comment> \<open>the guard in front of a protected handler\<close>
  "auth env handler r s =
     (case authenticated env r s of
        (False, s) \<Rightarrow> (Unauthorized, s)
      | (True, s) \<Rightarrow>
          if rq_Method r \<noteq> ''GET'' \<and> rq_Method r \<noteq> ''HEAD'' \<and> \<not> validToken s r then
            (if \<not> sameOrigin env r then (Origin_rejected, s)
             else if \<not> validCSRF env s r then (Csrf_rejected, s)
             else handler r s)
          else handler r s)"

record auth_status =
  at_authenticated :: bool
  at_setupRequired :: bool
  at_rateLimited :: bool
  at_retry :: duration
  at_csrf :: string

definition authStatus :: "auth_env \<Rightarrow> request \<Rightarrow> server \<Rightarrow> auth_status \<times> server" where
  "authStatus env r s0 =
     (case authenticated env r s0 of
        (signed_in, s) \<Rightarrow>
          (case allowAttempt env r s of
             ((allowed, retry), s) \<Rightarrow>
               (\<lparr>at_authenticated = signed_in,
                 at_setupRequired = (adm_PasswordHash (admin_config s0) = ''''),
                 at_rateLimited = (\<not> allowed), at_retry = retry,
                 at_csrf = (if signed_in then sessionCSRF env s r else '''')\<rparr>, s)))"

text \<open>The requests the server answers about sessions, with the environment of each.\<close>

datatype endpoint = Status | Setup | Login | Logout | Sessions | Logout_all | Password | Other

definition serve :: "host_env \<Rightarrow> handler \<Rightarrow> auth_env \<times> endpoint \<times> request \<Rightarrow> server \<Rightarrow> answer \<times> server" where
  \<comment> \<open>the routes of \<^verbatim>\<open>ListenAndServe\<close>; the second argument stands for the other protected handlers\<close>
  "serve h other e s =
     (case e of (env, p, r) \<Rightarrow>
        (case p of
           Status \<Rightarrow> (Done, snd (authStatus env r s))
         | Setup \<Rightarrow> authSetup env h r s
         | Login \<Rightarrow> authLogin env h r s
         | Logout \<Rightarrow> authLogout env r s
         | Sessions \<Rightarrow> auth env (authSessions env) r s
         | Logout_all \<Rightarrow> auth env (authLogoutAll env) r s
         | Password \<Rightarrow> auth env (authPassword env h) r s
         | Other \<Rightarrow> auth env other r s))"

definition serve_all :: "host_env \<Rightarrow> handler \<Rightarrow> (auth_env \<times> endpoint \<times> request) list \<Rightarrow> server \<Rightarrow> server" where
  "serve_all h other rs s = fold (\<lambda>e s. snd (serve h other e s)) rs s"

end
