(* ===== verification/Admin_Config.thy ===== *)
theory Admin_Config
  imports Admin_Auth Config_Conflicts
begin

section \<open>The configuration in the Admin server\<close>

text \<open>
  Reading, saving, importing, restoring and repairing the configuration through the handlers of
  \<^verbatim>\<open>internal/admin/server.go\<close>, the single settings other pages change, and the removal of secrets from
  the diagnostics export. What the client sends is decoded by the codec of the store; the hash of a
  revision is a parameter. A save is modelled in its two steps: the request is decoded against the
  configuration of that moment, and committed under the lock \<^verbatim>\<open>configMu\<close>.
\<close>

record config_request =
  cq_Method :: string
  cq_Data :: string
  cq_Force :: bool \<comment> \<open>\<^verbatim>\<open>?force=1\<close>\<close>
  cq_DryRun :: bool
  cq_Path :: string

record configPreview =
  cp_PagesBefore :: nat
  cp_PagesAfter :: nat
  cp_KioskChanged :: bool
  cp_BrowserSettingsChanged :: bool
  cp_MQTTChanged :: bool
  cp_AdminChanged :: bool
  cp_TimeChanged :: bool
  cp_UpdateChanged :: bool
  cp_RequiresBrowserRestart :: bool
  cp_RequiresServiceRestart :: bool

datatype config_answer =
    Shown Config string \<comment> \<open>the public configuration and its revision\<close>
  | Saved "Conflict list" string | Preview configPreview | Success | Issues "repair_issue list"
  | Exported string | Backups "string list"
  | Bad_config store_error | Changed_elsewhere string | Not_restorable | Not_allowed | Failed store_error
  | Restart_failed

subsection \<open>What clients see\<close>

definition hide_key :: "LocalPage \<Rightarrow> LocalPage" where
  "hide_key l = l\<lparr>loc_ImmichKeyConfigured := (loc_ImmichAPIKey l \<noteq> ''''), loc_ImmichAPIKey := ''''\<rparr>"

definition publicConfigSnapshot :: "Config \<Rightarrow> Config" where
  "publicConfigSnapshot c =
     c\<lparr>c_MQTT := (c_MQTT c)\<lparr>mq_PasswordConfigured := (mq_Password (c_MQTT c) \<noteq> ''''), mq_Password := ''''\<rparr>,
       c_Admin := (c_Admin c)\<lparr>adm_Token := '''', adm_PasswordHash := ''''\<rparr>,
       c_Kiosk := (c_Kiosk c)\<lparr>k_Pages := map (pg_Local_update (map_option hide_key)) (k_Pages (c_Kiosk c))\<rparr>\<rparr>"

definition publicConfig :: "store \<Rightarrow> Config" where
  "publicConfig st = publicConfigSnapshot (Snapshot st)"

definition configRevision :: "(Config \<Rightarrow> string) \<Rightarrow> Config \<Rightarrow> string" where
  \<comment> \<open>the first argument hashes the encoding of a configuration\<close>
  "configRevision digest c = digest (c\<lparr>c_Revision := ''''\<rparr>)"

subsection \<open>What clients send\<close>

definition keep_key :: "(string \<times> string) list \<Rightarrow> string \<Rightarrow> LocalPage \<Rightarrow> LocalPage" where
  "keep_key stored pageID l =
     l\<lparr>loc_ImmichAPIKey := (if loc_ImmichAPIKey l = ''''
          then (case map_of stored pageID of None \<Rightarrow> '''' | Some key \<Rightarrow> key) else loc_ImmichAPIKey l),
       loc_ImmichKeyConfigured := False\<rparr>"

definition stored_keys :: "Config \<Rightarrow> (string \<times> string) list" where
  \<comment> \<open>the map of the keys, the last page with an identifier first\<close>
  "stored_keys c =
     rev (List.map_filter (\<lambda>p. case pg_Local p of
         None \<Rightarrow> None
       | Some l \<Rightarrow> if loc_ImmichAPIKey l = '''' then None else Some (pg_PageID p, loc_ImmichAPIKey l)) (k_Pages (c_Kiosk c)))"

definition keepImmichKeys :: "Config \<Rightarrow> Config \<Rightarrow> Config" where
  "keepImmichKeys current c =
     c\<lparr>c_Kiosk := (c_Kiosk c)\<lparr>k_Pages :=
         map (\<lambda>p. pg_Local_update (map_option (keep_key (stored_keys current) (pg_PageID p))) p) (k_Pages (c_Kiosk c))\<rparr>\<rparr>"

definition keep_secrets :: "Config \<Rightarrow> Config \<Rightarrow> Config" where
  \<comment> \<open>what \<^verbatim>\<open>decodeConfig\<close> does to the decoded configuration\<close>
  "keep_secrets current c =
     (keepImmichKeys current
       (c\<lparr>c_Path := c_Path current,
          c_Admin := (c_Admin c)
            \<lparr>adm_Token := (if adm_Token (c_Admin c) = '''' then adm_Token (c_Admin current) else adm_Token (c_Admin c)),
             adm_PasswordHash := (if adm_PasswordHash (c_Admin c) = '''' then adm_PasswordHash (c_Admin current)
                                  else adm_PasswordHash (c_Admin c))\<rparr>,
          c_MQTT := (c_MQTT c)
            \<lparr>mq_Password := (if mq_Password (c_MQTT c) = '''' then mq_Password (c_MQTT current) else mq_Password (c_MQTT c)),
             mq_PasswordConfigured := False\<rparr>\<rparr>))
     \<lparr>c_Revision := ''''\<rparr>"

definition decodeConfig :: "host_env \<Rightarrow> Config \<Rightarrow> string \<Rightarrow> store_error + Config" where
  "decodeConfig h current data =
     (case js_decode (hs_codec h) zero_config data of
        None \<Rightarrow> Inl Undecodable
      | Some c \<Rightarrow>
          (let c = keep_secrets current c in
           case Validate (hs_config h) c of Some e \<Rightarrow> Inl (Invalid e) | None \<Rightarrow> Inr c))"

definition base_revision :: "host_env \<Rightarrow> string \<Rightarrow> string" where
  \<comment> \<open>the revision a posted configuration is based on\<close>
  "base_revision h data =
     (case js_decode (hs_codec h) zero_config data of None \<Rightarrow> '''' | Some c \<Rightarrow> c_Revision c)"

subsection \<open>Handlers\<close>

definition commit_config ::
  "host_env \<Rightarrow> (Config \<Rightarrow> string) \<Rightarrow> config_request \<Rightarrow> Config \<Rightarrow> server \<Rightarrow> config_answer \<times> server" where
  \<comment> \<open>a save, from the lock on\<close>
  "commit_config h digest r c s =
     (let current = configRevision digest (publicConfig (sv_store s)); base = base_revision h (cq_Data r) in
      if base \<noteq> '''' \<and> base \<noteq> current \<and> \<not> cq_Force r then (Changed_elsewhere current, s)
      else case Replace h (Some c) (sv_store s) of
        (Some e, st) \<Rightarrow> (Bad_config e, s\<lparr>sv_store := st\<rparr>)
      | (None, st) \<Rightarrow>
          (Saved (Conflicts (c_Kiosk (so_config st))) (configRevision digest (publicConfig st)),
           audit ''config_save'' ''ok'' (s\<lparr>sv_store := st\<rparr>)))"

definition config_handler ::
  "host_env \<Rightarrow> (Config \<Rightarrow> string) \<Rightarrow> config_request \<Rightarrow> server \<Rightarrow> config_answer \<times> server" where
  "config_handler h digest r s =
     (if cq_Method r = ''GET'' then
        (Shown (publicConfig (sv_store s)) (configRevision digest (publicConfig (sv_store s))), s)
      else if cq_Method r = ''POST'' then
        (case decodeConfig h (Snapshot (sv_store s)) (cq_Data r) of
           Inl e \<Rightarrow> (Bad_config e, s)
         | Inr c \<Rightarrow> commit_config h digest r c s)
      else (Not_allowed, s))"

definition configChangeSummary :: "Config \<Rightarrow> Config \<Rightarrow> configPreview" where
  "configChangeSummary current c =
     (let kiosk = (c_Kiosk current \<noteq> c_Kiosk c);
          browser = (c_Performance current \<noteq> c_Performance c \<or> c_Watchdog current \<noteq> c_Watchdog c);
          admin = (c_Admin current \<noteq> c_Admin c)
      in \<lparr>cp_PagesBefore = PageCount (c_Kiosk current), cp_PagesAfter = PageCount (c_Kiosk c),
          cp_KioskChanged = kiosk, cp_BrowserSettingsChanged = browser,
          cp_MQTTChanged = (c_MQTT current \<noteq> c_MQTT c), cp_AdminChanged = admin,
          cp_TimeChanged = (c_Time current \<noteq> c_Time c), cp_UpdateChanged = (c_Update current \<noteq> c_Update c),
          cp_RequiresBrowserRestart = (kiosk \<or> browser), cp_RequiresServiceRestart = admin\<rparr>)"

definition take_over :: "host_env \<Rightarrow> string \<Rightarrow> bool \<Rightarrow> string \<Rightarrow> server \<Rightarrow> config_answer \<times> server" where
  \<comment> \<open>the common end of import and restore\<close>
  "take_over h action dry data s =
     (case decodeConfig h (Snapshot (sv_store s)) data of
        Inl e \<Rightarrow> (Bad_config e, s)
      | Inr c \<Rightarrow>
          if dry then (Preview (configChangeSummary (Snapshot (sv_store s)) c), s)
          else case Replace h (Some c) (sv_store s) of
            (Some e, st) \<Rightarrow> (Bad_config e, s\<lparr>sv_store := st\<rparr>)
          | (None, st) \<Rightarrow> (Success, audit action ''ok'' (s\<lparr>sv_store := st\<rparr>)))"

definition configImport :: "host_env \<Rightarrow> config_request \<Rightarrow> server \<Rightarrow> config_answer \<times> server" where
  "configImport h r s =
     (if cq_Method r \<noteq> ''POST'' then (Not_allowed, s)
      else take_over h ''config_import'' (cq_DryRun r) (cq_Data r) s)"

definition backupFiles :: "server \<Rightarrow> string list" where
  \<comment> \<open>the paths of the backups; their order by time is not modelled\<close>
  "backupFiles s =
     (let path = c_Path (so_config (sv_store s)); d = so_disk (sv_store s)
      in filter (\<lambda>p. contents p d \<noteq> None)
           (remdups ((path @ ''.bak'') #
             map (\<lambda>n. BackupDir path @ ''/'' @ n) (filter backup_name (dir_entries (BackupDir path) d)))))"

definition configBackups :: "config_request \<Rightarrow> server \<Rightarrow> config_answer \<times> server" where
  "configBackups r s = (if cq_Method r \<noteq> ''GET'' then (Not_allowed, s) else (Backups (backupFiles s), s))"

definition configExport :: "host_env \<Rightarrow> config_request \<Rightarrow> server \<Rightarrow> config_answer \<times> server" where
  "configExport h r s =
     (if cq_Method r \<noteq> ''GET'' then (Not_allowed, s)
      else (Exported (js_indent (hs_codec h) (publicConfig (sv_store s)) @ [CHR 0x0A]), s))"

definition configRestore :: "host_env \<Rightarrow> config_request \<Rightarrow> server \<Rightarrow> config_answer \<times> server" where
  "configRestore h r s =
     (if cq_Method r \<noteq> ''POST'' then (Not_allowed, s)
      else if cq_Path r \<notin> set (backupFiles s) then (Not_restorable, s)
      else case contents (cq_Path r) (so_disk (sv_store s)) of
        None \<Rightarrow> (Bad_config Disk_error, s)
      | Some data \<Rightarrow> take_over h ''config_restore'' (cq_DryRun r) data s)"

definition change_config :: "host_env \<Rightarrow> (Config \<Rightarrow> Config) \<Rightarrow> server \<Rightarrow> store_error option \<times> server" where
  "change_config h f s = mutate_server h (\<lambda>c. Inr (f c)) s"

definition repair_handler :: "host_env \<Rightarrow> config_request \<Rightarrow> server \<Rightarrow> config_answer \<times> server" where
  "repair_handler h r s =
     (if cq_Method r = ''GET'' then (Issues (snd (Repair (hs_config h) (Snapshot (sv_store s)))), s)
      else if cq_Method r = ''POST'' then
        (case change_config h (\<lambda>c. fst (Repair (hs_config h) c)) s of
           (Some e, s) \<Rightarrow> (Failed e, s)
         | (None, s') \<Rightarrow>
             (Issues (snd (Repair (hs_config h) (case js_decode (hs_codec h) zero_config
                  (js_compact (hs_codec h) (so_config (sv_store s))) of
                None \<Rightarrow> zero_config
              | Some c \<Rightarrow> hide_password_flag (c\<lparr>c_Path := c_Path (so_config (sv_store s))\<rparr>)))),
              audit ''repair'' ''ok'' s'))
      else (Not_allowed, s))"

definition set_performance :: "(PerfConfig \<Rightarrow> PerfConfig) \<Rightarrow> Config \<Rightarrow> Config" where
  "set_performance f c = c\<lparr>c_Performance := f (c_Performance c)\<rparr>"

definition updateChannel :: "host_env \<Rightarrow> string \<Rightarrow> bool option \<Rightarrow> server \<Rightarrow> config_answer \<times> server" where
  \<comment> \<open>up to the check for releases; None: the body has no such value\<close>
  "updateChannel h method prerelease s =
     (if method \<noteq> ''POST'' then (Not_allowed, s)
      else case prerelease of
        None \<Rightarrow> (Bad_config Undecodable, s)
      | Some v \<Rightarrow>
          (case change_config h (set_update (up_Prerelease_update (\<lambda>_. v))) s of
             (Some e, s) \<Rightarrow> (Failed e, s)
           | (None, s) \<Rightarrow> (Success, audit ''update_channel'' ''ok'' s)))"

definition browserGPUMode :: "host_env \<Rightarrow> string \<Rightarrow> string option \<Rightarrow> bool \<Rightarrow> server \<Rightarrow> config_answer \<times> server" where
  \<comment> \<open>the last flag tells whether the browser could be restarted\<close>
  "browserGPUMode h method body restarted s =
     (if method \<noteq> ''POST'' then (Not_allowed, s)
      else case body of
        None \<Rightarrow> (Bad_config Undecodable, s)
      | Some m \<Rightarrow>
          (let mode = to_lower (trim_space m) in
           if mode \<notin> {''auto'', ''hardware'', ''software''} then (Bad_config Undecodable, s)
           else case change_config h (set_performance (pf_GPUMode_update (\<lambda>_. mode))) s of
             (Some e, s) \<Rightarrow> (Failed e, s)
           | (None, s) \<Rightarrow> (if restarted then Success else Restart_failed, audit ''gpu_mode'' ''ok'' s)))"

definition browserSafeMode :: "host_env \<Rightarrow> string \<Rightarrow> bool \<Rightarrow> bool \<Rightarrow> server \<Rightarrow> config_answer \<times> server" where
  "browserSafeMode h method restart restarted s =
     (if method \<noteq> ''POST'' then (Not_allowed, s)
      else case change_config h (ApplyRaspberrySafeMode (hs_config h)) s of
        (Some e, s) \<Rightarrow> (Failed e, s)
      | (None, s) \<Rightarrow> (if restart \<and> \<not> restarted then Restart_failed else Success, s))"

definition performanceRecommendation :: "string \<Rightarrow> rat \<Rightarrow> string \<times> string \<times> string" where
  \<comment> \<open>profile, GPU mode and the key of the reason, from the model and the memory in GiB\<close>
  "performanceRecommendation device memory =
     (let model = to_lower device in
      if contains model ''raspberry pi 3'' \<or> (0 < memory \<and> memory \<le> 3 / 2)
      then (''minimal'', ''software'', ''profileReasonLowMemory'')
      else if contains model ''raspberry pi 4'' \<or> contains model ''raspberry pi 400'' \<or> (0 < memory \<and> memory \<le> 9 / 2)
      then (''raspberry'', ''auto'', ''profileReasonPi4'')
      else if contains model ''raspberry pi 5'' then (''balanced'', ''hardware'', ''profileReasonPi5'')
      else if 8 \<le> memory then (''quality'', ''hardware'', ''profileReasonHighMemory'')
      else (''balanced'', ''auto'', ''profileReasonBalanced''))"

definition apply_recommendation :: "host_env \<Rightarrow> string \<Rightarrow> rat \<Rightarrow> bool \<Rightarrow> server \<Rightarrow> config_answer \<times> server" where
  "apply_recommendation h device memory restarted s =
     (case performanceRecommendation device memory of (profile, gpu, _) \<Rightarrow>
        (case change_config h (set_performance (\<lambda>p. p\<lparr>pf_Profile := profile, pf_GPUMode := gpu\<rparr>)) s of
           (Some e, s) \<Rightarrow> (Failed e, s)
         | (None, s) \<Rightarrow> (if restarted then Success else Restart_failed, s)))"

subsection \<open>The diagnostics export\<close>

datatype json = Null | Bool bool | Number rat | Text string | Items "json list" | Object "(string \<times> json) list"

definition redactDiagnosticURL :: "(string \<Rightarrow> string option) \<Rightarrow> string \<Rightarrow> string" where
  \<comment> \<open>the first argument gives an absolute URL without user, query and fragment\<close>
  "redactDiagnosticURL strip_url raw = (case strip_url (trim_space raw) of None \<Rightarrow> raw | Some u \<Rightarrow> u)"

definition secret_key :: "string \<Rightarrow> bool" where
  "secret_key key \<longleftrightarrow>
     list_ex (contains (to_lower key)) [''password'', ''token'', ''secret'', ''hash'', ''api_key'']"

fun redactValue :: "(string \<Rightarrow> string option) \<Rightarrow> string \<Rightarrow> json \<Rightarrow> json" where
  "redactValue strip_url key (Object entries) =
     Object (map (\<lambda>(k, v). (k, redactValue strip_url k v)) entries)"
| "redactValue strip_url key (Items items) = Items (map (redactValue strip_url key) items)"
| "redactValue strip_url key (Text s) =
     (if secret_key key then (if s = '''' then Text '''' else Text ''<redacted>'')
      else if contains (to_lower key) ''url'' \<or> contains (to_lower key) ''uri''
      then Text (redactDiagnosticURL strip_url s) else Text s)"
| "redactValue strip_url key v = v"

end
