(* ===== verification/Admin_Auth_Props.thy ===== *)
theory Admin_Auth_Props
  imports Admin_Auth
begin

section \<open>Properties of signing in\<close>

text \<open>
  What the sessions, the login limits and the guard of the Admin server guarantee: bounds of the
  tables, who gets through the guard, what a password change ends, and what a restart keeps.
\<close>

subsection \<open>The tables stay small\<close>

lemma length_evict: "length (evict_sessions ss) \<le> 32"
proof (induction ss rule: evict_sessions.induct)
  case (1 ss)
  then show ?case by (subst evict_sessions.simps) simp
qed

lemma evict_subset: "set (evict_sessions ss) \<subseteq> set ss"
proof (induction ss rule: evict_sessions.induct)
  case (1 ss)
  have "set (AList.delete k ss) \<subseteq> set ss" for k by (auto simp: AList.delete_eq)
  with 1 show ?case by (subst evict_sessions.simps) (auto dest: subset_trans)
qed

lemma distinct_delete: "distinct (map fst xs) \<Longrightarrow> distinct (map fst (AList.delete k xs))"
  by (rule distinct_delete)

lemma distinct_evict: "distinct (map fst ss) \<Longrightarrow> distinct (map fst (evict_sessions ss))"
proof (induction ss rule: evict_sessions.induct)
  case (1 ss)
  then show ?case by (subst evict_sessions.simps) (simp add: distinct_delete)
qed

lemma distinct_filter_keys: "distinct (map fst xs) \<Longrightarrow> distinct (map fst (filter P xs))"
  by (rule distinct_map_filter)

definition table_ok :: "nat \<Rightarrow> (string \<times> 'a) list \<Rightarrow> bool" where
  "table_ok n t \<longleftrightarrow> distinct (map fst t) \<and> length t \<le> n"

definition server_ok :: "server \<Rightarrow> bool" where
  \<comment> \<open>at most 32 sessions, in memory and in the file, and at most 256 clients with failed attempts\<close>
  "server_ok s \<longleftrightarrow>
     table_ok 32 (sv_sessions s) \<and> table_ok maxAttemptClients (sv_attempts s) \<and>
     (case sv_file s of None \<Rightarrow> True | Some t \<Rightarrow> table_ok 32 t)"

named_theorems server_frame "operations that keep the tables in bounds"

lemma table_ok_filter: "table_ok n t \<Longrightarrow> table_ok n (filter P t)"
  by (auto simp: table_ok_def distinct_filter_keys intro: le_trans [OF length_filter_le])

lemma table_ok_delete: "table_ok n t \<Longrightarrow> table_ok n (AList.delete k t)"
  by (auto simp: table_ok_def distinct_delete intro: le_trans [OF length_delete_le])

lemma length_update_present: "k \<in> fst ` set t \<Longrightarrow> length (AList.update k v t) = length t"
  by (induction t) auto

lemma length_update_le: "length (AList.update k v t) \<le> Suc (length t)"
  by (induction t) auto

lemma table_ok_update_present: "table_ok n t \<Longrightarrow> map_of t k = Some w \<Longrightarrow> table_ok n (AList.update k v t)"
  by (simp add: table_ok_def distinct_update length_update_present weak_map_of_SomeI image_iff)
     (metis fst_conv length_update_present map_of_SomeD image_eqI)

lemma server_ok_prune [server_frame]: "server_ok s \<Longrightarrow> server_ok (pruneSessions now s)"
  by (simp add: server_ok_def pruneSessions_def table_ok_filter)

lemma server_ok_persist [server_frame]: "server_ok s \<Longrightarrow> server_ok (persistSessions env s)"
  by (simp add: server_ok_def persistSessions_def)

lemma server_ok_audit [server_frame]: "server_ok s \<Longrightarrow> server_ok (audit a b s)"
  by (simp add: server_ok_def audit_def)

lemma server_ok_store [server_frame]: "server_ok (s\<lparr>sv_store := st\<rparr>) \<longleftrightarrow> server_ok s"
  by (simp add: server_ok_def)

lemma server_ok_mutate [server_frame]: "server_ok s \<Longrightarrow> server_ok (snd (mutate_server h f s))"
  by (simp add: mutate_server_def server_frame split: prod.split)

lemma server_ok_create [server_frame]:
  assumes "server_ok s" shows "server_ok (snd (createSession env r s))"
proof -
  let ?p = "pruneSessions (ae_now env) s"
  have p: "server_ok ?p" using assms by (rule server_ok_prune)
  then have "table_ok 32 (evict_sessions (AList.update k v (sv_sessions ?p)))" for k v
    by (simp add: server_ok_def table_ok_def length_evict distinct_evict distinct_update)
  with p have "server_ok (?p\<lparr>sv_sessions := evict_sessions (AList.update k v (sv_sessions ?p))\<rparr>)" for k v
    by (simp add: server_ok_def)
  then show ?thesis by (simp add: createSession_def Let_def server_ok_persist)
qed

lemma server_ok_authenticated [server_frame]: "server_ok s \<Longrightarrow> server_ok (snd (authenticated env r s))"
proof -
  assume s: "server_ok s"
  let ?p = "pruneSessions (ae_now env) s"
  have p: "server_ok ?p" using s by (rule server_ok_prune)
  then have "server_ok (?p\<lparr>sv_sessions := AList.update k v (sv_sessions ?p)\<rparr>)"
    if "map_of (sv_sessions ?p) k = Some w" for k v w
    using that by (simp add: server_ok_def table_ok_update_present)
  then show ?thesis
    using s p by (auto simp: authenticated_def Let_def server_ok_persist split: option.split)
qed

lemma server_ok_clear [server_frame]: "server_ok s \<Longrightarrow> server_ok (clearAttempts env r s)"
  by (simp add: server_ok_def clearAttempts_def table_ok_delete)

lemma keys_map_snd: "map fst (map (\<lambda>(c, ts). (c, f ts)) t) = map fst t"
  by (induction t) auto

lemma table_ok_map: "table_ok n t \<Longrightarrow> table_ok n (map (\<lambda>(c, ts). (c, f ts)) t)"
  by (simp add: table_ok_def keys_map_snd del: map_map)

lemma server_ok_allow [server_frame]: "server_ok s \<Longrightarrow> server_ok (snd (allowAttempt env r s))"
  by (simp add: server_ok_def allowAttempt_def Let_def table_ok_filter table_ok_map del: filter_map)

lemma oldest_client_mem: "oldest_client i t cs \<in> insert i (fst ` set cs)"
  by (induction i t cs rule: oldest_client.induct) auto

lemma oldest_client_key:
  assumes "cs \<noteq> []"
  shows "oldest_client '''' t cs \<in> fst ` set cs"
proof (cases cs)
  case (Cons e es)
  then show ?thesis
    using oldest_client_mem [of "fst e" "last (snd e)" es] by (cases e) auto
qed (use assms in simp)

lemma server_ok_record [server_frame]:
  assumes "server_ok s"
  shows "server_ok (recordFailedAttempt env r s)"
proof -
  let ?cs = "sv_attempts s" and ?k = "remoteIP env r"
  have cs: "table_ok maxAttemptClients ?cs" using assms by (simp add: server_ok_def)
  have full: "Suc (length (AList.delete (oldest_client '''' zero_time ?cs) ?cs)) \<le> maxAttemptClients"
    if "maxAttemptClients \<le> length ?cs"
  proof -
    have "?cs \<noteq> []" using that by (auto simp: maxAttemptClients_def)
    then have "length (AList.delete (oldest_client '''' zero_time ?cs) ?cs) < length ?cs"
      by (intro length_delete_key oldest_client_key)
    then show ?thesis using cs by (simp add: table_ok_def)
  qed
  have "table_ok maxAttemptClients (AList.update ?k v
      (if map_of ?cs ?k = None \<and> maxAttemptClients \<le> length ?cs
       then AList.delete (oldest_client '''' zero_time ?cs) ?cs else ?cs))" for v
  proof (cases "map_of ?cs ?k")
    case None
    have "length (AList.update ?k v t) \<le> maxAttemptClients" if "Suc (length t) \<le> maxAttemptClients" for t
      using that length_update_le [of ?k v t] by simp
    then show ?thesis
      using cs full None by (auto simp: table_ok_def distinct_update distinct_delete)
  next
    case (Some w)
    then show ?thesis using cs by (simp add: table_ok_update_present)
  qed
  then show ?thesis using assms by (simp add: server_ok_def recordFailedAttempt_def Let_def)
qed

lemma server_ok_start [server_frame]: "server_ok s \<Longrightarrow> server_ok (snd (start_session env a r s))"
  by (simp add: start_session_def server_frame split: prod.split)
     (metis server_ok_audit server_ok_clear server_ok_create snd_conv)

lemma server_ok_commit [server_frame]: "server_ok s \<Longrightarrow> server_ok (snd (commit_setup env h hash r s))"
  using server_ok_mutate [of s h "first_password hash"]
  by (auto simp: commit_setup_def server_ok_start split: prod.split option.split store_error.split)

lemma server_ok_upgrade [server_frame]: "server_ok s \<Longrightarrow> server_ok (upgrade_hash env h p s)"
  by (simp add: upgrade_hash_def server_frame split: option.split)

lemma server_ok_attempt:
  assumes "server_ok s"
  obtains ok retry s' where "allowAttempt env r s = ((ok, retry), s')" "server_ok s'"
  using server_ok_allow [OF assms, of env r] by (metis prod.collapse)

lemma server_ok_setup [server_frame]:
  assumes "server_ok s" shows "server_ok (snd (authSetup env h r s))"
proof -
  obtain ok retry s' where "allowAttempt env r s = ((ok, retry), s')" "server_ok s'"
    using server_ok_attempt [OF assms] .
  then show ?thesis
    using assms by (cases ok) (simp_all add: authSetup_def server_frame split: option.split)
qed

lemma server_ok_login [server_frame]:
  assumes "server_ok s" shows "server_ok (snd (authLogin env h r s))"
proof -
  obtain ok retry s' where "allowAttempt env r s = ((ok, retry), s')" "server_ok s'"
    using server_ok_attempt [OF assms] .
  then show ?thesis
    using assms by (cases ok) (simp_all add: authLogin_def server_frame split: option.split)
qed

lemma server_ok_logout [server_frame]: "server_ok s \<Longrightarrow> server_ok (snd (authLogout env r s))"
proof -
  assume s: "server_ok s"
  then have "server_ok (s\<lparr>sv_sessions := AList.delete k (sv_sessions s)\<rparr>)" for k
    by (simp add: server_ok_def table_ok_delete)
  with s show ?thesis by (simp add: authLogout_def Let_def server_frame split: option.split)
qed

lemma server_ok_end_all [server_frame]: "server_ok s \<Longrightarrow> server_ok (end_all_sessions env s)"
  unfolding end_all_sessions_def by (rule server_ok_persist) (simp add: server_ok_def table_ok_def)

lemma server_ok_password [server_frame]: "server_ok s \<Longrightarrow> server_ok (snd (authPassword env h r s))"
proof -
  assume s: "server_ok s"
  then have "mutate_server h f s = (e, s') \<Longrightarrow> server_ok s'" for f e s'
    using server_ok_mutate [of s h f] by simp
  with s show ?thesis
    by (auto simp: authPassword_def Let_def split: option.split prod.split
        intro!: server_ok_audit server_ok_end_all)
qed

lemma server_ok_auth [server_frame]:
  assumes "server_ok s" "\<And>s. server_ok s \<Longrightarrow> server_ok (snd (f r s))"
  shows "server_ok (snd (auth env f r s))"
  using server_ok_authenticated [OF assms(1), of env r] assms(2)
  by (auto simp: auth_def split: prod.split bool.split)

lemma server_ok_serve:
  assumes "server_ok s" "\<And>r s. server_ok s \<Longrightarrow> server_ok (snd (other r s))"
  shows "server_ok (snd (serve h other e s))"
proof -
  obtain env p r where e: "e = (env, p, r)" by (cases e)
  have "server_ok (snd (authSessions env r s))" "server_ok (snd (authLogoutAll env r s))"
    if "server_ok s" for r s
    using that by (simp_all add: authSessions_def authLogoutAll_def Let_def server_frame)
  moreover have "server_ok (snd (authStatus env r s))"
    using server_ok_allow server_ok_authenticated [OF assms(1), of env r]
    by (auto simp: authStatus_def split: prod.split) (metis snd_conv)
  ultimately show ?thesis
    using assms by (cases p) (simp_all add: serve_def e server_frame)
qed

text \<open>C23: Whatever requests arrive, the server holds at most 32 sessions, in memory and in its file, and
  remembers the failed attempts of at most 256 addresses.\<close>

theorem tables_bounded:
  assumes "server_ok s" "\<And>r s. server_ok s \<Longrightarrow> server_ok (snd (other r s))"
  shows "length (sv_sessions (serve_all h other rs s)) \<le> 32 \<and>
    length (sv_attempts (serve_all h other rs s)) \<le> 256 \<and>
    length (case sv_file (serve_all h other rs s) of None \<Rightarrow> [] | Some t \<Rightarrow> t) \<le> 32"
proof -
  have "server_ok (serve_all h other rs s)"
    using assms(1) unfolding serve_all_def
    by (induction rs arbitrary: s) (simp_all add: server_ok_serve assms(2))
  then show ?thesis
    by (auto simp: server_ok_def table_ok_def maxAttemptClients_def split: option.split)
qed

subsection \<open>The guard\<close>

definition may_enter :: "auth_env \<Rightarrow> server \<Rightarrow> request \<Rightarrow> bool" where
  \<comment> \<open>the credentials a protected handler asks for: the token of the configuration, or the cookie of a
    session that is not over and, unless the request only reads, its CSRF token and no foreign origin\<close>
  "may_enter env s r \<longleftrightarrow>
     (adm_Token (admin_config s) \<noteq> '''' \<and>
      adm_Token (admin_config s) \<in> {rq_Token r, trim_prefix (rq_Authorization r) ''Bearer ''}) \<or>
     (\<exists>cookie session. rq_Cookie r = Some cookie \<and> cookie \<noteq> '''' \<and>
        (ae_sha256 env cookie, session) \<in> set (sv_sessions s) \<and>
        ae_now env - ss_Created session \<le> 7 * 24 * Hour \<and> ae_now env - ss_LastSeen session \<le> 24 * Hour \<and>
        (rq_Method r \<in> {''GET'', ''HEAD''} \<or>
         sameOrigin env r \<and> ss_CSRF session \<noteq> '''' \<and> trim_space (rq_CSRF r) = ss_CSRF session))"

lemma validToken_enters: "validToken s r \<Longrightarrow> may_enter env s r"
  by (auto simp: validToken_def may_enter_def Let_def split: if_splits)

lemma authenticated_cases:
  assumes "authenticated env r s = (True, s')" "\<not> validToken s r"
  obtains cookie session where "rq_Cookie r = Some cookie" "cookie \<noteq> ''''"
    "(ae_sha256 env cookie, session) \<in> set (sv_sessions s)" "session_alive (ae_now env) session"
    "sessionCSRF env s' r = ss_CSRF session" "sv_store s' = sv_store s"
proof -
  let ?p = "pruneSessions (ae_now env) s"
  from assms obtain cookie session where c: "rq_Cookie r = Some cookie" "cookie \<noteq> ''''"
      "map_of (sv_sessions ?p) (sessionKey env cookie) = Some session"
    and s': "s' = (let q = ?p\<lparr>sv_sessions := AList.update (sessionKey env cookie)
        (session\<lparr>ss_LastSeen := ae_now env\<rparr>) (sv_sessions ?p)\<rparr>
      in if 5 * Minute \<le> ae_now env - ss_LastSeen session then persistSessions env q else q)"
    by (auto simp: authenticated_def Let_def split: option.splits if_splits)
  have mem: "(sessionKey env cookie, session) \<in> set (sv_sessions ?p)" using c(3) by (rule map_of_SomeD)
  have "sessionCSRF env s' r = ss_CSRF session" "sv_store s' = sv_store s"
    using c(1,2) by (simp_all add: s' Let_def sessionCSRF_def persistSessions_def update_conv' pruneSessions_def)
  then show thesis using that c(1,2) mem by (auto simp: pruneSessions_def sessionKey_def)
qed

lemma authenticated_store: "sv_store (snd (authenticated env r s)) = sv_store s"
  by (auto simp: authenticated_def Let_def pruneSessions_def persistSessions_def split: option.split)

text \<open>C21: Nothing gets past the guard without credentials: a request that is not turned away, or that
  changes the configuration, carries the token of the configuration or the cookie of a live session,
  and in the second case, unless it only reads, the CSRF token of the session.\<close>

theorem guard_needs_credentials:
  assumes "fst (auth env handler r s) \<notin> {Unauthorized, Origin_rejected, Csrf_rejected} \<or>
    sv_store (snd (auth env handler r s)) \<noteq> sv_store s"
  shows "may_enter env s r"
proof (cases "validToken s r")
  case False
  obtain b s' where a: "authenticated env r s = (b, s')" by fastforce
  have store: "sv_store s' = sv_store s" using authenticated_store [of env r s] a by simp
  then have token: "\<not> validToken s' r" using False by (simp add: validToken_def admin_config_def)
  have b: "b" using assms a store by (cases b) (auto simp: auth_def)
  obtain cookie session where c: "rq_Cookie r = Some cookie" "cookie \<noteq> ''''"
    "(ae_sha256 env cookie, session) \<in> set (sv_sessions s)" "session_alive (ae_now env) session"
    "sessionCSRF env s' r = ss_CSRF session"
    using authenticated_cases [OF _ False] a b by metis
  have "rq_Method r \<in> {''GET'', ''HEAD''} \<or> sameOrigin env r \<and> validCSRF env s' r"
    using assms a b token store by (auto simp: auth_def split: if_splits)
  then have "rq_Method r \<in> {''GET'', ''HEAD''} \<or>
      sameOrigin env r \<and> ss_CSRF session \<noteq> '''' \<and> trim_space (rq_CSRF r) = ss_CSRF session"
    using c(5) by (auto simp: validCSRF_def Let_def)
  then show ?thesis using c unfolding may_enter_def session_alive_def by blast
qed (rule validToken_enters)

subsection \<open>The login limit\<close>

definition attempts_of :: "server \<Rightarrow> string \<Rightarrow> time list" where
  "attempts_of s a = (case map_of (sv_attempts s) a of None \<Rightarrow> [] | Some ts \<Rightarrow> ts)"

lemma map_of_kept:
  assumes "distinct (map fst t)"
  shows "map_of (filter (\<lambda>(c, ts). ts \<noteq> []) (map (\<lambda>(c, ts). (c, filter P ts)) t)) a =
    (case map_of t a of None \<Rightarrow> None | Some ts \<Rightarrow> if filter P ts = [] then None else Some (filter P ts))"
  using assms
proof (induction t)
  case (Cons e t)
  obtain c ts where e: "e = (c, ts)" by fastforce
  have "map_of t c = None" using Cons.prems by (auto simp: e map_of_eq_None_iff)
  then show ?case using Cons by (auto simp: e)
qed simp

lemma allow_attempts:
  assumes "server_ok s" "allowAttempt env r s = ((ok, retry), s')"
  shows "attempts_of s' a = filter (\<lambda>t. ae_now env - loginAttemptWindow < t) (attempts_of s a)"
    and "ok \<longleftrightarrow> length (filter (\<lambda>t. ae_now env - loginAttemptWindow < t) (attempts_of s (remoteIP env r))) < 10"
    and "sv_store s' = sv_store s" "sv_sessions s' = sv_sessions s"
proof -
  have keys: "distinct (map fst (sv_attempts s))" using assms(1) by (simp add: server_ok_def table_ok_def)
  have s': "sv_attempts s' = filter (\<lambda>(c, ts). ts \<noteq> [])
      (map (\<lambda>(c, ts). (c, filter (\<lambda>t. ae_now env - loginAttemptWindow < t) ts)) (sv_attempts s))"
    using assms(2) by (auto simp: allowAttempt_def Let_def split: if_splits)
  show *: "attempts_of s' a = filter (\<lambda>t. ae_now env - loginAttemptWindow < t) (attempts_of s a)" for a
    unfolding attempts_of_def s' map_of_kept [OF keys] by (simp split: option.split)
  have "ok \<longleftrightarrow> length (attempts_of s' (remoteIP env r)) < 10"
    using assms(2) unfolding attempts_of_def s'
    by (auto simp: allowAttempt_def Let_def loginAttemptLimit_def simp del: filter_map split: if_splits)
  then show "ok \<longleftrightarrow> length (filter (\<lambda>t. ae_now env - loginAttemptWindow < t) (attempts_of s (remoteIP env r))) < 10"
    using * by simp
  show "sv_store s' = sv_store s" "sv_sessions s' = sv_sessions s"
    using assms(2) by (auto simp: allowAttempt_def Let_def split: if_splits)
qed

lemma record_attempts:
  "attempts_of (recordFailedAttempt env r s) (remoteIP env r) = attempts_of s (remoteIP env r) @ [ae_now env]"
  "sv_store (recordFailedAttempt env r s) = sv_store s" "sv_sessions (recordFailedAttempt env r s) = sv_sessions s"
  by (auto simp: attempts_of_def recordFailedAttempt_def Let_def update_conv' delete_conv' split: option.split)

lemma audit_fields [simp]:
  "attempts_of (audit x y s) a = attempts_of s a" "sv_store (audit x y s) = sv_store s"
  "sv_sessions (audit x y s) = sv_sessions s" "sv_file (audit x y s) = sv_file s"
  by (simp_all add: audit_def attempts_of_def)

definition failing :: "string \<Rightarrow> time \<Rightarrow> server \<Rightarrow> auth_env \<times> request \<Rightarrow> bool" where
  \<comment> \<open>a login from an address, less than the window before a time, that the credentials do not allow\<close>
  "failing a now s e \<longleftrightarrow>
     (case e of (env, r) \<Rightarrow>
        remoteIP env r = a \<and> rq_Method r = ''POST'' \<and>
        (case rq_Body r of None \<Rightarrow> False | Some body \<Rightarrow> \<not> login_ok env body s) \<and>
        now - loginAttemptWindow < ae_now env \<and> ae_now env \<le> now)"

definition logins :: "host_env \<Rightarrow> (auth_env \<times> request) list \<Rightarrow> server \<Rightarrow> server" where
  "logins h rs s = fold (\<lambda>(env, r) s. snd (authLogin env h r s)) rs s"

definition locked :: "string \<Rightarrow> time \<Rightarrow> nat \<Rightarrow> server \<Rightarrow> bool" where
  "locked a now n s \<longleftrightarrow>
     server_ok s \<and> list_all (\<lambda>t. now - loginAttemptWindow < t) (attempts_of s a) \<and> min 10 n \<le> length (attempts_of s a)"

lemma failing_login:
  assumes "locked a now n s" "failing a now s (env, r)"
  shows "locked a now (Suc n) (snd (authLogin env h r s)) \<and> sv_store (snd (authLogin env h r s)) = sv_store s \<and>
    sv_sessions (snd (authLogin env h r s)) = sv_sessions s"
proof -
  obtain ok retry s1 where a: "allowAttempt env r s = ((ok, retry), s1)" by (metis prod.collapse)
  have s: "server_ok s" and s1: "server_ok s1"
    using assms(1) server_ok_allow [of s env r] a by (simp_all add: locked_def)
  obtain body where body: "rq_Body r = Some body" "\<not> login_ok env body s" and r: "rq_Method r = ''POST''" "remoteIP env r = a"
      "now - loginAttemptWindow < ae_now env" "ae_now env \<le> now"
    using assms(2) by (auto simp: failing_def split: option.splits)
  note al = allow_attempts [OF s a]
  have all: "filter (\<lambda>t. ae_now env - loginAttemptWindow < t) (attempts_of s a) = attempts_of s a"
    using assms(1) r(4) by (intro filter_True) (auto simp: locked_def list_all_iff)
  have same: "attempts_of s1 a = attempts_of s a" using al(1) all by simp
  have "\<not> login_ok env body s1" using body(2) al(3) by (simp add: login_ok_def admin_config_def)
  then have result: "snd (authLogin env h r s) =
      (if ok then audit ''login'' ''failed'' (recordFailedAttempt env r s1) else audit ''login'' ''rate_limited'' s1)"
    using a body(1) r(1) by (cases ok) (simp_all add: authLogin_def)
  have len: "\<not> ok \<Longrightarrow> 10 \<le> length (attempts_of s a)" using al(2) all r(2) by simp
  show ?thesis
  proof (cases ok)
    case True
    then have "attempts_of (snd (authLogin env h r s)) a = attempts_of s a @ [ae_now env]"
      using result same record_attempts(1) [of env r s1] r(2) by simp
    then show ?thesis
      using True assms(1) result r(3) al(3,4) s1
      by (auto simp: locked_def record_attempts server_ok_audit server_ok_record)
  next
    case False
    then show ?thesis
      using assms(1) result same len al(3,4) s1 by (auto simp: locked_def server_ok_audit)
  qed
qed

lemma failing_logins:
  assumes "locked a now n s" "list_all (failing a now s) rs"
  shows "locked a now (n + length rs) (logins h rs s) \<and> sv_store (logins h rs s) = sv_store s \<and>
    sv_sessions (logins h rs s) = sv_sessions s"
  using assms
proof (induction rs arbitrary: n s)
  case (Cons e rs)
  obtain env r where e: "e = (env, r)" by fastforce
  let ?s = "snd (authLogin env h r s)"
  have step: "locked a now (Suc n) ?s" "sv_store ?s = sv_store s" "sv_sessions ?s = sv_sessions s"
    using failing_login [of a now n s env r h] Cons.prems by (auto simp: e)
  have "failing a now ?s = failing a now s"
    using step(2) by (intro ext) (simp add: failing_def login_ok_def admin_config_def split: prod.split option.split)
  then have "list_all (failing a now ?s) rs" using Cons.prems(2) by simp
  from Cons.IH [OF step(1) this] show ?case using step by (simp add: logins_def e)
qed (simp add: logins_def)

text \<open>C20: Guessing is limited: when ten logins from an address have failed within five minutes, the next
  login from it is refused without looking at its password, for at least one second, and none of them
  has started a session or changed the configuration.\<close>

theorem login_limit:
  assumes "server_ok s" "attempts_of s a = []"
    and "list_all (failing a (ae_now env) s) rs" "10 \<le> length rs"
    and "rq_Method r = ''POST''" "remoteIP env r = a"
  shows "\<exists>n\<ge>1. fst (authLogin env h r (logins h rs s)) = Rate_limited n \<and>
    sv_store (snd (authLogin env h r (logins h rs s))) = sv_store s \<and>
    sv_sessions (snd (authLogin env h r (logins h rs s))) = sv_sessions s"
proof -
  have "locked a (ae_now env) 0 s" using assms(1,2) by (simp add: locked_def)
  from failing_logins [OF this assms(3), of h]
  have l: "locked a (ae_now env) (length rs) (logins h rs s)" "sv_store (logins h rs s) = sv_store s"
    "sv_sessions (logins h rs s) = sv_sessions s" by simp_all
  obtain ok retry s1 where at: "allowAttempt env r (logins h rs s) = ((ok, retry), s1)" by (metis prod.collapse)
  have ok: "server_ok (logins h rs s)" using l(1) by (simp add: locked_def)
  note al = allow_attempts [OF ok at]
  have "\<not> ok"
    using al(2) l(1) assms(4,6) by (simp add: locked_def list_all_iff filter_True)
  then have "retry \<ge> Second" using at by (auto simp: allowAttempt_def Let_def split: if_splits)
  then have "1 \<le> retry_seconds retry"
    using zdiv_mono1 [of Second retry Second] by (simp add: retry_seconds_def quot64_nonneg duration_units)
  then show ?thesis
    using at \<open>\<not> ok\<close> assms(5) al(3,4) l by (auto simp: authLogin_def)
qed

subsection \<open>Passwords\<close>

definition reads_back :: "auth_env \<Rightarrow> string \<Rightarrow> bool" where
  "reads_back env x \<longleftrightarrow> ae_unbase64 env (ae_base64 env x) = Some x \<and> CHR ''$'' \<notin> set (ae_base64 env x)"

definition argon_ok :: "auth_env \<Rightarrow> string \<Rightarrow> bool" where
  \<comment> \<open>the libraries do what they document for the hash of one password\<close>
  "argon_ok env password \<longleftrightarrow>
     ae_params env ''m=65536,t=3,p=2'' = Some (65536, 3, 2) \<and>
     (case ae_salt env of None \<Rightarrow> True
      | Some salt \<Rightarrow> length salt = 16 \<and> reads_back env salt \<and>
          length (ae_argon2 env password salt 3 argonMemory 2 32) = 32 \<and>
          reads_back env (ae_argon2 env password salt 3 argonMemory 2 32))"

lemma split_at_first: "c \<notin> set p \<Longrightarrow> split_at c (p @ c # s) = p # split_at c s"
  by (induction p) auto

lemma split_at_single: "c \<notin> set p \<Longrightarrow> split_at c p = [p]"
  by (induction p) auto

lemma HashPassword_verifies:
  assumes "HashPassword env password = Some hash" "argon_ok env password"
  shows "VerifyPassword env password hash" "hash \<noteq> ''''"
proof -
  obtain salt where salt: "ae_salt env = Some salt"
    and hash: "hash = ''argon2id$v=19$m=65536,t=3,p=2$'' @ ae_base64 env salt @ ''$'' @
       ae_base64 env (ae_argon2 env password salt 3 argonMemory 2 32)"
    using assms(1) by (auto simp: HashPassword_def)
  let ?digest = "ae_argon2 env password salt 3 argonMemory 2 32"
  have ok: "length salt = 16" "reads_back env salt" "length ?digest = 32" "reads_back env ?digest"
    "ae_params env ''m=65536,t=3,p=2'' = Some (65536, 3, 2)"
    using assms(2) salt by (simp_all add: argon_ok_def)
  have "split_at CHR ''$'' hash =
      [''argon2id'', ''v=19'', ''m=65536,t=3,p=2'', ae_base64 env salt, ae_base64 env ?digest]"
    using ok(2,4) split_at_first [of "CHR ''$''" "ae_base64 env salt"] split_at_single
    by (simp add: hash reads_back_def)
  then have "verifyArgon2ID env password hash"
    using ok by (simp add: verifyArgon2ID_def reads_back_def argonMemory_def)
  then show "VerifyPassword env password hash" "hash \<noteq> ''''"
    by (simp_all add: VerifyPassword_def hash has_prefix_def)
qed

lemma normalize_password: "adm_PasswordHash (c_Admin (normalize env c)) = adm_PasswordHash (c_Admin c)"
  by (simp add: normalize_def Let_def normalize_admin_def migrateSchema_def)

lemma mutate_password:
  assumes "mutate_server h (set_password hash) s = (None, s')" "store_ok h (sv_store s)"
    "temp_apart h (c_Path (so_config (sv_store s)))"
  shows "adm_PasswordHash (admin_config s') = hash \<and> store_ok h (sv_store s') \<and>
    c_Path (so_config (sv_store s')) = c_Path (so_config (sv_store s)) \<and>
    sv_sessions s' = sv_sessions s \<and> sv_file s' = sv_file s \<and> sv_attempts s' = sv_attempts s"
proof -
  let ?st = "sv_store s"
  obtain st where m: "Mutate h (set_password hash) ?st = (None, st)" and s': "s' = s\<lparr>sv_store := st\<rparr>"
    using assms(1) by (auto simp: mutate_server_def split: prod.splits)
  from m obtain c where c: "js_decode (hs_codec h) zero_config (js_compact (hs_codec h) (so_config ?st)) = Some c"
    by (auto simp: Mutate_def Let_def split: option.splits)
  define c1 where "c1 = hide_password_flag (c\<lparr>c_Path := c_Path (so_config ?st)\<rparr>)"
  define c2 where "c2 = c1\<lparr>c_Admin := (c_Admin c1)\<lparr>adm_PasswordHash := hash\<rparr>\<rparr>"
  have c2: "save_next h c2 ?st = (None, st)" "c_Path c2 = c_Path (so_config ?st)"
    using m c by (simp_all add: Mutate_def set_password_def c1_def c2_def Let_def)
  have "store_ok h st \<and> c_Path (so_config st) = c_Path (so_config ?st)"
    using save_next_ok(1,2) [OF assms(2,3) c2(2)] c2(1) by simp
  moreover have "adm_PasswordHash (c_Admin (so_config st)) = hash"
  proof -
    have path: "temp_apart h (c_Path c2)" "c_Path c2 \<noteq> ''''" using c2(2) assms(2,3) by (simp_all add: store_ok_def)
    show ?thesis
      by (cases rule: save_next_cases [OF path, of ?st])
         (use c2(1) in \<open>auto simp: normalize_password hide_password_flag_def c2_def\<close>)
  qed
  ultimately show ?thesis by (simp add: s' admin_config_def Snapshot_def)
qed

lemma no_sessions:
  assumes "sv_sessions s = []" "\<not> validToken s r"
  shows "fst (authenticated env r s) = False"
  using assms by (auto simp: authenticated_def Let_def pruneSessions_def split: option.split)

lemma load_none:
  assumes "c_Path (so_config st) \<noteq> ''''"
  shows "sv_sessions (NewServer env st (Some [])) = []"
  using assms by (simp add: NewServer_def loadSessions_def Snapshot_def persistSessions_def pruneSessions_def)

text \<open>C19: A password change ends every session: afterwards the new password is the one that signs in, and
  without the token of the configuration no request is authenticated, neither by this server nor by one
  started from its files.\<close>

theorem password_change_ends_sessions:
  assumes "authPassword env h r s = (Done, s')" "rq_Body r = Some body"
    and "store_ok h (sv_store s)" "temp_apart h (c_Path (so_config (sv_store s)))"
    and "argon_ok env (cr_Next body)" "ae_writable env" "cr_Password body' = cr_Next body"
  shows "login_ok env body' s' \<and> store_ok h (sv_store s') \<and>
    (validToken s' r' \<or> fst (authenticated env' r' s') = False) \<and>
    (let n = NewServer env'' (sv_store s') (sv_file s')
     in validToken n r' \<or> fst (authenticated env' r' n) = False)"
proof -
  obtain hash s1 where hash: "HashPassword env (cr_Next body) = Some hash"
    and m: "mutate_server h (set_password hash) s = (None, s1)"
    and s': "s' = audit ''password_change'' ''ok'' (end_all_sessions env s1)"
    using assms(1,2) by (auto simp: authPassword_def Let_def split: if_splits option.splits prod.splits)
  note p = mutate_password [OF m assms(3,4)]
  have path: "c_Path (Snapshot (sv_store s1)) \<noteq> ''''" using p assms(3) by (simp add: Snapshot_def store_ok_def)
  have gone: "sv_sessions s' = []" "sv_file s' = Some []" "sv_store s' = sv_store s1"
    using path assms(6) by (simp_all add: s' end_all_sessions_def persistSessions_def)
  have "login_ok env body' s'"
    using HashPassword_verifies [OF hash assms(5)] p gone(3) assms(7)
    by (simp add: login_ok_def admin_config_def Let_def)
  moreover have "sv_sessions (NewServer env'' (sv_store s') (sv_file s')) = []"
    using load_none path gone by (simp add: Snapshot_def)
  ultimately show ?thesis
    using gone p no_sessions [of s' r' env'] no_sessions [of "NewServer env'' (sv_store s') (sv_file s')" r' env']
    by (auto simp: Let_def)
qed

subsection \<open>Sessions and restarts\<close>

definition stored_right :: "auth_env \<Rightarrow> (string \<times> Session) list \<Rightarrow> bool" where
  \<comment> \<open>a table as this version writes it: hashed keys, each once, identifiers and CSRF tokens set\<close>
  "stored_right env t \<longleftrightarrow>
     distinct (map fst t) \<and>
     list_all (\<lambda>(k, ss). isSessionHash env k \<and> ss_ID ss \<noteq> '''' \<and> ss_ID ss \<noteq> k \<and> ss_CSRF ss \<noteq> '''') t"

lemma migrate_stored: "stored_right env t \<Longrightarrow> map (migrate_session env) t = t"
  by (auto simp: stored_right_def migrate_session_def list_all_iff Let_def intro!: map_idI)

lemma fold_update_map_of:
  "distinct (map fst t) \<Longrightarrow> map_of (fold (\<lambda>(k, v). AList.update k v) t acc) k =
     (case map_of t k of None \<Rightarrow> map_of acc k | Some v \<Rightarrow> Some v)"
proof (induction t arbitrary: acc)
  case (Cons e t)
  obtain k' v where e: "e = (k', v)" by fastforce
  have "map_of t k' = None" using Cons.prems by (auto simp: e map_of_eq_None_iff)
  then show ?case using Cons by (auto simp: e update_conv' split: option.split)
qed simp

lemma map_of_alive:
  assumes "distinct (map fst t)"
  shows "map_of (filter (\<lambda>(k, ss). session_alive now ss) t) k =
    (case map_of t k of None \<Rightarrow> None | Some ss \<Rightarrow> if session_alive now ss then Some ss else None)"
  using assms
proof (induction t)
  case (Cons e t)
  obtain c ss where e: "e = (c, ss)" by fastforce
  have "map_of t c = None" using Cons.prems by (auto simp: e map_of_eq_None_iff)
  then show ?case using Cons by (auto simp: e split: option.split)
qed simp

lemma distinct_fold_update: "distinct (map fst acc) \<Longrightarrow> distinct (map fst (fold (\<lambda>(k, v). AList.update k v) t acc))"
  by (induction t arbitrary: acc) (auto simp: distinct_update)

lemma NewServer_sessions:
  assumes "stored_right env t" "c_Path (so_config st) \<noteq> ''''"
  shows "map_of (sv_sessions (NewServer env st (Some t))) k =
    (case map_of t k of None \<Rightarrow> None | Some ss \<Rightarrow> if session_alive (ae_now env) ss then Some ss else None)"
    "distinct (map fst (sv_sessions (NewServer env st (Some t))))"
    "sv_store (NewServer env st (Some t)) = st"
proof -
  let ?t = "fold (\<lambda>(k, ss). AList.update k ss) t []"
  have s: "sv_sessions (NewServer env st (Some t)) = filter (\<lambda>(k, ss). session_alive (ae_now env) ss) ?t"
    using assms by (simp add: NewServer_def loadSessions_def Snapshot_def persistSessions_def pruneSessions_def
        migrate_stored)
  have d: "distinct (map fst t)" using assms(1) by (simp add: stored_right_def)
  have dt: "distinct (map fst ?t)" by (intro distinct_fold_update) simp
  show "map_of (sv_sessions (NewServer env st (Some t))) k =
    (case map_of t k of None \<Rightarrow> None | Some ss \<Rightarrow> if session_alive (ae_now env) ss then Some ss else None)"
    unfolding s map_of_alive [OF dt] fold_update_map_of [OF d] by (simp split: option.split)
  show "distinct (map fst (sv_sessions (NewServer env st (Some t))))"
    unfolding s using dt by (rule distinct_filter_keys)
  show "sv_store (NewServer env st (Some t)) = st"
    using assms by (simp add: NewServer_def loadSessions_def Snapshot_def persistSessions_def pruneSessions_def)
qed

lemma authenticated_cookie:
  assumes "distinct (map fst (sv_sessions s))" "rq_Cookie r = Some cookie" "cookie \<noteq> ''''" "\<not> validToken s r"
  shows "fst (authenticated env r s) \<longleftrightarrow>
    (case map_of (sv_sessions s) (sessionKey env cookie) of None \<Rightarrow> False | Some ss \<Rightarrow> session_alive (ae_now env) ss)"
  using assms map_of_alive [OF assms(1)]
  by (simp add: authenticated_def Let_def pruneSessions_def split: option.split)

text \<open>The polling of an open Admin page: the same request at a list of times.\<close>

definition poll :: "auth_env \<Rightarrow> request \<Rightarrow> time list \<Rightarrow> server \<Rightarrow> server" where
  "poll env r ts s = fold (\<lambda>t s. snd (authenticated (env\<lparr>ae_now := t\<rparr>) r s)) ts s"

fun busy :: "time \<Rightarrow> time list \<Rightarrow> bool" where
  \<comment> \<open>times that follow each other within five minutes\<close>
  "busy t [] = True"
| "busy t (u # us) = (t \<le> u \<and> u - t < 5 * Minute \<and> busy u us)"

lemma busy_last: "busy t ts \<Longrightarrow> t \<le> last (t # ts)"
  by (induction t ts rule: busy.induct) auto

lemma poll_busy:
  assumes "distinct (map fst (sv_sessions s))" "rq_Cookie r = Some cookie" "cookie \<noteq> ''''" "\<not> validToken s r"
    and "map_of (sv_sessions s) (sessionKey env cookie) = Some ss" "busy (ss_LastSeen ss) ts"
    and "last (ss_LastSeen ss # ts) - ss_Created ss \<le> 7 * 24 * Hour"
  shows "map_of (sv_sessions (poll env r ts s)) (sessionKey env cookie) =
      Some (ss\<lparr>ss_LastSeen := last (ss_LastSeen ss # ts)\<rparr>) \<and> sv_file (poll env r ts s) = sv_file s \<and>
    distinct (map fst (sv_sessions (poll env r ts s))) \<and> sv_store (poll env r ts s) = sv_store s"
  using assms
proof (induction ts arbitrary: s ss)
  case (Cons t ts)
  let ?env = "env\<lparr>ae_now := t\<rparr>"
  let ?p = "pruneSessions t s"
  have now: "ss_LastSeen ss \<le> t" "t - ss_LastSeen ss < 5 * Minute" and rest: "busy t ts" using Cons.prems(6) by simp_all
  have "t \<le> last (t # ts)" using rest by (rule busy_last)
  then have alive: "session_alive t ss"
    using Cons.prems(7) now by (simp add: session_alive_def duration_units)
  have key: "sessionKey ?env cookie = sessionKey env cookie" by (simp add: sessionKey_def)
  have found: "map_of (sv_sessions ?p) (sessionKey env cookie) = Some ss"
    using map_of_alive [OF Cons.prems(1), of t] Cons.prems(5) alive by (simp add: pruneSessions_def)
  define s1 where "s1 = ?p\<lparr>sv_sessions := AList.update (sessionKey env cookie) (ss\<lparr>ss_LastSeen := t\<rparr>) (sv_sessions ?p)\<rparr>"
  have step: "snd (authenticated ?env r s) = s1"
    using Cons.prems(2-4) found now(2) by (simp add: authenticated_def Let_def key s1_def)
  have s1: "sv_file s1 = sv_file s" "sv_store s1 = sv_store s"
      "map_of (sv_sessions s1) (sessionKey env cookie) = Some (ss\<lparr>ss_LastSeen := t\<rparr>)"
      "distinct (map fst (sv_sessions s1))"
    using Cons.prems(1) by (simp_all add: s1_def pruneSessions_def update_conv' distinct_update distinct_filter_keys)
  have token: "\<not> validToken s1 r" using Cons.prems(4) s1(2) by (simp add: validToken_def admin_config_def)
  have "poll env r (t # ts) s = poll env r ts s1" using step by (simp add: poll_def)
  then show ?case
    using Cons.IH [OF s1(4) Cons.prems(2,3) token s1(3)] rest Cons.prems(7) s1 by simp
qed (simp add: poll_def)

text \<open>C37: A session in steady use is lost at a restart: requests that follow each other within five minutes
  keep it alive in memory but never reach the session file, so that when the saved time is more than a
  day old, the server started from the file asks for the password although the running one accepts the
  cookie.\<close>

theorem busy_session_lost_at_restart:
  assumes "stored_right env t" "sv_file s = Some t" "map_of t (sessionKey env cookie) = Some saved"
    and "distinct (map fst (sv_sessions s))" "map_of (sv_sessions s) (sessionKey env cookie) = Some ss"
    and "rq_Cookie r = Some cookie" "cookie \<noteq> ''''" "\<not> validToken s r" "c_Path (so_config (sv_store s)) \<noteq> ''''"
    and "busy (ss_LastSeen ss) ts" "ae_now env = last (ss_LastSeen ss # ts)"
    and "ae_now env - ss_Created ss \<le> 7 * 24 * Hour" "24 * Hour < ae_now env - ss_LastSeen saved"
    and "s' = poll env r ts s"
  shows "fst (authenticated env r s') = True \<and> sv_file s' = Some t \<and>
    fst (authenticated env r (NewServer env (sv_store s') (sv_file s'))) = False"
proof -
  note p = poll_busy [OF assms(4,6,7,8,5,10), folded assms(11), OF assms(12), folded assms(14)]
  have alive: "session_alive (ae_now env) (ss\<lparr>ss_LastSeen := ae_now env\<rparr>)"
    using assms(12) by (simp add: session_alive_def duration_units)
  have token: "\<not> validToken s' r" using p assms(8) by (simp add: validToken_def admin_config_def)
  have "fst (authenticated env r s')"
    using p authenticated_cookie [OF _ assms(6,7) token] alive by simp
  moreover have saved: "sv_file s' = Some t" using p assms(2) by simp
  moreover have "\<not> fst (authenticated env r (NewServer env (sv_store s') (Some t)))"
  proof -
    have path: "c_Path (so_config (sv_store s')) \<noteq> ''''" using p assms(9) by simp
    note n = NewServer_sessions [OF assms(1) path]
    have "\<not> validToken (NewServer env (sv_store s') (Some t)) r"
      using token n(3) by (simp add: validToken_def admin_config_def)
    moreover have "map_of (sv_sessions (NewServer env (sv_store s') (Some t))) (sessionKey env cookie) = None"
      using n(1) [of "sessionKey env cookie"] assms(3,13) by (simp add: session_alive_def)
    ultimately show ?thesis using authenticated_cookie [OF n(2) assms(6,7), where env = env] by simp
  qed
  ultimately show ?thesis by simp
qed

lemma oldest_from_skips:
  assumes "list_all (\<lambda>(j, s). j \<noteq> '''' \<and> (j = k \<longrightarrow> ss_LastSeen s = m) \<and> (j \<noteq> k \<longrightarrow> ss_LastSeen s < m)) ss"
    and "i \<noteq> '''' \<and> i \<noteq> k \<and> t < m \<or> i \<in> {'''', k} \<and> t = (if i = k then m else t) \<and> (\<exists>j\<in>fst ` set ss. j \<noteq> k)"
  shows "oldest_from i t ss \<noteq> k"
  using assms
proof (induction i t ss rule: oldest_from.induct)
  case (2 i t j s ss)
  then show ?case by (cases "j = k") auto
qed auto

lemma evict_keeps_newest:
  assumes "distinct (map fst ss)" "map_of ss k = Some s0"
    and "list_all (\<lambda>(j, s). j \<noteq> '''' \<and> (j \<noteq> k \<longrightarrow> ss_LastSeen s < ss_LastSeen s0)) ss"
  shows "map_of (evict_sessions ss) k = Some s0"
  using assms
proof (induction ss rule: evict_sessions.induct)
  case (1 ss)
  show ?case
  proof (cases "32 < length ss")
    case True
    have other: "\<exists>j\<in>fst ` set ss. j \<noteq> k"
    proof (rule ccontr)
      assume "\<not> (\<exists>j\<in>fst ` set ss. j \<noteq> k)"
      then have "set (map fst ss) \<subseteq> {k}" by auto
      then have "card (set (map fst ss)) \<le> 1" using card_mono [of "{k}"] by fastforce
      then show False using True distinct_card [OF 1(2)] by simp
    qed
    have same: "s = s0" if "(k, s) \<in> set ss" for s
      using map_of_is_SomeI [OF 1(2) that] 1(3) by simp
    have "list_all (\<lambda>(j, s). j \<noteq> '''' \<and> (j = k \<longrightarrow> ss_LastSeen s = ss_LastSeen s0) \<and>
        (j \<noteq> k \<longrightarrow> ss_LastSeen s < ss_LastSeen s0)) ss"
      using 1(4) same by (auto simp: list_all_iff)
    moreover have "k \<noteq> ''''" using 1(4) map_of_SomeD [OF 1(3)] by (auto simp: list_all_iff)
    ultimately have "oldest_session ss \<noteq> k"
      unfolding oldest_session_def using other by (intro oldest_from_skips) auto
    then have "map_of (AList.delete (oldest_session ss) ss) k = Some s0" using 1(3) by (simp add: delete_conv')
    moreover have "list_all (\<lambda>(j, s). j \<noteq> '''' \<and> (j \<noteq> k \<longrightarrow> ss_LastSeen s < ss_LastSeen s0)) (AList.delete (oldest_session ss) ss)"
      using 1(4) by (auto simp: list_all_iff AList.delete_eq)
    ultimately have "map_of (evict_sessions (AList.delete (oldest_session ss) ss)) k = Some s0"
      using 1(1) [OF True] 1(2) by (simp add: distinct_delete)
    then show ?thesis using True by (subst evict_sessions.simps) simp
  qed (use 1 in \<open>subst evict_sessions.simps, simp\<close>)
qed

lemma set_update_le: "set (AList.update k v t) \<subseteq> insert (k, v) (set t)"
  by (induction t) auto

text \<open>C22: Signing in survives a restart: a day long the cookie of a login is accepted, with the same CSRF
  token, by a server started from the session file, if no other session was used at the same instant.\<close>

theorem sign_in_survives_restart:
  assumes "authLogin env h r s = (Accepted csrf, s')" "ae_writable env" "ae_cookie env \<noteq> ''''"
    and "c_Path (so_config (sv_store s')) \<noteq> ''''" "stored_right env' (sv_sessions s')"
    and "list_all (\<lambda>(k, ss). ss_LastSeen ss < ae_now env) (sv_sessions s)" "server_ok s"
    and "ae_sha256 env' = ae_sha256 env" "ae_now env \<le> ae_now env'" "ae_now env' - ae_now env \<le> 24 * Hour"
    and "rq_Cookie r' = Some (ae_cookie env)" "sessionKey env (ae_cookie env) \<noteq> ''''" "'''' \<notin> fst ` set (sv_sessions s)"
    and "n = NewServer env' (sv_store s') (sv_file s')"
  shows "fst (authenticated env' r' n) = True \<and> sessionCSRF env' n r' = csrf"
proof -
  let ?key = "sessionKey env (ae_cookie env)"
  let ?new = "new_session env r"
  obtain s1 where s1: "sv_sessions s1 = sv_sessions s" "sv_store s1 = sv_store s'"
    and run: "start_session env ''login'' r s1 = (Accepted csrf, s')"
  proof -
    obtain ok retry s0 where al: "allowAttempt env r s = ((ok, retry), s0)" by (metis prod.collapse)
    note a = allow_attempts(4) [OF assms(7) al]
    have up: "sv_sessions (upgrade_hash env h p s0) = sv_sessions s0" for p
      by (auto simp: upgrade_hash_def mutate_server_def split: option.split prod.split)
    from assms(1) al obtain p where run: "start_session env ''login'' r (upgrade_hash env h p s0) = (Accepted csrf, s')"
      by (cases ok) (auto simp: authLogin_def split: if_splits option.splits)
    then have "sv_store (upgrade_hash env h p s0) = sv_store s'"
      by (auto simp: start_session_def createSession_def Let_def clearAttempts_def pruneSessions_def persistSessions_def split: prod.splits)
    with that run up a show thesis by metis
  qed
  define t0 where "t0 = AList.update ?key ?new (filter (\<lambda>(k, ss). session_alive (ae_now env) ss) (sv_sessions s))"
  have table: "sv_sessions s' = evict_sessions t0" "sv_file s' = Some (evict_sessions t0)" "csrf = ss_CSRF ?new"
    using run s1 assms(2,4)
    by (auto simp: start_session_def createSession_def Let_def clearAttempts_def pruneSessions_def persistSessions_def
        Snapshot_def t0_def split: if_splits)
  have dist: "distinct (map fst (sv_sessions s))" using assms(7) by (simp add: server_ok_def table_ok_def)
  have "map_of (evict_sessions t0) ?key = Some ?new"
  proof (rule evict_keeps_newest)
    show "distinct (map fst t0)" "map_of t0 ?key = Some ?new"
      using dist by (simp_all add: t0_def distinct_update distinct_filter_keys update_conv')
    have "set t0 \<subseteq> insert (?key, ?new) (set (sv_sessions s))"
      unfolding t0_def using set_update_le by fastforce
    then show "list_all (\<lambda>(j, s). j \<noteq> '''' \<and> (j \<noteq> ?key \<longrightarrow> ss_LastSeen s < ss_LastSeen ?new)) t0"
      using assms(6,12,13) unfolding list_all_iff
      by (auto simp: new_session_def dest!: subsetD [of "set t0"]) (force+)?
  qed
  moreover have "session_alive (ae_now env') ?new"
    using assms(9,10) by (simp add: session_alive_def new_session_def duration_units)
  moreover have key: "sessionKey env' (ae_cookie env) = ?key" using assms(8) by (simp add: sessionKey_def)
  moreover have right: "stored_right env' (evict_sessions t0)" using assms(5) table(1) by simp
  ultimately have found: "map_of (sv_sessions n) ?key = Some ?new" "distinct (map fst (sv_sessions n))"
    using NewServer_sessions [OF right assms(4)] by (simp_all add: assms(14) table(2))
  then have "sessionCSRF env' n r' = csrf"
    using assms(3,11) table(3) by (simp add: sessionCSRF_def key)
  moreover have "fst (authenticated env' r' n)"
    using authenticated_cookie [OF found(2) assms(11,3), where env = env'] found(1) key \<open>session_alive (ae_now env') ?new\<close>
    by (cases "validToken n r'") (auto simp: authenticated_def)
  ultimately show ?thesis by simp
qed

subsection \<open>Examples\<close>

definition demo_auth :: "time \<Rightarrow> auth_env" where
  "demo_auth now =
     \<lparr>ae_now = now, ae_sha256 = (\<lambda>s. s @ replicate (64 - length s) CHR ''0''), ae_isHex = (\<lambda>_. True),
      ae_cookie = ''cookie'', ae_csrf = ''csrf'', ae_salt = Some (replicate 16 CHR ''s''), ae_base64 = (\<lambda>x. x),
      ae_unbase64 = Some, ae_argon2 = (\<lambda>p s t m l n. replicate n (hd p)), ae_hmac = (\<lambda>k m. m),
      ae_params = (\<lambda>_. Some (65536, 3, 2)), ae_splitHost = Some, ae_originHost = (\<lambda>_. None), ae_loopback = (\<lambda>_. False),
      ae_writable = True\<rparr>"

definition demo_body :: credentials where
  "demo_body = \<lparr>cr_Token = '''', cr_Password = ''secret-password'', cr_Current = '''', cr_Next = ''secret-password''\<rparr>"

definition demo_request :: request where
  "demo_request = \<lparr>rq_Method = ''POST'', rq_RemoteAddr = ''10.0.0.9'', rq_UserAgent = '''', rq_Cookie = Some ''cookie'',
     rq_Token = '''', rq_Authorization = '''', rq_CSRF = '' csrf '', rq_Origin = '''', rq_Host = '''', rq_TLS = False,
     rq_ForwardedProto = '''', rq_Body = Some demo_body\<rparr>"

definition demo_session :: Session where
  "demo_session = \<lparr>ss_ID = ''id'', ss_CSRF = ''csrf'', ss_Created = 0, ss_LastSeen = 0, ss_Remote = '''', ss_UserAgent = ''''\<rparr>"

definition demo_table :: "(string \<times> Session) list" where
  "demo_table = [(sessionKey (demo_auth 0) ''cookie'', demo_session)]"

definition demo_server :: server where
  "demo_server = \<lparr>sv_store = demo_store, sv_sessions = demo_table, sv_attempts = [], sv_file = Some demo_table, sv_audit = []\<rparr>"

lemma demo_server_ok: "server_ok demo_server"
  by (simp add: server_ok_def demo_server_def table_ok_def demo_table_def maxAttemptClients_def)

lemma demo_admin: "adm_Token (admin_config demo_server) = ''token''" "adm_PasswordHash (admin_config demo_server) = ''''"
  by (simp_all add: admin_config_def demo_server_def demo_store_def Snapshot_def demo_config_def demo_token)
     (simp add: demo_saved_def normalize_password defaults_def)

lemma demo_no_token: "\<not> validToken demo_server demo_request"
  by (simp add: validToken_def demo_request_def trim_prefix_def has_prefix_def)

lemma demo_wrong: "\<not> login_ok env demo_body demo_server"
  by (simp add: login_ok_def demo_admin demo_body_def)

lemma tables_bounded_witness:
  "length (sv_sessions (serve_all demo_host (\<lambda>r s. (Done, s)) [(demo_auth 1, Login, demo_request)] demo_server)) \<le> 32"
  using tables_bounded [OF demo_server_ok, where other = "\<lambda>r s. (Done, s)"] by simp

lemma demo_authenticated:
  "authenticated (demo_auth 1) demo_request demo_server =
     (True, demo_server\<lparr>sv_sessions := [(sessionKey (demo_auth 0) ''cookie'', demo_session\<lparr>ss_LastSeen := 1\<rparr>)]\<rparr>)"
  using demo_no_token
  by (simp add: authenticated_def pruneSessions_def demo_request_def demo_server_def demo_table_def demo_session_def
      session_alive_def demo_auth_def sessionKey_def duration_units Let_def)

lemma demo_enters: "fst (auth (demo_auth 1) (\<lambda>r s. (Done, s)) demo_request demo_server) = Done"
proof -
  let ?s = "demo_server\<lparr>sv_sessions := [(sessionKey (demo_auth 0) ''cookie'', demo_session\<lparr>ss_LastSeen := 1\<rparr>)]\<rparr>"
  have "trim_space '' csrf '' = ''csrf''" by code_simp
  then have "validCSRF (demo_auth 1) ?s demo_request"
    by (simp add: validCSRF_def sessionCSRF_def demo_request_def demo_session_def sessionKey_def demo_auth_def)
  then show ?thesis
    by (simp add: auth_def demo_authenticated sameOrigin_def) (simp add: demo_request_def)
qed

lemma guard_needs_credentials_witness: "may_enter (demo_auth 1) demo_server demo_request"
  by (rule guard_needs_credentials [where handler = "\<lambda>r s. (Done, s)"]) (simp add: demo_enters)

lemma login_limit_witness:
  "\<exists>n\<ge>1. fst (authLogin (demo_auth 100) demo_host demo_request
     (logins demo_host (replicate 10 (demo_auth 99, demo_request)) demo_server)) = Rate_limited n"
proof -
  have failing: "failing ''10.0.0.9'' 100 demo_server (demo_auth 99, demo_request)"
    using demo_wrong
    by (simp add: failing_def demo_request_def remoteIP_def loginAttemptWindow_def duration_units)
       (simp add: demo_auth_def)
  have "\<exists>n\<ge>1. fst (authLogin (demo_auth 100) demo_host demo_request
      (logins demo_host (replicate 10 (demo_auth 99, demo_request)) demo_server)) = Rate_limited n \<and>
    sv_store (snd (authLogin (demo_auth 100) demo_host demo_request
      (logins demo_host (replicate 10 (demo_auth 99, demo_request)) demo_server))) = sv_store demo_server \<and>
    sv_sessions (snd (authLogin (demo_auth 100) demo_host demo_request
      (logins demo_host (replicate 10 (demo_auth 99, demo_request)) demo_server))) = sv_sessions demo_server"
  proof (rule login_limit [where a = "''10.0.0.9''"])
    show "attempts_of demo_server ''10.0.0.9'' = []" by (simp add: attempts_of_def demo_server_def)
    have "ae_now (demo_auth 100) = 100" by (simp add: demo_auth_def)
    then show "list_all (failing ''10.0.0.9'' (ae_now (demo_auth 100)) demo_server) (replicate 10 (demo_auth 99, demo_request))"
      using failing by (simp add: list_all_iff)
    show "remoteIP (demo_auth 100) demo_request = ''10.0.0.9''"
      by (simp add: remoteIP_def demo_request_def demo_auth_def)
  qed (simp_all add: demo_server_ok demo_request_def)
  then show ?thesis by blast
qed

lemma normalize_hash_commutes:
  "normalize env (c\<lparr>c_Admin := (c_Admin c)\<lparr>adm_PasswordHash := p\<rparr>\<rparr>) =
   (normalize env c)\<lparr>c_Admin := (c_Admin (normalize env c))\<lparr>adm_PasswordHash := p\<rparr>\<rparr>"
proof -
  have "normalize_local env (a\<lparr>adm_PasswordHash := p\<rparr>) = normalize_local env a" for a
    by (intro ext) (simp add: normalize_local_def LocalPageURL_def)
  then have "normalize_pagelist env (a\<lparr>adm_PasswordHash := p\<rparr>) k = normalize_pagelist env a k" for a k
    by (simp add: normalize_pagelist_def normalizeLocalPages_def)
  moreover have "normalize_admin env (a\<lparr>adm_PasswordHash := p\<rparr>) = (normalize_admin env a)\<lparr>adm_PasswordHash := p\<rparr>" for a
    by (simp add: normalize_admin_def)
  ultimately show ?thesis by (simp add: normalize_def migrateSchema_def Let_def)
qed

lemma Validate_hash: "Validate env (c\<lparr>c_Admin := (c_Admin c)\<lparr>adm_PasswordHash := p\<rparr>\<rparr>) = Validate env c"
  by (simp add: Validate_def validate_admin_def)

lemma demo_mutate:
  obtains st where "mutate_server next_host (set_password hash) demo_server = (None, demo_server\<lparr>sv_store := st\<rparr>)"
proof -
  let ?c = "demo_config\<lparr>c_Admin := (c_Admin demo_config)\<lparr>adm_PasswordHash := hash\<rparr>\<rparr>"
  let ?base = "demo_config\<lparr>c_LoadWarning := ''''\<rparr>"
  have same: "c\<lparr>c_Path := c_Path c\<rparr> = c" for c :: Config by simp
  have warn: "c_LoadWarning demo_config = ''''"
    by (simp add: demo_config_def demo_saved_def normalize_def migrateSchema_def Let_def)
  have "js_decode (hs_codec next_host) zero_config (js_compact (hs_codec next_host) demo_config) =
      Some (demo_config\<lparr>c_Path := '''', c_LoadWarning := ''''\<rparr>)"
    by (simp add: next_host_def demo_host_def zero_config_def)
  moreover have "hide_password_flag (demo_config\<lparr>c_Path := '''', c_LoadWarning := ''''\<rparr>\<lparr>c_Path := c_Path demo_config\<rparr>) = demo_config"
  proof -
    have "demo_config\<lparr>c_Path := '''', c_LoadWarning := ''''\<rparr>\<lparr>c_Path := c_Path demo_config\<rparr> = demo_config"
      using warn by (cases demo_config) simp
    then show ?thesis by (simp only: demo_config_facts(3))
  qed
  ultimately have m: "Mutate next_host (set_password hash) demo_store = save_next next_host ?c demo_store"
    by (simp add: Mutate_def set_password_def demo_store_def)
  have hidden: "hide_password_flag ?c = ?c"
  proof -
    have "c_MQTT (hide_password_flag demo_config) = c_MQTT demo_config" by (simp only: demo_config_facts(3))
    then have "(c_MQTT demo_config)\<lparr>mq_PasswordConfigured := False\<rparr> = c_MQTT demo_config"
      by (simp add: hide_password_flag_def)
    then show ?thesis by (simp add: hide_password_flag_def)
  qed
  have "normalize demo_env ?c = ?c" using demo_config_facts(2) by (simp add: normalize_hash_commutes)
  moreover have "Validate demo_env ?c = None" using demo_valid(1) by (simp add: Validate_hash demo_config_def [symmetric])
  ultimately obtain d where "saveLocked next_host ?c (so_disk demo_store) = (None, ?c, d)"
    using saveLocked_works [of next_host ?c "so_disk demo_store"] demo_config_facts(1) by auto
  then have "save_next next_host ?c demo_store = (None, demo_store\<lparr>so_config := ?c, so_changed := True, so_disk := d\<rparr>)"
    by (simp add: save_next_def hidden)
  then show thesis using that m by (simp add: mutate_server_def demo_server_def)
qed

lemma next_store_ok: "store_ok next_host demo_store"
  using demo_store_ok by (simp add: store_ok_def demo_store_def demo_texts)

lemma password_change_ends_sessions_witness:
  "\<exists>s'. authPassword (demo_auth 1) next_host demo_request demo_server = (Done, s') \<and>
     login_ok (demo_auth 1) demo_body s' \<and>
     (validToken s' demo_request \<or> fst (authenticated (demo_auth 2) demo_request s') = False)"
proof -
  have argon: "argon_ok (demo_auth 1) ''secret-password''"
    by (simp add: argon_ok_def reads_back_def demo_auth_def)
  obtain hash where hash: "HashPassword (demo_auth 1) (cr_Next demo_body) = Some hash"
    by (simp add: HashPassword_def demo_auth_def)
  obtain st where m: "mutate_server next_host (set_password hash) demo_server = (None, demo_server\<lparr>sv_store := st\<rparr>)"
    using demo_mutate .
  have body: "rq_Body demo_request = Some demo_body" "rq_Method demo_request = ''POST''" by (simp_all add: demo_request_def)
  have "\<exists>s'. authPassword (demo_auth 1) next_host demo_request demo_server = (Done, s')"
    using m hash by (simp add: authPassword_def body demo_admin) (simp add: demo_body_def weak_password_def)
  then obtain s' where s': "authPassword (demo_auth 1) next_host demo_request demo_server = (Done, s')" by blast
  have st: "store_ok next_host (sv_store demo_server)"
    "temp_apart next_host (c_Path (so_config (sv_store demo_server)))"
    using next_store_ok by (simp_all add: demo_server_def)
  show ?thesis
    using password_change_ends_sessions [OF s' body(1) st, where body' = demo_body and r' = demo_request
        and env' = "demo_auth 2" and env'' = "demo_auth 2"] s' argon
    by (auto simp: demo_body_def) (simp add: demo_auth_def)+
qed

lemma busy_steps: "0 \<le> d \<Longrightarrow> d < 5 * Minute \<Longrightarrow> busy (int k * d) (map (\<lambda>i. int i * d) [Suc k..<Suc k + n])"
proof (induction n arbitrary: k)
  case (Suc n)
  have "[Suc k..<Suc k + Suc n] = Suc k # [Suc (Suc k)..<Suc (Suc k) + n]"
    by (simp add: upt_conv_Cons)
  then show ?case using Suc.IH [of "Suc k"] Suc.prems by (simp add: distrib_right)
qed simp

lemma last_steps: "0 < n \<Longrightarrow> last (x # map f [Suc k..<Suc k + n]) = f (k + n)"
  by (simp add: last_map)

text \<open>A page that asks every four minutes for a day and four minutes.\<close>

definition demo_polls :: "time list" where
  "demo_polls = map (\<lambda>i. int i * (4 * Minute)) [Suc 0..<Suc 0 + 361]"

lemma busy_session_lost_at_restart_witness:
  "fst (authenticated (demo_auth (361 * (4 * Minute))) demo_request
      (poll (demo_auth (361 * (4 * Minute))) demo_request demo_polls demo_server)) = True \<and>
   fst (authenticated (demo_auth (361 * (4 * Minute))) demo_request
      (NewServer (demo_auth (361 * (4 * Minute)))
        (sv_store (poll (demo_auth (361 * (4 * Minute))) demo_request demo_polls demo_server))
        (sv_file (poll (demo_auth (361 * (4 * Minute))) demo_request demo_polls demo_server)))) = False"
proof -
  let ?env = "demo_auth (361 * (4 * Minute))"
  have "last (0 # demo_polls) = int (0 + 361) * (4 * Minute)"
    unfolding demo_polls_def by (rule last_steps) simp
  then have upto: "last (0 # demo_polls) = 361 * (4 * Minute)" by simp
  have key: "sessionKey ?env ''cookie'' = sessionKey (demo_auth 0) ''cookie''"
    by (simp add: sessionKey_def demo_auth_def)
  have right: "stored_right ?env demo_table"
    by (simp add: stored_right_def demo_table_def isSessionHash_def sessionKey_def demo_session_def) (simp add: demo_auth_def)
  have "busy (int 0 * (4 * Minute)) demo_polls"
    unfolding demo_polls_def by (rule busy_steps) (simp_all add: duration_units)
  then have "busy 0 demo_polls" by simp
  moreover have "ae_now ?env = last (0 # demo_polls)" unfolding upto by (simp add: demo_auth_def)
  moreover have "ae_now ?env = 361 * (4 * Minute)" by (simp add: demo_auth_def)
  ultimately have times: "busy (ss_LastSeen demo_session) demo_polls" "ae_now ?env = last (ss_LastSeen demo_session # demo_polls)"
    "ae_now ?env - ss_Created demo_session \<le> 7 * 24 * Hour" "24 * Hour < ae_now ?env - ss_LastSeen demo_session"
    by (simp_all add: demo_session_def duration_units)
  have table: "map_of demo_table (sessionKey ?env ''cookie'') = Some demo_session" "distinct (map fst demo_table)"
    "sv_file demo_server = Some demo_table" "sv_sessions demo_server = demo_table" "rq_Cookie demo_request = Some ''cookie''"
    "c_Path (so_config (sv_store demo_server)) \<noteq> ''''" "''cookie'' \<noteq> ''''"
    by (simp_all only: key) (simp_all add: demo_table_def demo_server_def demo_request_def)
  let ?s = "poll ?env demo_request demo_polls demo_server"
  have "fst (authenticated ?env demo_request ?s) = True \<and> sv_file ?s = Some demo_table \<and>
    fst (authenticated ?env demo_request (NewServer ?env (sv_store ?s) (sv_file ?s))) = False"
    by (rule busy_session_lost_at_restart [OF right table(3,1) table(2) [folded table(4)] table(1) [folded table(4)]
          table(5,7) demo_no_token table(6) times refl])
  then show ?thesis by blast
qed

lemma sign_in_survives_restart_witness:
  "\<exists>s'. authLogin (demo_auth 1) demo_host
      (demo_request\<lparr>rq_Body := Some (demo_body\<lparr>cr_Token := ''token''\<rparr>)\<rparr>) demo_server = (Accepted ''csrf'', s') \<and>
    fst (authenticated (demo_auth 2) demo_request (NewServer (demo_auth 2) (sv_store s') (sv_file s'))) = True"
proof -
  let ?r = "demo_request\<lparr>rq_Body := Some (demo_body\<lparr>cr_Token := ''token''\<rparr>)\<rparr>"
  let ?new = "new_session (demo_auth 1) ?r"
  let ?key = "sessionKey (demo_auth 1) ''cookie''"
  have key: "sessionKey (demo_auth 0) ''cookie'' = ?key" by (simp add: sessionKey_def demo_auth_def)
  have now: "ae_now (demo_auth n) = n" "ae_writable (demo_auth n)" "ae_cookie (demo_auth n) = ''cookie''"
    "ae_csrf (demo_auth n) = ''csrf''" "ae_sha256 (demo_auth 2) = ae_sha256 (demo_auth n)" for n by (simp_all add: demo_auth_def)
  let ?s' = "audit ''login'' ''ok'' (demo_server\<lparr>sv_sessions := [(?key, ?new)], sv_file := Some [(?key, ?new)]\<rparr>)"
  have "login_ok env (demo_body\<lparr>cr_Token := ''token''\<rparr>) demo_server" for env
    by (simp add: login_ok_def demo_admin)
  moreover have "upgrade_hash env h p demo_server = demo_server" for env h p
    by (simp add: upgrade_hash_def demo_admin has_prefix_def)
  moreover have "allowAttempt (demo_auth 1) ?r demo_server = ((True, 0), demo_server)"
    by (simp add: allowAttempt_def demo_server_def loginAttemptLimit_def)
  moreover have evict: "evict_sessions [x] = [x]" for x by (subst evict_sessions.simps) simp
  moreover have "createSession (demo_auth 1) ?r demo_server =
      (?new, demo_server\<lparr>sv_sessions := [(?key, ?new)], sv_file := Some [(?key, ?new)]\<rparr>)"
    by (simp add: createSession_def pruneSessions_def persistSessions_def now demo_server_def demo_table_def key
        demo_session_def session_alive_def duration_units Snapshot_def demo_store_def demo_config_facts evict Let_def)
  moreover have "clearAttempts env r demo_server = demo_server" for env r
    by (simp add: clearAttempts_def demo_server_def)
  ultimately have login: "authLogin (demo_auth 1) demo_host ?r demo_server = (Accepted ''csrf'', ?s')"
    by (simp add: authLogin_def start_session_def) (simp add: demo_request_def new_session_def now)
  have "length ?key = 64" by (simp add: sessionKey_def demo_auth_def)
  then have hash: "isSessionHash (demo_auth 2) ?key" "?key \<noteq> ''''" by (auto simp: isSessionHash_def demo_auth_def)
  have "fst (authenticated (demo_auth 2) demo_request (NewServer (demo_auth 2) (sv_store ?s') (sv_file ?s'))) = True \<and>
    sessionCSRF (demo_auth 2) (NewServer (demo_auth 2) (sv_store ?s') (sv_file ?s')) demo_request = ''csrf''"
  proof (rule sign_in_survives_restart [OF login, where env' = "demo_auth 2", OF _ _ _ _ _ demo_server_ok _ _ _ _ _ _ refl])
    show "stored_right (demo_auth 2) (sv_sessions ?s')"
      using hash \<open>length ?key = 64\<close> by (auto simp: stored_right_def new_session_def now sessionFingerprint_def)
    show "c_Path (so_config (sv_store ?s')) \<noteq> ''''" by (simp add: demo_server_def demo_store_def demo_config_facts)
    show "rq_Cookie demo_request = Some (ae_cookie (demo_auth 1))" by (simp add: demo_request_def now)
    show "'''' \<notin> fst ` set (sv_sessions demo_server)" using hash(2) by (auto simp: demo_server_def demo_table_def key)
    show "list_all (\<lambda>(k, ss). ss_LastSeen ss < ae_now (demo_auth 1)) (sv_sessions demo_server)"
      by (simp add: demo_server_def demo_table_def demo_session_def now)
  qed (use hash in \<open>simp_all add: now duration_units\<close>)
  with login show ?thesis by blast
qed

end
