(* ===== verification/Admin_Config_Props.thy ===== *)
theory Admin_Config_Props
  imports Admin_Config Admin_Auth_Props
begin

section \<open>Properties of the configuration handlers\<close>

text \<open>
  Saving the configuration as it was shown keeps the secrets the client never saw; what a save loses
  when the password is changed between its two steps; and what the diagnostics export shows.
\<close>

subsection \<open>Secrets survive a save\<close>

lemma normalizeLocalPage_key: "\<not> loc_ImmichKeyConfigured (normalizeLocalPage t l)"
  by (simp add: normalizeLocalPage_def Let_def zero_local_def)

definition keys_hidden :: "Config \<Rightarrow> bool" where
  \<comment> \<open>no page of the stored configuration has the flag that only answers carry\<close>
  "keys_hidden c \<longleftrightarrow> list_all (\<lambda>p. case pg_Local p of None \<Rightarrow> True | Some l \<Rightarrow> \<not> loc_ImmichKeyConfigured l) (k_Pages (c_Kiosk c))"

lemma normalize_pages_eq:
  "k_Pages (c_Kiosk (normalize env c)) =
     k_Pages (normalize_pagelist env (c_Admin (normalize env c)) (c_Kiosk (migrateSchema (hide_password_flag c))))"
  by (simp add: normalize_def Let_def hide_password_flag_def)

lemma normalize_keys_hidden: "keys_hidden (normalize env c)"
  by (auto simp: keys_hidden_def normalize_pages_eq normalize_pagelist_pages normalize_local_def list_all_iff
      normalizeLocalPage_key)

lemma normalize_distinct_ids: "distinct (map pg_PageID (k_Pages (c_Kiosk (normalize env c))))"
  unfolding normalize_pages_eq by (rule normalize_pagelist_pages_ok)

lemma map_of_rev: "distinct (map fst t) \<Longrightarrow> map_of (rev t) = map_of t"
  by (simp add: map_of_inject_set rev_map [symmetric])

lemma map_of_stored:
  assumes "distinct (map pg_PageID (k_Pages (c_Kiosk c)))" "p \<in> set (k_Pages (c_Kiosk c))"
  shows "map_of (stored_keys c) (pg_PageID p) =
    (case pg_Local p of None \<Rightarrow> None | Some l \<Rightarrow> if loc_ImmichAPIKey l = '''' then None else Some (loc_ImmichAPIKey l))"
proof -
  let ?f = "\<lambda>p. case pg_Local p of None \<Rightarrow> None
    | Some l \<Rightarrow> if loc_ImmichAPIKey l = '''' then None else Some (pg_PageID p, loc_ImmichAPIKey l)"
  have keys: "set (map fst (List.map_filter ?f ps)) \<subseteq> set (map pg_PageID ps)" for ps
    by (induction ps) (auto simp: List.map_filter_simps split: option.splits if_splits)
  have dist: "distinct (map pg_PageID ps) \<Longrightarrow> distinct (map fst (List.map_filter ?f ps))" for ps
  proof (induction ps)
    case (Cons q ps)
    then show ?case using keys [of ps]
      by (auto simp: List.map_filter_simps split: option.splits if_splits)
  qed (simp add: List.map_filter_simps)
  have "distinct (map pg_PageID ps) \<Longrightarrow> p \<in> set ps \<Longrightarrow> map_of (List.map_filter ?f ps) (pg_PageID p) =
    (case pg_Local p of None \<Rightarrow> None | Some l \<Rightarrow> if loc_ImmichAPIKey l = '''' then None else Some (loc_ImmichAPIKey l))" for ps
  proof (induction ps)
    case (Cons q ps)
    show ?case
    proof (cases "q = p")
      case True
      then have "pg_PageID p \<notin> set (map fst (List.map_filter ?f ps))" using Cons.prems(1) keys [of ps] by auto
      then have "map_of (List.map_filter ?f ps) (pg_PageID p) = None"
        by (simp add: map_of_eq_None_iff del: List.map_filter_simps)
      then show ?thesis using True by (auto simp: List.map_filter_simps split: option.split)
    next
      case False
      then have "pg_PageID q \<noteq> pg_PageID p" using Cons.prems by auto
      then show ?thesis using Cons False by (auto simp: List.map_filter_simps split: option.split)
    qed
  qed simp
  then show ?thesis
    using assms dist [OF assms(1)] by (simp add: stored_keys_def map_of_rev)
qed

lemma keep_key_hide_key:
  "\<not> loc_ImmichKeyConfigured l \<Longrightarrow>
   map_of stored i = (if loc_ImmichAPIKey l = '''' then None else Some (loc_ImmichAPIKey l)) \<Longrightarrow>
   keep_key stored i (hide_key l) = l"
  by (simp add: keep_key_def hide_key_def)

lemma keep_secrets_public:
  assumes "keys_hidden c" "distinct (map pg_PageID (k_Pages (c_Kiosk c)))"
    and "\<not> mq_PasswordConfigured (c_MQTT c)" "c_Revision c = ''''"
  shows "keep_secrets c ((publicConfigSnapshot c)\<lparr>c_Path := p, c_LoadWarning := w, c_Revision := rv\<rparr>) = c\<lparr>c_LoadWarning := w\<rparr>"
proof -
  have page: "pg_Local_update (map_option (keep_key (stored_keys c) (pg_PageID q)))
      (pg_Local_update (map_option hide_key) q) = q" if q: "q \<in> set (k_Pages (c_Kiosk c))" for q
  proof (cases "pg_Local q")
    case (Some l)
    then have "\<not> loc_ImmichKeyConfigured l" using assms(1) q by (auto simp: keys_hidden_def list_all_iff)
    then have "keep_key (stored_keys c) (pg_PageID q) (hide_key l) = l"
      using map_of_stored [OF assms(2) q] Some by (intro keep_key_hide_key) simp_all
    then show ?thesis using Some by (cases q) simp
  qed (cases q, simp)
  have pages: "map (\<lambda>p. pg_Local_update (map_option (keep_key (stored_keys c) (pg_PageID p))) p)
      (map (pg_Local_update (map_option hide_key)) (k_Pages (c_Kiosk c))) = k_Pages (c_Kiosk c)"
    using page by (simp add: comp_def map_idI)
  have mqtt: "(c_MQTT c)\<lparr>mq_PasswordConfigured := False\<rparr> = c_MQTT c"
    using assms(3) by (cases "c_MQTT c") simp
  show ?thesis
    using pages mqtt assms(4)
    by (simp add: keep_secrets_def keepImmichKeys_def publicConfigSnapshot_def)
qed

lemma Replace_own:
  assumes "store_ok h st" "temp_apart h (c_Path c)" "c_Path c = c_Path (so_config st)"
    and "normalize (hs_config h) c = c" "Validate (hs_config h) c = None" "hide_password_flag c = c"
  shows "so_config (snd (Replace h (Some c) st)) \<in> {so_config st, c}"
    "working (hs_disk h) \<Longrightarrow> \<exists>st'. Replace h (Some c) st = (None, st') \<and> so_config st' = c"
proof -
  have "c\<lparr>c_Path := c_Path c\<rparr> = c" by simp
  then have own: "Replace h (Some c) st = save_next h c st"
    using assms(3) by (simp only: Replace_def option.case)
  have path: "c_Path c \<noteq> ''''" using assms(1,3) by (simp add: store_ok_def)
  show "so_config (snd (Replace h (Some c) st)) \<in> {so_config st, c}"
    unfolding own by (cases rule: save_next_cases [OF assms(2) path, of st]) (use assms in simp_all)
  show "\<exists>st'. Replace h (Some c) st = (None, st') \<and> so_config st' = c" if w: "working (hs_disk h)"
  proof -
    obtain d where "saveLocked h c (so_disk st) = (None, c, d)"
      using saveLocked_works [OF w assms(2) path assms(4,5)] .
    then show ?thesis by (simp add: own save_next_def assms(6))
  qed
qed

definition settled_store :: "host_env \<Rightarrow> store \<Rightarrow> bool" where
  \<comment> \<open>a store in order, whose configuration is one that normalization leaves alone\<close>
  "settled_store h st \<longleftrightarrow>
     store_ok h st \<and> temp_apart h (c_Path (so_config st)) \<and> pages_settled (c_Kiosk (so_config st)) \<and>
     ce_token (hs_config h) \<noteq> '''' \<and> c_Revision (so_config st) = '''' \<and> c_LoadWarning (so_config st) = ''''"

lemma settled_store_facts:
  assumes "settled_store h st"
  defines "c \<equiv> so_config st"
  shows "normalize (hs_config h) c = c" "Validate (hs_config h) c = None" "hide_password_flag c = c"
    "keys_hidden c" "distinct (map pg_PageID (k_Pages (c_Kiosk c)))" "\<not> mq_PasswordConfigured (c_MQTT c)"
proof -
  have ok: "store_ok h st" using assms(1) by (simp add: settled_store_def)
  then obtain c0 where c0: "c = normalize (hs_config h) c0" by (auto simp: store_ok_def c_def)
  show n: "normalize (hs_config h) c = c"
    using assms(1) c0 normalize_idempotent by (simp add: settled_store_def c_def)
  show "Validate (hs_config h) c = None" using ok by (simp add: store_ok_def c_def)
  show flag: "\<not> mq_PasswordConfigured (c_MQTT c)" by (simp add: c0 normalize_parts)
  have "(c_MQTT c)\<lparr>mq_PasswordConfigured := False\<rparr> = c_MQTT c" using flag by (cases "c_MQTT c") simp
  then show "hide_password_flag c = c" by (simp add: hide_password_flag_def)
  show "keys_hidden c" "distinct (map pg_PageID (k_Pages (c_Kiosk c)))"
    by (simp_all add: c0 normalize_keys_hidden normalize_distinct_ids)
qed

definition shown :: "host_env \<Rightarrow> (Config \<Rightarrow> string) \<Rightarrow> store \<Rightarrow> string \<Rightarrow> bool" where
  \<comment> \<open>a text that decodes to the configuration as the server shows it, with its revision\<close>
  "shown h digest st data \<longleftrightarrow>
     js_decode (hs_codec h) zero_config data = Some ((publicConfig st)
       \<lparr>c_Path := '''', c_LoadWarning := '''', c_Revision := configRevision digest (publicConfig st)\<rparr>)"

lemma decode_shown:
  assumes "settled_store h st" "shown h digest st data"
  shows "decodeConfig h (Snapshot st) data = Inr (so_config st)"
    "base_revision h data = configRevision digest (publicConfig st)"
proof -
  have revision: "c_Revision (so_config st) = ''''" and warning: "c_LoadWarning (so_config st) = ''''"
    using assms(1) by (simp_all add: settled_store_def)
  have same: "(so_config st)\<lparr>c_LoadWarning := ''''\<rparr> = so_config st" using warning by (cases "so_config st") simp
  note f = settled_store_facts [OF assms(1)]
  show "decodeConfig h (Snapshot st) data = Inr (so_config st)"
    using assms(2) f(2) keep_secrets_public [OF f(4,5,6) revision] same
    by (simp add: shown_def decodeConfig_def publicConfig_def Snapshot_def)
  show "base_revision h data = configRevision digest (publicConfig st)"
    using assms(2) by (simp add: shown_def base_revision_def)
qed

text \<open>C10: A client that posts the configuration exactly as it was shown, without the passwords, tokens and
  keys it never received, is not refused as outdated, and the stored configuration, secrets included,
  stays what it was; on a working disk the save succeeds.\<close>

theorem shown_config_saves_back:
  assumes "settled_store h (sv_store s)" "shown h digest (sv_store s) (cq_Data r)" "cq_Method r = ''POST''"
    and "config_handler h digest r s = (answer, s')"
  shows "so_config (sv_store s') = so_config (sv_store s) \<and>
    (\<forall>rev. answer \<noteq> Changed_elsewhere rev) \<and>
    (working (hs_disk h) \<longrightarrow>
       answer = Saved (Conflicts (c_Kiosk (so_config (sv_store s)))) (configRevision digest (publicConfig (sv_store s))))"
proof -
  let ?c = "so_config (sv_store s)"
  note d = decode_shown [OF assms(1,2)]
  note f = settled_store_facts [OF assms(1)]
  have ok: "store_ok h (sv_store s)" "temp_apart h (c_Path ?c)" using assms(1) by (simp_all add: settled_store_def)
  note own = Replace_own [OF ok refl f(1,2,3)]
  have "config_handler h digest r s = commit_config h digest r ?c s"
    using assms(3) d(1) by (simp add: config_handler_def)
  then show ?thesis
    using assms(4) d(2) own
    by (auto simp: commit_config_def publicConfig_def Snapshot_def split: prod.splits option.splits)
qed

subsection \<open>A password change between the steps of a save\<close>

definition codec_copies :: "host_env \<Rightarrow> Config \<Rightarrow> bool" where
  \<comment> \<open>encoding and decoding copies the configuration, except for the two fields without a key\<close>
  "codec_copies h c \<longleftrightarrow>
     js_decode (hs_codec h) zero_config (js_compact (hs_codec h) c) = Some (c\<lparr>c_Path := '''', c_LoadWarning := ''''\<rparr>)"

definition with_hash :: "string \<Rightarrow> Config \<Rightarrow> Config" where
  "with_hash p c = c\<lparr>c_Admin := (c_Admin c)\<lparr>adm_PasswordHash := p\<rparr>\<rparr>"

lemma with_hash_public: "publicConfigSnapshot (with_hash p c) = publicConfigSnapshot c"
  by (simp add: publicConfigSnapshot_def with_hash_def)

lemma set_password_store:
  assumes "settled_store h st" "codec_copies h (so_config st)" "Mutate h (set_password hash) st = (None, st')"
  shows "so_config st' = with_hash hash (so_config st)"
proof -
  let ?c = "so_config st"
  note f = settled_store_facts [OF assms(1)]
  have ok: "store_ok h st" "temp_apart h (c_Path ?c)" "c_LoadWarning ?c = ''''" "c_Path ?c \<noteq> ''''"
    using assms(1) by (simp_all add: settled_store_def store_ok_def)
  have "?c\<lparr>c_Path := '''', c_LoadWarning := '''', c_Path := c_Path ?c\<rparr> = ?c"
    using ok(3) by (cases ?c) simp
  then have copy: "hide_password_flag (?c\<lparr>c_Path := '''', c_LoadWarning := ''''\<rparr>\<lparr>c_Path := c_Path ?c\<rparr>) = ?c"
    using f(3) by simp
  have "Mutate h (set_password hash) st = save_next h (with_hash hash ?c) st"
    using assms(2) copy by (simp add: Mutate_def codec_copies_def set_password_def with_hash_def Let_def)
  moreover have path: "temp_apart h (c_Path (with_hash hash ?c))" "c_Path (with_hash hash ?c) \<noteq> ''''"
    using ok by (simp_all add: with_hash_def)
  moreover have "normalize (hs_config h) (hide_password_flag (with_hash hash ?c)) = with_hash hash ?c"
  proof -
    have "hide_password_flag (with_hash hash ?c) = with_hash hash (hide_password_flag ?c)"
      by (simp add: hide_password_flag_def with_hash_def)
    then show ?thesis using f(1,3) normalize_hash_commutes by (simp add: with_hash_def)
  qed
  ultimately show ?thesis
    using assms(3) by (cases rule: save_next_cases [OF path, of st]) auto
qed

text \<open>C38: A save that is decoded before a password change and takes the lock after it is accepted, because
  the revision does not cover the password, and puts the old password back: the configuration is the
  one from before the change, and the new password no longer signs in.\<close>

theorem password_change_lost:
  assumes "settled_store h (sv_store s)" "codec_copies h (so_config (sv_store s))" "working (hs_disk h)"
    and "shown h digest (sv_store s) (cq_Data r)"
    and "authPassword env h r1 s = (Done, s1)"
    and "decodeConfig h (Snapshot (sv_store s)) (cq_Data r) = Inr c"
    and "commit_config h digest r c s1 = (answer, s2)"
  shows "answer = Saved (Conflicts (c_Kiosk (so_config (sv_store s)))) (configRevision digest (publicConfig (sv_store s))) \<and>
    so_config (sv_store s2) = so_config (sv_store s)"
proof -
  let ?c = "so_config (sv_store s)"
  note f = settled_store_facts [OF assms(1)]
  have ok: "store_ok h (sv_store s)" "temp_apart h (c_Path ?c)" using assms(1) by (simp_all add: settled_store_def)
  have c: "c = ?c" using decode_shown(1) [OF assms(1,4)] assms(6) by simp
  obtain hash st1 where st1: "Mutate h (set_password hash) (sv_store s) = (None, st1)" "sv_store s1 = st1"
    using assms(5)
    by (auto simp: authPassword_def mutate_server_def Let_def end_all_sessions_def persistSessions_def
        split: if_splits option.splits prod.splits)
  have new: "so_config st1 = with_hash hash ?c" by (rule set_password_store [OF assms(1,2) st1(1)])
  have "publicConfig st1 = publicConfig (sv_store s)"
    by (simp add: publicConfig_def Snapshot_def new with_hash_public)
  then have current: "base_revision h (cq_Data r) = configRevision digest (publicConfig st1)"
    using decode_shown(2) [OF assms(1,4)] by simp
  have "path_kept (Mutating (set_password hash))" by (auto simp: path_kept_def set_password_def)
  then have "store_ok h st1"
    using live.ok [of "Mutating (set_password hash)" h "sv_store s"] ok st1 by simp
  moreover have "c_Path ?c = c_Path (so_config st1)" by (simp add: new with_hash_def)
  ultimately obtain st2 where st2: "Replace h (Some ?c) st1 = (None, st2)" "so_config st2 = ?c"
    using Replace_own(2) [OF _ ok(2) _ f(1,2,3) assms(3)] by blast
  then show ?thesis
    using assms(7) current st1(2) c by (auto simp: commit_config_def publicConfig_def Snapshot_def)
qed

subsection \<open>The diagnostics export\<close>

fun leaves :: "string \<Rightarrow> json \<Rightarrow> (string \<times> json) list" where
  \<comment> \<open>the values without parts, each with the key it stands under\<close>
  "leaves key (Object entries) = concat (map (\<lambda>(k, v). leaves k v) entries)"
| "leaves key (Items items) = concat (map (leaves key) items)"
| "leaves key v = [(key, v)]"

lemma leaves_redact:
  "leaves key (redactValue strip_url key v) = map (\<lambda>(k, x). (k, redactValue strip_url k x)) (leaves key v)"
proof (induction v arbitrary: key)
  case (Object entries)
  have "leaves k (redactValue strip_url k x) = map (\<lambda>(k, x). (k, redactValue strip_url k x)) (leaves k x)"
    if "(k, x) \<in> set entries" for k x
    using Object.IH [OF that] by simp
  then show ?case by (simp add: map_concat comp_def case_prod_unfold) (auto intro!: arg_cong [of _ _ concat])
next
  case (Items items)
  then show ?case by (simp add: map_concat comp_def) (auto intro!: arg_cong [of _ _ concat])
qed simp_all


subsection \<open>Examples\<close>

definition save_host :: host_env where
  \<comment> \<open>a working disk and a codec that also reads a posted configuration\<close>
  "save_host = next_host\<lparr>hs_codec := (hs_codec next_host)\<lparr>js_decode := (\<lambda>base t. if t = ''save''
     then Some ((publicConfigSnapshot demo_config)\<lparr>c_Path := '''', c_LoadWarning := '''', c_Revision := ''rev''\<rparr>)
     else js_decode (hs_codec next_host) base t)\<rparr>\<rparr>"

definition demo_save :: config_request where
  "demo_save = \<lparr>cq_Method = ''POST'', cq_Data = ''save'', cq_Force = False, cq_DryRun = False, cq_Path = ''''\<rparr>"

lemma save_host_facts [simp]:
  "hs_config save_host = demo_env" "temp_apart save_host p = temp_apart next_host p" "working (hs_disk save_host)"
  "file_text save_host = file_text next_host"
  by (simp_all add: save_host_def temp_apart_def working_def next_host_def fun_eq_iff file_text_def)

lemma demo_config_untouched: "c_LoadWarning demo_config = ''''" "c_Revision demo_config = ''''"
  by (simp_all add: demo_config_def demo_saved_def normalize_def migrateSchema_def Let_def defaults_def)

lemma demo_settled_store: "settled_store save_host (sv_store demo_server)"
  using next_store_ok demo_config_facts demo_config_untouched
  by (simp add: settled_store_def store_ok_def demo_server_def demo_store_def)

lemma demo_shown: "shown save_host (\<lambda>_. ''rev'') (sv_store demo_server) (cq_Data demo_save)"
  by (simp add: shown_def save_host_def demo_save_def publicConfig_def Snapshot_def configRevision_def demo_server_def demo_store_def)

lemma shown_config_saves_back_witness:
  "\<exists>answer s'. config_handler save_host (\<lambda>_. ''rev'') demo_save demo_server = (answer, s') \<and>
     so_config (sv_store s') = so_config (sv_store demo_server)"
proof -
  obtain answer s' where r: "config_handler save_host (\<lambda>_. ''rev'') demo_save demo_server = (answer, s')" by fastforce
  show ?thesis
    using shown_config_saves_back [OF demo_settled_store demo_shown _ r] r by (simp add: demo_save_def)
qed

lemma demo_codec_copies: "codec_copies save_host (so_config (sv_store demo_server))"
  by (simp add: codec_copies_def save_host_def next_host_def demo_host_def demo_server_def demo_store_def zero_config_def)

lemma password_change_lost_witness:
  "\<exists>s1 s2 answer. authPassword (demo_auth 1) save_host demo_request demo_server = (Done, s1) \<and>
     commit_config save_host (\<lambda>_. ''rev'') demo_save demo_config s1 = (answer, s2) \<and>
     so_config (sv_store s2) = so_config (sv_store demo_server)"
proof -
  let ?st = "sv_store demo_server" and ?c = "so_config (sv_store demo_server)"
  note f = settled_store_facts [OF demo_settled_store]
  have c: "?c = demo_config" by (simp add: demo_server_def demo_store_def)
  obtain hash where hash: "HashPassword (demo_auth 1) (cr_Next demo_body) = Some hash"
    by (simp add: HashPassword_def demo_auth_def)
  have changed: "\<exists>st. Mutate save_host (set_password hash) ?st = (None, st)"
  proof -
    have copy: "hide_password_flag (?c\<lparr>c_Path := '''', c_LoadWarning := ''''\<rparr>\<lparr>c_Path := c_Path ?c\<rparr>) = ?c"
    proof -
      have "?c\<lparr>c_Path := '''', c_LoadWarning := '''', c_Path := c_Path ?c\<rparr> = ?c"
        using demo_config_untouched(1) unfolding c by (cases demo_config) simp
      then show ?thesis using f(3) by simp
    qed
    have "Mutate save_host (set_password hash) ?st = save_next save_host (with_hash hash ?c) ?st"
      using demo_codec_copies copy by (simp add: Mutate_def codec_copies_def set_password_def with_hash_def Let_def)
    moreover have hidden: "hide_password_flag (with_hash hash ?c) = with_hash hash ?c"
    proof -
      have "hide_password_flag (with_hash hash ?c) = with_hash hash (hide_password_flag ?c)"
        by (simp add: hide_password_flag_def with_hash_def)
      then show ?thesis using f(3) by simp
    qed
    moreover obtain d where "saveLocked save_host (with_hash hash ?c) (so_disk ?st) = (None, with_hash hash ?c, d)"
    proof (rule saveLocked_works [of save_host "with_hash hash ?c" "so_disk ?st"])
      show "temp_apart save_host (c_Path (with_hash hash ?c))" "c_Path (with_hash hash ?c) \<noteq> ''''"
        using demo_config_facts(1) by (simp_all add: with_hash_def c)
      show "normalize (hs_config save_host) (with_hash hash ?c) = with_hash hash ?c"
        "Validate (hs_config save_host) (with_hash hash ?c) = None"
        using f(1,2) by (simp_all add: with_hash_def normalize_hash_commutes Validate_hash)
    qed simp_all
    ultimately show ?thesis by (simp add: save_next_def)
  qed
  then obtain st where st: "Mutate save_host (set_password hash) ?st = (None, st)" by blast
  have m: "mutate_server save_host (set_password hash) demo_server = (None, demo_server\<lparr>sv_store := st\<rparr>)"
    using st by (simp add: mutate_server_def)
  have body: "rq_Body demo_request = Some demo_body" "rq_Method demo_request = ''POST''" by (simp_all add: demo_request_def)
  have "\<exists>s1. authPassword (demo_auth 1) save_host demo_request demo_server = (Done, s1)"
    using m hash by (simp add: authPassword_def body demo_admin) (simp add: demo_body_def weak_password_def)
  then obtain s1 where s1: "authPassword (demo_auth 1) save_host demo_request demo_server = (Done, s1)" by blast
  obtain answer s2 where s2: "commit_config save_host (\<lambda>_. ''rev'') demo_save demo_config s1 = (answer, s2)" by fastforce
  have "decodeConfig save_host (Snapshot ?st) (cq_Data demo_save) = Inr demo_config"
    using decode_shown(1) [OF demo_settled_store demo_shown] by (simp add: c)
  from password_change_lost [OF demo_settled_store demo_codec_copies _ demo_shown s1 this s2] s1 s2
  show ?thesis by auto
qed


text \<open>The recommendation looks at the memory before the model of a Raspberry Pi 5.\<close>

lemma small_pi5_like_pi4:
  assumes "0 < memory" "memory \<le> 9 / 2"
  shows "fst (performanceRecommendation device memory) \<in> {''minimal'', ''raspberry''}"
  using assms by (simp add: performanceRecommendation_def Let_def)

end
