(* ===== verification/Tabs.thy ===== *)
theory Tabs
  imports Scheduler "HOL-Library.AList" "HOL-Library.While_Combinator"
begin

section \<open>Pages as tabs\<close>

text \<open>
  The bookkeeping of \<^verbatim>\<open>internal/supervisor/tabs.go\<close>: which Chromium tab holds which page, which of them
  are closed when there are too many, how an insert gets a tab of its own, how pages are loaded in
  advance, with the parts of \<^verbatim>\<open>showPage\<close> (browser.go) and of the monitor loop (cdp.go) that use it.
  Chromium is the list of its open tabs, the one in front and the navigations it was asked for; what
  its DevTools endpoint answers is the record \<open>tab_env\<close>. A target identifier is a string, the empty
  one stands for none, as in the code.
\<close>

type_synonym target = string

record Tabs =
  tb_active :: int
  tb_tabs :: "(int \<times> target) list"
  tb_url :: "(int \<times> string) list"
  tb_use :: "int list" \<comment> \<open>least recently used first\<close>
  tb_activeTarget :: target
  tb_retarget :: bool
  tb_pendingBlank :: "target list"
  tb_insertTab :: bool
  tb_insertBase :: int
  tb_revealTarget :: target
  tb_running :: bool
  tb_control :: "target option" \<comment> \<open>the tab the control session is connected to\<close>
  tb_navigated :: bool \<comment> \<open>the variable of the monitor loop\<close>
  tb_open :: "target list" \<comment> \<open>the tabs Chromium has\<close>
  tb_front :: target
  tb_loads :: "(target \<times> string) list" \<comment> \<open>the navigations, oldest first\<close>

record tab_env =
  te_allowed :: bool \<comment> \<open>the authentication guard has not tripped\<close>
  te_dial :: bool \<comment> \<open>the DevTools endpoint of the browser answers\<close>
  te_activate :: bool
  te_create :: "target option" \<comment> \<open>the new tab; None: an error, or no identifier\<close>
  te_navigate :: bool
  te_restart :: "target option" \<comment> \<open>the first tab of a new process; None: it does not start\<close>

definition look :: "(int \<times> string) list \<Rightarrow> int \<Rightarrow> string" where
  \<comment> \<open>reading a \<^verbatim>\<open>map[int]string\<close>\<close>
  "look m i = (case map_of m i of None \<Rightarrow> '''' | Some s \<Rightarrow> s)"

subsection \<open>Limits\<close>

definition defaultMaxTabs :: int where "defaultMaxTabs = 3"
definition lowPowerMaxTabs :: int where "lowPowerMaxTabs = 2"

definition lowPowerProfile :: "string \<Rightarrow> bool" where
  "lowPowerProfile profile \<longleftrightarrow>
     to_lower (trim_space profile) \<in> {''raspberry'', ''low-power'', ''minimal'', ''conservative''}"

definition maxTabs :: "Config \<Rightarrow> int" where
  "maxTabs cfg =
     (let n = k_MaxTabs (c_Kiosk cfg) in
      if 1 \<le> n \<and> n \<le> 8 then n
      else if lowPowerProfile (pf_Profile (c_Performance cfg)) then lowPowerMaxTabs
      else defaultMaxTabs)"

subsection \<open>Bookkeeping\<close>

definition resetTabs :: "Tabs \<Rightarrow> Tabs" where
  "resetTabs b =
     b\<lparr>tb_tabs := [], tb_use := [], tb_activeTarget := '''', tb_retarget := False, tb_pendingBlank := [],
       tb_url := [], tb_insertTab := False, tb_revealTarget := ''''\<rparr>"

definition touchTab :: "int \<Rightarrow> Tabs \<Rightarrow> Tabs" where
  "touchTab index b = b\<lparr>tb_use := filter (\<lambda>i. i \<noteq> index) (tb_use b) @ [index]\<rparr>"

definition keepTabForInsert :: "KioskConfig \<Rightarrow> int \<Rightarrow> Tabs \<Rightarrow> bool \<times> Tabs" where
  "keepTabForInsert k base b =
     (if tb_activeTarget b = '''' then (False, b)
      else (True, b\<lparr>tb_tabs := [(base, tb_activeTarget b)], tb_url := [(base, active_url k base)], tb_use := [base],
                    tb_pendingBlank := [], tb_insertBase := base\<rparr>))"

definition closeTargets :: "target list \<Rightarrow> Tabs \<Rightarrow> Tabs" where
  \<comment> \<open>\<^verbatim>\<open>Target.closeTarget\<close> for each of them\<close>
  "closeTargets ts b = b\<lparr>tb_open := filter (\<lambda>t. t \<notin> set ts) (tb_open b)\<rparr>"

definition closeOtherTabs :: "tab_env \<Rightarrow> KioskConfig \<Rightarrow> int \<Rightarrow> Tabs \<Rightarrow> Tabs" where
  "closeOtherTabs env k keep b =
     (let keepID = (if look (tb_tabs b) keep = '''' then tb_activeTarget b else look (tb_tabs b) keep);
          closing = map snd (filter (\<lambda>(index, t). index \<noteq> keep \<and> t \<noteq> keepID \<and> t \<noteq> tb_activeTarget b) (tb_tabs b));
          b = b\<lparr>tb_insertTab := False\<rparr>;
          b = (if keepID = '''' then b
               else b\<lparr>tb_tabs := [(keep, keepID)], tb_url := [(keep, active_url k keep)], tb_use := [keep]\<rparr>)
      in if closing = [] \<or> \<not> te_dial env then b else closeTargets closing b)"

definition bindControlTarget :: "KioskConfig \<Rightarrow> target \<Rightarrow> Tabs \<Rightarrow> bool \<times> Tabs" where
  "bindControlTarget k t b =
     (if t = '''' then (False, b)
      else
        (let b = (if tb_activeTarget b = '''' then
               (let b = b\<lparr>tb_activeTarget := t\<rparr> in
                if map_of (tb_tabs b) (tb_active b) = None
                then (touchTab (tb_active b) (b\<lparr>tb_tabs := AList.update (tb_active b) t (tb_tabs b)\<rparr>))
                  \<lparr>tb_url := AList.update (tb_active b) (active_url k (tb_active b)) (tb_url b)\<rparr>
                else b)
             else b)
         in if t \<in> set (tb_pendingBlank b) then (True, b\<lparr>tb_pendingBlank := filter (\<lambda>p. p \<noteq> t) (tb_pendingBlank b)\<rparr>)
            else (False, b)))"

definition consumeRetarget :: "Tabs \<Rightarrow> bool \<times> Tabs" where
  "consumeRetarget b = (if \<not> tb_retarget b then (False, b) else (True, b\<lparr>tb_retarget := False\<rparr>))"

subsection \<open>Closing the least recently used tabs\<close>

record eviction =
  ev_stop :: bool \<comment> \<open>no tab may be closed\<close>
  ev_use :: "int list"
  ev_tabs :: "(int \<times> target) list"
  ev_url :: "(int \<times> string) list"
  ev_close :: "target list"

definition evict_one :: "int list \<Rightarrow> int \<Rightarrow> eviction \<Rightarrow> eviction" where
  \<comment> \<open>a round of the loop, with the pages loaded in advance\<close>
  "evict_one preloaded keep e =
     (case find (\<lambda>i. i \<noteq> keep \<and> i \<notin> set preloaded) (ev_use e) of
        None \<Rightarrow> e\<lparr>ev_stop := True\<rparr>
      | Some oldest \<Rightarrow>
          (let t = look (ev_tabs e) oldest in
           e\<lparr>ev_use := remove1 oldest (ev_use e),
             ev_close := (if t \<noteq> '''' \<and> t \<noteq> look (ev_tabs e) keep then ev_close e @ [t] else ev_close e),
             ev_tabs := AList.delete oldest (ev_tabs e), ev_url := AList.delete oldest (ev_url e)\<rparr>))"

definition evict_loop :: "int list \<Rightarrow> int \<Rightarrow> int \<Rightarrow> eviction \<Rightarrow> eviction option" where
  "evict_loop preloaded limit keep =
     while_option (\<lambda>e. limit < int (length (ev_use e)) \<and> \<not> ev_stop e) (evict_one preloaded keep)"

definition kept_pages :: "Config \<Rightarrow> Tabs \<Rightarrow> int list" where
  "kept_pages cfg b =
     PreloadIndexes (c_Kiosk cfg) @
       (if tb_insertTab b \<or> k_PageSwitch (c_Kiosk cfg) \<noteq> ''tabs'' then [tb_insertBase b] else [])"

definition tab_limit :: "Config \<Rightarrow> Tabs \<Rightarrow> int" where
  "tab_limit cfg b =
     (if tb_insertTab b \<or> k_PageSwitch (c_Kiosk cfg) \<noteq> ''tabs'' then max (maxTabs cfg) 2 else maxTabs cfg)"

definition evictTabs :: "Config \<Rightarrow> int \<Rightarrow> Tabs \<Rightarrow> (target list \<times> Tabs) option" where
  "evictTabs cfg keep b =
     map_option (\<lambda>e. (ev_close e, b\<lparr>tb_use := ev_use e, tb_tabs := ev_tabs e, tb_url := ev_url e\<rparr>))
       (evict_loop (kept_pages cfg b) (tab_limit cfg b) keep
         \<lparr>ev_stop = False, ev_use = tb_use b, ev_tabs = tb_tabs b, ev_url = tb_url b, ev_close = []\<rparr>)"

subsection \<open>Switching and loading in advance\<close>

definition open_tab :: "target \<Rightarrow> Tabs \<Rightarrow> Tabs" where
  \<comment> \<open>\<^verbatim>\<open>Target.createTarget\<close> in the background\<close>
  "open_tab t b = b\<lparr>tb_open := tb_open b @ [t]\<rparr>"

definition tab_of_page :: "tab_env \<Rightarrow> int \<Rightarrow> Tabs \<Rightarrow> (target \<times> bool \<times> Tabs) option" where
  \<comment> \<open>activates the tab of a page, or opens a new one (the flag); None: neither was possible\<close>
  "tab_of_page env index b =
     (let t = look (tb_tabs b) index in
      if t \<noteq> '''' \<and> te_activate env \<and> t \<in> set (tb_open b) then Some (t, False, b\<lparr>tb_front := t\<rparr>)
      else case te_create env of
        None \<Rightarrow> None
      | Some new \<Rightarrow> if new = '''' then None else Some (new, True, open_tab new b))"

definition enter_tab :: "KioskConfig \<Rightarrow> int \<Rightarrow> target \<Rightarrow> bool \<Rightarrow> Tabs \<Rightarrow> Tabs" where
  \<comment> \<open>the bookkeeping of \<^verbatim>\<open>switchTab\<close> up to the eviction\<close>
  "enter_tab k index t created b =
     (let want = active_url k index in
      touchTab index
        (b\<lparr>tb_tabs := AList.update index t (tb_tabs b),
           tb_pendingBlank := (if created \<or> look (tb_url b) index \<noteq> want then add_new (tb_pendingBlank b) [t]
                               else tb_pendingBlank b),
           tb_revealTarget := (if created then t else ''''),
           tb_url := AList.update index want (tb_url b)\<rparr>))"

definition switchTab :: "tab_env \<Rightarrow> Config \<Rightarrow> int \<Rightarrow> Tabs \<Rightarrow> (bool \<times> Tabs) option" where
  \<comment> \<open>True when no error is returned; closing the control session makes the monitor loop attach anew\<close>
  "switchTab env cfg index b =
     (if \<not> tb_running b \<or> \<not> te_dial env then Some (False, b)
      else case tab_of_page env index b of
        None \<Rightarrow> Some (False, b)
      | Some (t, created, b) \<Rightarrow>
          (case evictTabs cfg index (enter_tab (c_Kiosk cfg) index t created b) of
             None \<Rightarrow> None
           | Some (closing, b) \<Rightarrow>
               Some (True, (closeTargets closing (b\<lparr>tb_activeTarget := t, tb_retarget := True\<rparr>))\<lparr>tb_control := None\<rparr>)))"

fun preload :: "KioskConfig \<Rightarrow> (int \<Rightarrow> target option) \<Rightarrow> int list \<Rightarrow> Tabs \<Rightarrow> Tabs" where
  \<comment> \<open>the loop of \<^verbatim>\<open>preloadTabs\<close>, with the tab Chromium opens for each page\<close>
  "preload k create [] b = b"
| "preload k create (index # rest) b =
     (if map_of (tb_tabs b) index \<noteq> None then preload k create rest b
      else case create index of
        None \<Rightarrow> preload k create rest b
      | Some t \<Rightarrow>
          if t = '''' then preload k create rest b
          else preload k create rest
            ((open_tab t b)\<lparr>tb_tabs := AList.update index t (tb_tabs b),
               tb_url := AList.update index (active_url k index) (tb_url b), tb_use := index # tb_use b\<rparr>))"

definition preloadTabs :: "tab_env \<Rightarrow> (int \<Rightarrow> target option) \<Rightarrow> KioskConfig \<Rightarrow> Tabs \<Rightarrow> Tabs" where
  "preloadTabs env create k b =
     (if k_PageSwitch k \<noteq> ''tabs'' \<or> k_IsolateSessions k then b
      else if PreloadIndexes k = [] \<or> \<not> te_allowed env \<or> \<not> te_dial env then b
      else preload k create (PreloadIndexes k) b)"

subsection \<open>The control session\<close>

record devToolsTarget =
  dt_ID :: target
  dt_Type :: string
  dt_WebSocketDebuggerURL :: string

definition page_target :: "devToolsTarget \<Rightarrow> bool" where
  "page_target t \<longleftrightarrow> dt_Type t = ''page'' \<and> dt_WebSocketDebuggerURL t \<noteq> ''''"

definition pickDevToolsTarget :: "devToolsTarget list \<Rightarrow> target \<Rightarrow> target option" where
  "pickDevToolsTarget targets preferred =
     (case (if preferred = '''' then None else find (\<lambda>t. dt_ID t = preferred \<and> page_target t) targets) of
        Some t \<Rightarrow> Some (dt_ID t)
      | None \<Rightarrow> map_option dt_ID (find page_target targets))"

definition attach :: "devToolsTarget list \<Rightarrow> KioskConfig \<Rightarrow> Tabs \<Rightarrow> Tabs" where
  \<comment> \<open>a round of \<^verbatim>\<open>monitorDevTools\<close> that connects: with the targets Chromium lists\<close>
  "attach targets k b =
     (case pickDevToolsTarget targets (tb_activeTarget b) of
        None \<Rightarrow> b
      | Some t \<Rightarrow>
          (let (blank, b) = bindControlTarget k t b;
               navigated = tb_navigated b \<and> \<not> blank;
               b = b\<lparr>tb_control := Some t\<rparr>
           in if navigated then b
              else b\<lparr>tb_navigated := True, tb_loads := tb_loads b @ [(t, active_url k (tb_active b))]\<rparr>))"

definition detach :: "Tabs \<Rightarrow> Tabs" where
  \<comment> \<open>the control session ends\<close>
  "detach b = snd (consumeRetarget (b\<lparr>tb_control := None\<rparr>))"

definition pendingReveal :: "target \<Rightarrow> Tabs \<Rightarrow> bool" where
  "pendingReveal t b \<longleftrightarrow> t \<noteq> '''' \<and> tb_revealTarget b = t"

definition revealWhenLoaded :: "target \<Rightarrow> bool \<Rightarrow> Tabs \<Rightarrow> Tabs" where
  \<comment> \<open>after the page has loaded or the time is over; the flag tells whether it could be brought to the front\<close>
  "revealWhenLoaded t brought b =
     (if \<not> pendingReveal t b \<or> \<not> brought then b else b\<lparr>tb_front := t, tb_revealTarget := ''''\<rparr>)"

subsection \<open>Showing a page\<close>

definition new_browser :: "target \<Rightarrow> Tabs \<Rightarrow> Tabs" where
  "new_browser t b =
     (resetTabs b)\<lparr>tb_running := True, tb_control := None, tb_navigated := False, tb_open := [t], tb_front := t, tb_loads := []\<rparr>"

definition no_browser :: "Tabs \<Rightarrow> Tabs" where
  "no_browser b = b\<lparr>tb_running := False, tb_control := None, tb_open := [], tb_loads := []\<rparr>"

definition start_tabs :: "tab_env \<Rightarrow> Tabs \<Rightarrow> bool \<times> Tabs" where
  "start_tabs env b =
     (case te_restart env of None \<Rightarrow> (False, no_browser b) | Some t \<Rightarrow> (True, new_browser t b))"

definition navigateDevTools :: "tab_env \<Rightarrow> string \<Rightarrow> Tabs \<Rightarrow> bool \<times> Tabs" where
  "navigateDevTools env url b =
     (case tb_control b of
        None \<Rightarrow> (False, b)
      | Some t \<Rightarrow> if te_navigate env then (True, b\<lparr>tb_loads := tb_loads b @ [(t, url)]\<rparr>) else (False, b))"

definition navigate_or_restart :: "tab_env \<Rightarrow> string \<Rightarrow> Tabs \<Rightarrow> bool \<times> Tabs" where
  "navigate_or_restart env url b =
     (case navigateDevTools env url b of (True, b) \<Rightarrow> (True, b) | (False, b) \<Rightarrow> start_tabs env b)"

definition show_in_tab :: "tab_env \<Rightarrow> Config \<Rightarrow> int \<Rightarrow> bool \<Rightarrow> bool \<Rightarrow> Tabs \<Rightarrow> (bool \<times> Tabs) option" where
  \<comment> \<open>the branch of \<^verbatim>\<open>showPage\<close> that switches tabs; the second flag tells whether the pages are tabs\<close>
  "show_in_tab env cfg index ins tabMode b =
     (case switchTab env cfg index b of
        None \<Rightarrow> None
      | Some (switched, b) \<Rightarrow>
          (let (ok, b) = (if switched then (True, b)
                          else navigate_or_restart env (active_url (c_Kiosk cfg) index) b);
               b = (if tabMode then b
                    else if ins \<and> switched then b\<lparr>tb_insertTab := True\<rparr>
                    else closeOtherTabs env (c_Kiosk cfg) index b)
           in Some (ok, b)))"

definition opens_insert :: "Config \<Rightarrow> int \<Rightarrow> bool \<Rightarrow> Tabs \<Rightarrow> bool" where
  \<comment> \<open>the condition under which \<^verbatim>\<open>showPage\<close> keeps the tab on screen for an insert\<close>
  "opens_insert cfg index ins b \<longleftrightarrow> tb_running b \<and> \<not> k_IsolateSessions (c_Kiosk cfg) \<and>
     k_PageSwitch (c_Kiosk cfg) \<noteq> ''tabs'' \<and> ins \<and> \<not> tb_insertTab b \<and> tb_active b \<noteq> index"

definition prepared :: "Config \<Rightarrow> int \<Rightarrow> bool \<Rightarrow> Tabs \<Rightarrow> bool \<times> Tabs" where
  \<comment> \<open>with the page recorded as active, and whether it gets a tab of its own\<close>
  "prepared cfg index ins b =
     (if opens_insert cfg index ins b then keepTabForInsert (c_Kiosk cfg) (tb_active b) (b\<lparr>tb_active := index\<rparr>)
      else (tb_insertTab b, b\<lparr>tb_active := index\<rparr>))"

definition show_page :: "tab_env \<Rightarrow> Config \<Rightarrow> int \<Rightarrow> bool \<Rightarrow> Tabs \<Rightarrow> (bool \<times> Tabs) option" where
  \<comment> \<open>\<^verbatim>\<open>showPage\<close> without the brightness of the display; True when no error is returned\<close>
  "show_page env cfg index ins b =
     (let k = c_Kiosk cfg; previous = tb_active b; isolate = k_IsolateSessions k; tabMode = (k_PageSwitch k = ''tabs'')
      in if \<not> te_allowed env \<or> index < 0 \<or> int (PageCount k) \<le> index then Some (False, b)
      else case prepared cfg index ins b of
        (insertTab, b) \<Rightarrow>
          if \<not> tb_running b then Some (start_tabs env b)
          else if \<not> isolate \<and> (tabMode \<or> insertTab) \<and> previous \<noteq> index then show_in_tab env cfg index ins tabMode b
          else if \<not> isolate \<or> previous = index then Some (navigate_or_restart env (active_url k index) b)
          else Some (start_tabs env b))"

end
