(* ===== verification/Tabs_Props.thy ===== *)
theory Tabs_Props
  imports Tabs Config_Store
begin

section \<open>Properties of the tabs\<close>

text \<open>
  The loop that closes tabs ends, and does what one pass over the pages in their order of use would
  do. Whatever is shown, loaded in advance, connected or restarted, the bookkeeping names open tabs, one
  per page. An insert leaves the page underneath loaded; a switch back that fails leaves a tab behind.
\<close>

subsection \<open>Closing the least recently used tabs\<close>

text \<open>The specification: the first \<open>n\<close> pages that may go, in one pass.\<close>

fun without_first :: "nat \<Rightarrow> int set \<Rightarrow> int list \<Rightarrow> int list" where
  "without_first 0 protected us = us"
| "without_first (Suc n) protected [] = []"
| "without_first (Suc n) protected (u # us) =
     (if u \<in> protected then u # without_first (Suc n) protected us else without_first n protected us)"

lemma without_first_protected: "set us \<subseteq> protected \<Longrightarrow> without_first n protected us = us"
  by (induction n protected us rule: without_first.induct) auto

lemma find_found: "find P xs = Some x \<Longrightarrow> x \<in> set xs \<and> P x"
  by (induction xs) (auto split: if_splits)

lemma without_first_find:
  "find (\<lambda>i. i \<notin> P) us = Some u \<Longrightarrow> without_first (Suc n) P us = without_first n P (remove1 u us)"
proof (induction us)
  case (Cons v us)
  then show ?case by (cases n) (auto dest: find_found split: if_splits)
qed simp

lemma find_none: "find P xs = None \<longleftrightarrow> (\<forall>x\<in>set xs. \<not> P x)"
  by (induction xs) auto

definition restrict :: "int list \<Rightarrow> (int \<times> 'a) list \<Rightarrow> (int \<times> 'a) list" where
  "restrict us m = filter (\<lambda>(i, x). i \<in> set us) m"

definition table_of :: "int list \<Rightarrow> (int \<times> 'a) list \<Rightarrow> bool" where
  "table_of us m \<longleftrightarrow> distinct (map fst m) \<and> fst ` set m = set us"

lemma restrict_all: "table_of us m \<Longrightarrow> restrict us m = m"
  by (force simp: restrict_def table_of_def intro: filter_True)

lemma restrict_delete: "u \<notin> set us \<Longrightarrow> restrict us (AList.delete u m) = restrict us m"
  by (induction m) (auto simp: restrict_def AList.delete_eq)

lemma table_of_delete: "table_of us m \<Longrightarrow> distinct us \<Longrightarrow> table_of (remove1 u us) (AList.delete u m)"
  by (auto simp: table_of_def delete_keys distinct_removeAll simp flip: set_map)

lemma table_of_restrict: "table_of us m \<Longrightarrow> set vs \<subseteq> set us \<Longrightarrow> table_of vs (restrict vs m)"
  by (force simp: table_of_def restrict_def distinct_map_filter)

lemma look_in: "table_of us m \<Longrightarrow> i \<in> set us \<Longrightarrow> (i, look m i) \<in> set m"
  unfolding table_of_def look_def by (force dest: map_of_is_SomeI split: option.split)

lemma look_out: "table_of us m \<Longrightarrow> i \<notin> set us \<Longrightarrow> look m i = ''''"
  by (simp add: table_of_def look_def map_of_eq_None_iff [THEN iffD2])

lemma without_first_keeps: "u \<in> set us \<Longrightarrow> u \<in> P \<Longrightarrow> u \<in> set (without_first n P us)"
  by (induction n P us rule: without_first.induct) auto

lemma without_first_sub: "set (without_first n P us) \<subseteq> set us"
  by (induction n P us rule: without_first.induct) auto

lemma without_first_gone:
  assumes "find (\<lambda>i. i \<notin> P) us = Some u" "distinct us" "set (filter (\<lambda>i. i \<in> P) us) \<subseteq> set vs" "u \<notin> set vs"
  shows "filter (\<lambda>i. i \<notin> set vs) us = u # filter (\<lambda>i. i \<notin> set vs) (remove1 u us)"
  using assms by (induction us) (auto split: if_splits)

definition targets_ok :: "(int \<times> target) list \<Rightarrow> bool" where
  "targets_ok m \<longleftrightarrow> distinct (map snd m) \<and> '''' \<notin> snd ` set m"

lemma look_differs:
  assumes "table_of us m" "targets_ok m" "u \<in> set us" "k \<noteq> u"
  shows "look m u \<noteq> ''''" "look m u \<noteq> look m k"
proof -
  have u: "(u, look m u) \<in> set m" using look_in assms(1,3) .
  then show n: "look m u \<noteq> ''''" using assms(2) by (force simp: targets_ok_def)
  show "look m u \<noteq> look m k"
  proof (cases "k \<in> set us")
    case True
    then have "(k, look m k) \<in> set m" using look_in assms(1) by blast
    with u assms(2,4) show ?thesis unfolding targets_ok_def by (metis eq_key_imp_eq_value inj_on_contraD prod.inject snd_conv distinct_map)
  next
    case False
    then show ?thesis using n look_out [OF assms(1)] by simp
  qed
qed

lemma targets_ok_delete: "targets_ok m \<Longrightarrow> targets_ok (AList.delete u m)"
  by (auto simp: targets_ok_def AList.delete_eq distinct_map_filter)

lemma look_delete: "i \<noteq> u \<Longrightarrow> look (AList.delete u m) i = look m i"
  by (simp add: look_def delete_conv')

lemma evict_loop_unfold:
  "evict_loop pre limit keep e =
     (if limit < int (length (ev_use e)) \<and> \<not> ev_stop e then evict_loop pre limit keep (evict_one pre keep e) else Some e)"
  unfolding evict_loop_def by (subst while_option_unfold) simp

lemma evict_loop_result:
  assumes "table_of (ev_use e) (ev_tabs e)" "table_of (ev_use e) (ev_url e)" "targets_ok (ev_tabs e)"
    and "distinct (ev_use e)" "\<not> ev_stop e"
  shows "\<exists>e'. evict_loop pre limit keep e = Some e' \<and>
    ev_use e' = without_first (nat (int (length (ev_use e)) - limit)) (insert keep (set pre)) (ev_use e) \<and>
    ev_tabs e' = restrict (ev_use e') (ev_tabs e) \<and> ev_url e' = restrict (ev_use e') (ev_url e) \<and>
    ev_close e' = ev_close e @ map (look (ev_tabs e)) (filter (\<lambda>i. i \<notin> set (ev_use e')) (ev_use e))"
  using assms
proof (induction "length (ev_use e)" arbitrary: e rule: less_induct)
  case less
  let ?P = "insert keep (set pre)"
  have sw: "(\<lambda>i. i \<noteq> keep \<and> i \<notin> set pre) = (\<lambda>i. i \<notin> ?P)" by auto
  show ?case
  proof (cases "limit < int (length (ev_use e))")
    case False
    then show ?thesis by (subst evict_loop_unfold) (simp add: restrict_all less.prems)
  next
    case many: True
    show ?thesis
    proof (cases "find (\<lambda>i. i \<notin> ?P) (ev_use e)")
      case None
      then have "without_first n ?P (ev_use e) = ev_use e" for n
        by (intro without_first_protected) (auto simp: find_none)
      moreover have "evict_one pre keep e = e\<lparr>ev_stop := True\<rparr>"
        using None unfolding evict_one_def sw by simp
      moreover have "evict_loop pre limit keep (e\<lparr>ev_stop := True\<rparr>) = Some (e\<lparr>ev_stop := True\<rparr>)"
        by (subst evict_loop_unfold) simp
      ultimately show ?thesis
        using many less.prems by (subst evict_loop_unfold) (simp add: restrict_all)
    next
      case (Some u)
      then have u: "u \<in> set (ev_use e)" "u \<noteq> keep" "u \<notin> ?P" using find_found [OF Some] by auto
      have pos: "length (ev_use e) - Suc 0 < length (ev_use e)" "0 < length (ev_use e)"
        using u(1) by (auto intro!: diff_less)
      define e1 where "e1 = evict_one pre keep e"
      have e1: "ev_use e1 = remove1 u (ev_use e)" "ev_tabs e1 = AList.delete u (ev_tabs e)"
        "ev_url e1 = AList.delete u (ev_url e)" "ev_stop e1 = ev_stop e"
        "ev_close e1 = ev_close e @ [look (ev_tabs e) u]"
        using Some look_differs [OF less.prems(1,3) u(1), of keep] u(2)
        unfolding e1_def evict_one_def sw by (simp_all add: Let_def)
      have "\<exists>e'. evict_loop pre limit keep e1 = Some e' \<and>
          ev_use e' = without_first (nat (int (length (ev_use e1)) - limit)) ?P (ev_use e1) \<and>
          ev_tabs e' = restrict (ev_use e') (ev_tabs e1) \<and> ev_url e' = restrict (ev_use e') (ev_url e1) \<and>
          ev_close e' = ev_close e1 @ map (look (ev_tabs e1)) (filter (\<lambda>i. i \<notin> set (ev_use e')) (ev_use e1))"
        using u(1) less.prems
        by (intro less.hyps) (simp_all add: e1 table_of_delete targets_ok_delete length_remove1 pos(1))
      then obtain e' where e': "evict_loop pre limit keep e1 = Some e'"
        "ev_use e' = without_first (nat (int (length (ev_use e1)) - limit)) ?P (remove1 u (ev_use e))"
        "ev_tabs e' = restrict (ev_use e') (AList.delete u (ev_tabs e))" "ev_url e' = restrict (ev_use e') (AList.delete u (ev_url e))"
        "ev_close e' = ev_close e @ look (ev_tabs e) u #
           map (look (AList.delete u (ev_tabs e))) (filter (\<lambda>i. i \<notin> set (ev_use e')) (remove1 u (ev_use e)))"
        unfolding e1 by auto
      have "length (ev_use e1) = length (ev_use e) - 1" using u(1) by (simp add: e1 length_remove1)
      with many pos(2) have len: "Suc (nat (int (length (ev_use e1)) - limit)) = nat (int (length (ev_use e)) - limit)" by linarith
      have gone: "u \<notin> set (ev_use e')"
        using without_first_sub less.prems(4) unfolding e'(2) by fastforce
      have kept: "set (filter (\<lambda>i. i \<in> ?P) (ev_use e)) \<subseteq> set (ev_use e')"
        using u(3) less.prems(4) unfolding e'(2) by (auto intro!: without_first_keeps)
      have "evict_loop pre limit keep e = Some e'"
        using many less.prems(5) e'(1) by (subst evict_loop_unfold) (simp add: e1_def)
      moreover have "ev_use e' = without_first (nat (int (length (ev_use e)) - limit)) ?P (ev_use e)"
        unfolding e'(2) len [symmetric] without_first_find [OF Some] ..
      moreover have "ev_tabs e' = restrict (ev_use e') (ev_tabs e)" "ev_url e' = restrict (ev_use e') (ev_url e)"
        using restrict_delete [OF gone] e'(3,4) by metis+
      moreover have "map (look (AList.delete u (ev_tabs e))) (filter (\<lambda>i. i \<notin> set (ev_use e')) (remove1 u (ev_use e))) =
          map (look (ev_tabs e)) (filter (\<lambda>i. i \<notin> set (ev_use e')) (remove1 u (ev_use e)))"
        using less.prems(4) by (auto intro!: look_delete)
      then have "ev_close e' = ev_close e @ map (look (ev_tabs e)) (filter (\<lambda>i. i \<notin> set (ev_use e')) (ev_use e))"
        unfolding e'(5) without_first_gone [OF Some less.prems(4) kept gone] by simp
      ultimately show ?thesis by blast
    qed
  qed
qed

subsection \<open>The bookkeeping\<close>

definition books_ok :: "Tabs \<Rightarrow> bool" where
  \<comment> \<open>one tab per page, the pages in use exactly once, an address for each\<close>
  "books_ok b \<longleftrightarrow>
     table_of (tb_use b) (tb_tabs b) \<and> table_of (tb_use b) (tb_url b) \<and> targets_ok (tb_tabs b) \<and> distinct (tb_use b)"

definition tabs_ok :: "Tabs \<Rightarrow> bool" where
  \<comment> \<open>and the tabs of a running browser are open, the active one too\<close>
  "tabs_ok b \<longleftrightarrow> books_ok b \<and> '''' \<notin> set (tb_open b) \<and>
     (tb_running b \<longrightarrow> snd ` set (tb_tabs b) \<subseteq> set (tb_open b) \<and>
        (if tb_activeTarget b = '''' then tb_tabs b = [] else tb_activeTarget b \<in> set (tb_open b)))"

lemmas evict_loop_init = evict_loop_result [where e = "\<lparr>ev_stop = False, ev_use = us, ev_tabs = ts, ev_url = ws, ev_close = []\<rparr>"
  for us ts ws, simplified]

lemma evictTabs_result:
  assumes "books_ok b"
  shows "\<exists>b'. evictTabs cfg keep b = Some (map (look (tb_tabs b)) (filter (\<lambda>i. i \<notin> set (tb_use b')) (tb_use b)), b') \<and>
    tb_use b' = without_first (nat (int (length (tb_use b)) - tab_limit cfg b)) (insert keep (set (kept_pages cfg b))) (tb_use b) \<and>
    b' = b\<lparr>tb_use := tb_use b', tb_tabs := restrict (tb_use b') (tb_tabs b), tb_url := restrict (tb_use b') (tb_url b)\<rparr>"
  using evict_loop_init [of "tb_use b" "tb_tabs b" "tb_url b" "kept_pages cfg b" "tab_limit cfg b" keep] assms
  by (auto simp: evictTabs_def books_ok_def)

lemma without_first_distinct: "distinct us \<Longrightarrow> distinct (without_first n P us)"
  by (induction n P us rule: without_first.induct) (auto dest: subsetD [OF without_first_sub])

lemma without_first_enough: "length (without_first n P us) \<le> length us - n \<or> set (without_first n P us) \<subseteq> P"
proof (induction n P us rule: without_first.induct)
  case (3 n P u us)
  show ?case
  proof (cases "u \<in> P")
    case True
    with 3 show ?thesis
      by (cases "set (without_first (Suc n) P us) \<subseteq> P"; cases "n < length us") (auto simp: without_first_protected)
  qed (use 3 in auto)
qed auto

lemma targets_ok_restrict: "targets_ok m \<Longrightarrow> targets_ok (restrict us m)"
  by (auto simp: targets_ok_def restrict_def distinct_map_filter)

lemma look_update: "look (AList.update i x m) j = (if j = i then x else look m j)"
  by (simp add: look_def update_conv')

lemma keys_of_update: "fst ` set (AList.update i x m) = insert i (fst ` set m)"
  by (induction m) auto

lemma entries_of_update: "distinct (map fst m) \<Longrightarrow> set (AList.update i x m) = insert (i, x) {e \<in> set m. fst e \<noteq> i}"
  by (induction m) (auto simp: image_iff)

lemma table_of_touch:
  assumes "table_of us m" "distinct us"
  shows "table_of (filter (\<lambda>j. j \<noteq> i) us @ [i]) (AList.update i x m)"
  using assms by (auto simp: table_of_def distinct_update keys_of_update)

lemma targets_ok_update:
  assumes "targets_ok m" "distinct (map fst m)" "x \<noteq> ''''" "\<And>j. (j, x) \<in> set m \<Longrightarrow> j = i"
  shows "targets_ok (AList.update i x m)"
proof -
  have "inj_on snd {e \<in> set m. fst e \<noteq> i}"
    using assms(1) by (auto simp: targets_ok_def distinct_map intro: inj_on_subset)
  then have "inj_on snd (set (AList.update i x m))"
    using assms(4) by (auto simp: entries_of_update [OF assms(2)] inj_on_def)
  moreover have "distinct (AList.update i x m)"
    using distinct_update [OF assms(2)] by (simp add: distinct_map)
  ultimately have "distinct (map snd (AList.update i x m))" by (simp add: distinct_map)
  moreover have "'''' \<notin> snd ` set (AList.update i x m)"
    using assms(1-3) by (auto simp: targets_ok_def entries_of_update)
  ultimately show ?thesis by (simp add: targets_ok_def)
qed

lemma look_entry: "table_of us m \<Longrightarrow> (i, x) \<in> set m \<Longrightarrow> look m i = x"
  by (simp add: table_of_def look_def)

lemma values_of_table:
  assumes m: "table_of us m"
  shows "snd ` set m = look m ` set us"
proof (intro subset_antisym subsetI)
  fix x assume "x \<in> snd ` set m"
  then obtain i where i: "(i, x) \<in> set m" by auto
  then have "i \<in> fst ` set m" by (rule image_eqI [rotated]) simp
  then show "x \<in> look m ` set us"
    using m look_entry [OF m i] unfolding table_of_def by blast
next
  fix x assume "x \<in> look m ` set us"
  then show "x \<in> snd ` set m" using look_in [OF m] by (metis image_iff snd_conv)
qed

lemma values_restrict:
  assumes "table_of us m" "targets_ok m" "set vs \<subseteq> set us"
  shows "look m ` {i \<in> set us. i \<notin> set vs} = snd ` set m - snd ` set (restrict vs m)"
proof -
  have "snd ` set (restrict vs m) = look m ` set vs"
  proof -
    have "look (restrict vs m) i = look m i" if "i \<in> set vs" for i
    proof (rule look_entry [OF table_of_restrict [OF assms(1,3)]])
      show "(i, look m i) \<in> set (restrict vs m)"
        using look_in [OF assms(1)] that assms(3) by (auto simp: restrict_def)
    qed
    then show ?thesis using values_of_table [OF table_of_restrict [OF assms(1,3)]] by simp
  qed
  moreover have "inj_on (look m) (set us)"
    using look_differs(2) [OF assms(1,2)] by (metis inj_onI)
  ultimately show ?thesis
    using assms(3) by (auto simp: values_of_table [OF assms(1)] dest: inj_onD)
qed

lemma evictTabs_books:
  assumes "books_ok b" "evictTabs cfg keep b = Some (closing, b')"
  shows "books_ok b'" "set closing = snd ` set (tb_tabs b) - snd ` set (tb_tabs b')"
    "snd ` set (tb_tabs b') \<subseteq> snd ` set (tb_tabs b)"
    "b' = b\<lparr>tb_use := tb_use b', tb_tabs := restrict (tb_use b') (tb_tabs b), tb_url := restrict (tb_use b') (tb_url b)\<rparr>"
    "set (tb_use b') \<subseteq> set (tb_use b)" "keep \<in> set (tb_use b) \<Longrightarrow> keep \<in> set (tb_use b')"
    "tb_use b' = without_first (nat (int (length (tb_use b)) - tab_limit cfg b)) (insert keep (set (kept_pages cfg b))) (tb_use b)"
proof -
  from evictTabs_result [OF assms(1), of cfg keep] assms(2)
  have c: "closing = map (look (tb_tabs b)) (filter (\<lambda>i. i \<notin> set (tb_use b')) (tb_use b))"
    and u: "tb_use b' = without_first (nat (int (length (tb_use b)) - tab_limit cfg b)) (insert keep (set (kept_pages cfg b))) (tb_use b)"
    and b: "b' = b\<lparr>tb_use := tb_use b', tb_tabs := restrict (tb_use b') (tb_tabs b), tb_url := restrict (tb_use b') (tb_url b)\<rparr>"
    by auto
  have tu: "tb_tabs b' = restrict (tb_use b') (tb_tabs b)" "tb_url b' = restrict (tb_use b') (tb_url b)"
    using arg_cong [OF b, of tb_tabs] arg_cong [OF b, of tb_url] by simp_all
  show sub: "set (tb_use b') \<subseteq> set (tb_use b)" unfolding u by (rule without_first_sub)
  show "tb_use b' = without_first (nat (int (length (tb_use b)) - tab_limit cfg b)) (insert keep (set (kept_pages cfg b))) (tb_use b)"
    by (rule u)
  show "b' = b\<lparr>tb_use := tb_use b', tb_tabs := restrict (tb_use b') (tb_tabs b), tb_url := restrict (tb_use b') (tb_url b)\<rparr>"
    by (rule b)
  show "books_ok b'"
    using assms(1) sub u unfolding books_ok_def tu
    by (auto simp: table_of_restrict targets_ok_restrict without_first_distinct)
  show "set closing = snd ` set (tb_tabs b) - snd ` set (tb_tabs b')"
    using values_restrict [OF _ _ sub, of "tb_tabs b"] assms(1) unfolding books_ok_def tu c by simp
  show "snd ` set (tb_tabs b') \<subseteq> snd ` set (tb_tabs b)" unfolding tu by (auto simp: restrict_def)
  show "keep \<in> set (tb_use b')" if "keep \<in> set (tb_use b)"
    unfolding u using that by (rule without_first_keeps) simp
qed

text \<open>The loop that closes tabs ends, whatever the limit and the settings: it removes the least
  recently used pages, as many as are too many, but neither the page being shown nor one loaded in
  advance nor the page under an insert, and closes exactly the tabs of the pages it removes.\<close>

theorem evictTabs_ends:
  assumes "books_ok b"
  shows "\<exists>closing b'. evictTabs cfg keep b = Some (closing, b') \<and>
    tb_use b' = without_first (nat (int (length (tb_use b)) - tab_limit cfg b)) (insert keep (set (kept_pages cfg b))) (tb_use b) \<and>
    (int (length (tb_use b')) \<le> tab_limit cfg b \<or> set (tb_use b') \<subseteq> insert keep (set (kept_pages cfg b))) \<and>
    set closing = snd ` set (tb_tabs b) - snd ` set (tb_tabs b') \<and> books_ok b'"
proof -
  obtain closing b' where ev: "evictTabs cfg keep b = Some (closing, b')"
    using evictTabs_result [OF assms, of cfg keep] by blast
  note r = evictTabs_books [OF assms ev]
  have "1 \<le> tab_limit cfg b" by (auto simp: tab_limit_def maxTabs_def Let_def lowPowerMaxTabs_def defaultMaxTabs_def)
  then have "int (length (tb_use b')) \<le> tab_limit cfg b \<or> set (tb_use b') \<subseteq> insert keep (set (kept_pages cfg b))"
    using without_first_enough [of "nat (int (length (tb_use b)) - tab_limit cfg b)" "insert keep (set (kept_pages cfg b))" "tb_use b"]
    unfolding r(7) by linarith
  with ev r(1,2,7) show ?thesis by blast
qed

subsection \<open>Every operation keeps the books\<close>

named_theorems tab_defs

lemmas [tab_defs] = tabs_ok_def books_ok_def closeTargets_def open_tab_def touchTab_def

lemma books_single:
  "t \<noteq> '''' \<Longrightarrow> tb_tabs b = [(i, t)] \<Longrightarrow> tb_url b = [(i, u)] \<Longrightarrow> tb_use b = [i] \<Longrightarrow> books_ok b"
  by (simp add: books_ok_def table_of_def targets_ok_def)

lemma books_empty: "tb_tabs b = [] \<Longrightarrow> tb_url b = [] \<Longrightarrow> tb_use b = [] \<Longrightarrow> books_ok b"
  by (simp add: books_ok_def table_of_def targets_ok_def)

definition fresh_env :: "tab_env \<Rightarrow> Tabs \<Rightarrow> bool" where
  \<comment> \<open>Chromium gives a new tab an identifier of its own\<close>
  "fresh_env env b \<longleftrightarrow> (\<forall>t. te_create env = Some t \<longrightarrow> t \<notin> set (tb_open b)) \<and>
     (\<forall>t. te_restart env = Some t \<longrightarrow> t \<noteq> '''')"

lemma enter_tab_books:
  assumes "books_ok b" "t \<noteq> ''''" "\<forall>j. (j, t) \<in> set (tb_tabs b) \<longrightarrow> j = index"
  shows "books_ok (enter_tab k index t created b)"
    "snd ` set (tb_tabs (enter_tab k index t created b)) \<subseteq> insert t (snd ` set (tb_tabs b))"
    "(index, t) \<in> set (tb_tabs (enter_tab k index t created b))" "index \<in> set (tb_use (enter_tab k index t created b))"
    "tb_open (enter_tab k index t created b) = tb_open b" "tb_running (enter_tab k index t created b) = tb_running b"
proof -
  have d: "distinct (map fst (tb_tabs b))" using assms(1) by (simp add: books_ok_def table_of_def)
  show "books_ok (enter_tab k index t created b)"
    using assms targets_ok_update [OF _ d assms(2), of index]
    by (auto simp: books_ok_def enter_tab_def Let_def touchTab_def table_of_touch)
qed (use assms in \<open>auto simp: enter_tab_def Let_def touchTab_def books_ok_def table_of_def entries_of_update\<close>)

lemma tab_of_page_ok:
  assumes "tabs_ok b" "tb_running b" "fresh_env env b" "tab_of_page env index b = Some (t, created, b')"
  shows "t \<noteq> ''''" "t \<in> set (tb_open b')" "books_ok b'" "tb_running b'" "'''' \<notin> set (tb_open b')"
    "snd ` set (tb_tabs b') \<subseteq> set (tb_open b')" "tb_tabs b' = tb_tabs b" "\<forall>j. (j, t) \<in> set (tb_tabs b') \<longrightarrow> j = index"
proof -
  have b: "table_of (tb_use b) (tb_tabs b)" "targets_ok (tb_tabs b)" "books_ok b" "'''' \<notin> set (tb_open b)"
    "snd ` set (tb_tabs b) \<subseteq> set (tb_open b)"
    using assms(1,2) by (auto simp: tabs_ok_def books_ok_def)
  have inj: "j = index" if "(j, look (tb_tabs b) index) \<in> set (tb_tabs b)" for j
  proof -
    have "j \<in> set (tb_use b)" using b(1) that unfolding table_of_def by (metis fst_conv image_eqI)
    moreover have "look (tb_tabs b) j = look (tb_tabs b) index" using look_entry [OF b(1) that] .
    ultimately show ?thesis using look_differs(2) [OF b(1,2)] by metis
  qed
  from assms(4) consider
      "t = look (tb_tabs b) index" "t \<noteq> ''''" "t \<in> set (tb_open b)" "b' = b\<lparr>tb_front := t\<rparr>"
    | "te_create env = Some t" "t \<noteq> ''''" "b' = open_tab t b"
    by (auto simp: tab_of_page_def Let_def split: if_splits option.splits)
  then have "t \<noteq> '''' \<and> t \<in> set (tb_open b') \<and> books_ok b' \<and> tb_running b' \<and> '''' \<notin> set (tb_open b') \<and>
    snd ` set (tb_tabs b') \<subseteq> set (tb_open b') \<and> tb_tabs b' = tb_tabs b \<and> (\<forall>j. (j, t) \<in> set (tb_tabs b') \<longrightarrow> j = index)"
  proof cases
    case 1
    have "\<forall>j. (j, t) \<in> set (tb_tabs b) \<longrightarrow> j = index" using inj unfolding 1(1) by blast
    moreover have "books_ok b'" using b(3) unfolding 1(4) by (simp add: books_ok_def)
    ultimately show ?thesis using b(4,5) 1(2,3) assms(2) unfolding 1(4) by simp
  next
    case 2
    have "t \<notin> set (tb_open b)" using assms(3) 2(1) by (simp add: fresh_env_def)
    then have "(j, t) \<notin> set (tb_tabs b)" for j using b(5) by (metis image_eqI snd_conv subsetD)
    then show ?thesis using b(3-5) 2 assms(2) by (simp add: open_tab_def books_ok_def) blast
  qed
  then show "t \<noteq> ''''" "t \<in> set (tb_open b')" "books_ok b'" "tb_running b'" "'''' \<notin> set (tb_open b')"
    "snd ` set (tb_tabs b') \<subseteq> set (tb_open b')" "tb_tabs b' = tb_tabs b" "\<forall>j. (j, t) \<in> set (tb_tabs b') \<longrightarrow> j = index"
    by blast+
qed

lemma switchTab_ok:
  assumes "tabs_ok b" "fresh_env env b" "switchTab env cfg index b = Some (ok, b')"
  shows "tabs_ok b'"
proof (cases "\<not> ok")
  case True
  with assms(1,3) show ?thesis by (auto simp: switchTab_def split: if_splits option.splits prod.splits)
next
  case False
  with assms(3) have run: "tb_running b" by (auto simp: switchTab_def split: if_splits)
  from False assms(3) obtain t created b1 closing b2 where
    page: "tab_of_page env index b = Some (t, created, b1)"
    and ev: "evictTabs cfg index (enter_tab (c_Kiosk cfg) index t created b1) = Some (closing, b2)"
    and b': "b' = (closeTargets closing (b2\<lparr>tb_activeTarget := t, tb_retarget := True\<rparr>))\<lparr>tb_control := None\<rparr>"
    by (auto simp: switchTab_def split: if_splits option.splits prod.splits)
  note p = tab_of_page_ok [OF assms(1) run assms(2) page]
  note e = enter_tab_books [OF p(3,1,8), of "c_Kiosk cfg" created]
  note v = evictTabs_books [OF e(1) ev]
  have t: "t \<in> snd ` set (tb_tabs b2)"
  proof -
    have "(index, t) \<in> set (tb_tabs b2)"
      using e(3) v(6) [OF e(4)] arg_cong [OF v(4), of tb_tabs] by (auto simp: restrict_def)
    then show ?thesis by (rule image_eqI [rotated]) simp
  qed
  have o: "tb_open b2 = tb_open b1" "tb_running b2"
    using arg_cong [OF v(4), of tb_open] arg_cong [OF v(4), of tb_running] e(5,6) p(4) by simp_all
  have "snd ` set (tb_tabs b2) \<subseteq> set (tb_open b1)"
    using v(3) e(2) p(2,6) by blast
  then show ?thesis
    using v(1,2) t p(1,2,5) o unfolding b' by (auto simp: tabs_ok_def closeTargets_def books_ok_def)
qed

lemma start_tabs_ok: "tabs_ok b \<Longrightarrow> fresh_env env b \<Longrightarrow> tabs_ok (snd (start_tabs env b))"
  by (auto simp: start_tabs_def new_browser_def no_browser_def resetTabs_def tabs_ok_def fresh_env_def books_ok_def
      table_of_def targets_ok_def split: option.split)

lemma navigate_ok:
  assumes "tabs_ok b" "fresh_env env b" shows "tabs_ok (snd (navigate_or_restart env url b))"
  using assms start_tabs_ok [OF assms]
  by (auto simp: navigate_or_restart_def navigateDevTools_def tabs_ok_def books_ok_def split: option.split)

lemma keepTab_ok: "tabs_ok b \<Longrightarrow> tabs_ok (snd (keepTabForInsert k base b))"
  by (auto simp: keepTabForInsert_def tabs_ok_def books_single)

lemma closeOther_ok:
  assumes "tabs_ok b" shows "tabs_ok (closeOtherTabs env k keep b)"
proof -
  define t where "t = (if look (tb_tabs b) keep = '''' then tb_activeTarget b else look (tb_tabs b) keep)"
  define closing where
    "closing = map snd (filter (\<lambda>(i, s). i \<noteq> keep \<and> s \<noteq> t \<and> s \<noteq> tb_activeTarget b) (tb_tabs b))"
  define b1 where
    "b1 = (if t = '''' then b\<lparr>tb_insertTab := False\<rparr>
           else b\<lparr>tb_insertTab := False, tb_tabs := [(keep, t)], tb_url := [(keep, active_url k keep)], tb_use := [keep]\<rparr>)"
  have eq: "closeOtherTabs env k keep b = (if closing = [] \<or> \<not> te_dial env then b1 else closeTargets closing b1)"
    by (simp add: closeOtherTabs_def b1_def closing_def t_def Let_def)
  have tab: "look (tb_tabs b) keep \<in> snd ` set (tb_tabs b)" if "look (tb_tabs b) keep \<noteq> ''''"
    using that by (force simp: look_def split: option.splits dest: map_of_SomeD)
  have open_t: "t \<in> set (tb_open b)" if "tb_running b" "t \<noteq> ''''"
    using that assms tab unfolding tabs_ok_def t_def by (auto split: if_splits)
  have none: "tb_tabs b = []" if "tb_running b" "t = ''''"
    using that assms by (auto simp: tabs_ok_def t_def split: if_splits)
  have active: "tb_activeTarget b \<noteq> ''''" if "tb_running b" "t \<noteq> ''''"
    using that assms by (auto simp: tabs_ok_def t_def look_def)
  have out: "t \<notin> set closing" "tb_activeTarget b \<notin> set closing" by (auto simp: closing_def)
  have books: "books_ok b1"
    using assms by (cases "t = ''''") (auto simp: b1_def tabs_ok_def books_ok_def table_of_def targets_ok_def)
  have "tabs_ok b1" "t = '''' \<Longrightarrow> tb_running b \<Longrightarrow> closing = []"
    using assms books open_t none active by (auto simp: tabs_ok_def b1_def closing_def)
  moreover have "tabs_ok (closeTargets closing b1)" if "t \<noteq> ''''"
    using assms books open_t out that active by (auto simp: tabs_ok_def b1_def closeTargets_def books_ok_def)
  moreover have "tabs_ok (closeTargets closing b1)" if "\<not> tb_running b"
    using assms books that by (auto simp: tabs_ok_def b1_def closeTargets_def books_ok_def)
  ultimately show ?thesis unfolding eq by auto
qed

lemma bind_ok:
  assumes "tabs_ok b" "t \<in> set (tb_open b)" "tb_running b"
  shows "tabs_ok (snd (bindControlTarget k t b))"
proof -
  have "t \<noteq> ''''" using assms(1,2) by (auto simp: tabs_ok_def)
  moreover have "books_ok b" using assms(1) by (simp add: tabs_ok_def)
  moreover have "tb_use b = []" "tb_url b = []" if "tb_tabs b = []"
    using \<open>books_ok b\<close> that by (auto simp: books_ok_def table_of_def)
  ultimately show ?thesis
    using assms by (cases "tb_activeTarget b = ''''")
      (auto simp: bindControlTarget_def Let_def tabs_ok_def books_ok_def touchTab_def table_of_def targets_ok_def)
qed

lemma preload_ok:
  assumes "tabs_ok b" "tb_running b" "tb_activeTarget b \<noteq> ''''" "inj_on create (dom create)"
    and "\<forall>i\<in>set is. \<forall>t. create i = Some t \<longrightarrow> t \<notin> set (tb_open b) \<or> map_of (tb_tabs b) i \<noteq> None"
  shows "tabs_ok (preload k create is b)"
  using assms
proof (induction k create "is" b rule: preload.induct)
  case (2 k create index rest b)
  show ?case
  proof (cases "map_of (tb_tabs b) index = None \<and> (\<exists>t. create index = Some t \<and> t \<noteq> '''')")
    case False
    then show ?thesis using 2 by (auto split: option.splits)
  next
    case True
    then obtain t where t: "create index = Some t" "t \<noteq> ''''" "map_of (tb_tabs b) index = None" by blast
    define b1 where "b1 = (open_tab t b)\<lparr>tb_tabs := AList.update index t (tb_tabs b),
      tb_url := AList.update index (active_url k index) (tb_url b), tb_use := index # tb_use b\<rparr>"
    have new: "t \<notin> set (tb_open b)" using "2.prems"(5) t by auto
    have books: "books_ok b" and d: "distinct (map fst (tb_tabs b))"
      and sub: "snd ` set (tb_tabs b) \<subseteq> set (tb_open b)"
      using "2.prems"(1,2) by (simp_all add: tabs_ok_def books_ok_def table_of_def)
    have unused: "index \<notin> set (tb_use b)"
      using books t(3) by (auto simp: books_ok_def table_of_def map_of_eq_None_iff)
    have "(j, t) \<notin> set (tb_tabs b)" for j using sub new by (metis image_eqI snd_conv subsetD)
    then have "targets_ok (AList.update index t (tb_tabs b))"
      using books targets_ok_update [OF _ d t(2)] by (simp add: books_ok_def)
    then have "tabs_ok b1"
      using "2.prems"(1-3) books unused t sub
      by (auto simp: b1_def open_tab_def tabs_ok_def books_ok_def table_of_def distinct_update keys_of_update entries_of_update)
    moreover have "tb_running b1" "tb_activeTarget b1 \<noteq> ''''" using "2.prems"(2,3) by (simp_all add: b1_def open_tab_def)
    moreover have "\<forall>i\<in>set rest. \<forall>s. create i = Some s \<longrightarrow> s \<notin> set (tb_open b1) \<or> map_of (tb_tabs b1) i \<noteq> None"
    proof (intro ballI allI impI)
      fix i s assume i: "i \<in> set rest" "create i = Some s"
      then have "s \<notin> set (tb_open b) \<or> map_of (tb_tabs b) i \<noteq> None" using "2.prems"(5) by auto
      moreover have "s = t \<Longrightarrow> i = index" using "2.prems"(4) i(2) t(1) by (metis domI inj_onD)
      ultimately show "s \<notin> set (tb_open b1) \<or> map_of (tb_tabs b1) i \<noteq> None"
        by (auto simp: b1_def open_tab_def update_conv')
    qed
    ultimately have "tabs_ok (preload k create rest b1)" using 2 t by (simp add: b1_def)
    then show ?thesis using t by (simp add: b1_def)
  qed
qed simp

lemma tabs_ok_frame [simp]:
  "tabs_ok (b\<lparr>tb_active := i\<rparr>) = tabs_ok b" "tabs_ok (b\<lparr>tb_insertTab := x\<rparr>) = tabs_ok b"
  "tabs_ok (b\<lparr>tb_control := c\<rparr>) = tabs_ok b" "tabs_ok (b\<lparr>tb_retarget := x\<rparr>) = tabs_ok b"
  "tabs_ok (b\<lparr>tb_navigated := x\<rparr>) = tabs_ok b" "tabs_ok (b\<lparr>tb_loads := l\<rparr>) = tabs_ok b"
  "tabs_ok (b\<lparr>tb_front := t\<rparr>) = tabs_ok b" "tabs_ok (b\<lparr>tb_revealTarget := t\<rparr>) = tabs_ok b"
  by (simp_all add: tabs_ok_def books_ok_def)

lemma show_in_tab_ok:
  assumes "tabs_ok b" "fresh_env env b" "show_in_tab env cfg index ins tabMode b = Some (ok, b')"
  shows "tabs_ok b'"
proof -
  obtain switched b1 where sw: "switchTab env cfg index b = Some (switched, b1)"
    using assms(3) by (auto simp: show_in_tab_def split: option.splits)
  have "tabs_ok b1" using switchTab_ok [OF assms(1,2) sw] .
  moreover have "\<not> switched \<Longrightarrow> b1 = b" using sw by (auto simp: switchTab_def split: if_splits option.splits prod.splits)
  ultimately have "tabs_ok (if switched then b1 else snd (navigate_or_restart env (active_url (c_Kiosk cfg) index) b1))"
    using navigate_ok [OF assms(1,2)] by auto
  then show ?thesis
    using assms(3) closeOther_ok by (auto simp: show_in_tab_def sw Let_def split: if_splits prod.splits)
qed


lemma fresh_same_open: "tb_open b' = tb_open b \<Longrightarrow> fresh_env env b' = fresh_env env b"
  by (simp add: fresh_env_def)

lemma show_page_eq:
  assumes "te_allowed env" "0 \<le> index" "index < int (PageCount (c_Kiosk cfg))" "prepared cfg index ins b = (insertTab, b')"
  shows "show_page env cfg index ins b =
    (let k = c_Kiosk cfg; tabMode = (k_PageSwitch k = ''tabs'') in
     if \<not> tb_running b' then Some (start_tabs env b')
     else if \<not> k_IsolateSessions k \<and> (tabMode \<or> insertTab) \<and> tb_active b \<noteq> index then show_in_tab env cfg index ins tabMode b'
     else if \<not> k_IsolateSessions k \<or> tb_active b = index then Some (navigate_or_restart env (active_url k index) b')
     else Some (start_tabs env b'))"
  using assms by (simp add: show_page_def Let_def)

lemma show_page_ok:
  assumes "tabs_ok b" "fresh_env env b" "show_page env cfg index ins b = Some (ok, b')"
  shows "tabs_ok b'"
proof (cases "te_allowed env \<and> 0 \<le> index \<and> index < int (PageCount (c_Kiosk cfg))")
  case False
  then show ?thesis using assms(1,3) by (auto simp: show_page_def Let_def)
next
  case True
  obtain insertTab b2 where p: "prepared cfg index ins b = (insertTab, b2)" by fastforce
  have b2: "tabs_ok b2" "tb_open b2 = tb_open b"
    using p assms(1) keepTab_ok [of "b\<lparr>tb_active := index\<rparr>" "c_Kiosk cfg" "tb_active b"]
    by (auto simp: prepared_def keepTabForInsert_def split: if_splits)
  have f2: "fresh_env env b2" using assms(2) fresh_same_open [OF b2(2)] by simp
  show ?thesis
    using assms(3) True start_tabs_ok [OF b2(1) f2] navigate_ok [OF b2(1) f2] show_in_tab_ok [OF b2(1) f2]
    by (auto simp: show_page_eq [OF _ _ _ p] Let_def split: if_splits) (metis snd_conv)+
qed

subsection \<open>Every run keeps the books\<close>

text \<open>What can happen to the tabs: the scheduler or a person shows a page, the monitor loop connects to a
  tab that Chromium lists, loses its connection, pages are loaded in advance, a loaded tab is brought to
  the front, the process ends or is started. The configuration may be another one each time.\<close>

inductive tab_step :: "Tabs \<Rightarrow> Tabs \<Rightarrow> bool" where
  visit: "fresh_env env b \<Longrightarrow> show_page env cfg index ins b = Some (ok, b') \<Longrightarrow> tab_step b b'"
| connect: "\<forall>t\<in>set targets. dt_ID t \<in> set (tb_open b) \<Longrightarrow> tb_running b \<Longrightarrow> tab_step b (attach targets k b)"
| lose: "tab_step b (detach b)"
| load: "tb_running b \<Longrightarrow> tb_activeTarget b \<noteq> '''' \<Longrightarrow> inj_on create (dom create) \<Longrightarrow> ran create \<inter> set (tb_open b) = {} \<Longrightarrow>
    tab_step b (preloadTabs env create k b)"
| reveal: "tab_step b (revealWhenLoaded t brought b)"
| exit: "tab_step b (no_browser b)"
| launch: "fresh_env env b \<Longrightarrow> \<not> tb_running b \<Longrightarrow> tab_step b (snd (start_tabs env b))"


definition no_tabs :: Tabs where
  \<comment> \<open>before the first start\<close>
  "no_tabs = \<lparr>tb_active = 0, tb_tabs = [], tb_url = [], tb_use = [], tb_activeTarget = '''', tb_retarget = False,
     tb_pendingBlank = [], tb_insertTab = False, tb_insertBase = 0, tb_revealTarget = '''', tb_running = False,
     tb_control = None, tb_navigated = False, tb_open = [], tb_front = '''', tb_loads = []\<rparr>"

lemma attach_ok:
  assumes "tabs_ok b" "tb_running b" "\<forall>t\<in>set targets. dt_ID t \<in> set (tb_open b)"
  shows "tabs_ok (attach targets k b)"
proof (cases "pickDevToolsTarget targets (tb_activeTarget b)")
  case (Some t)
  then have "t \<in> set (tb_open b)"
    using assms(3) by (auto simp: pickDevToolsTarget_def dest!: find_found split: if_splits option.splits)
  from bind_ok [OF assms(1) this assms(2), of k] show ?thesis
    by (auto simp: attach_def Some Let_def split: prod.split)
qed (simp add: attach_def assms)

lemma tab_step_ok:
  assumes "tab_step b b'" "tabs_ok b" shows "tabs_ok b'"
  using assms(1)
proof (cases rule: tab_step.cases)
  case (visit env cfg index ins ok)
  then show ?thesis using show_page_ok assms(2) by blast
next
  case (connect targets k)
  then show ?thesis using attach_ok assms(2) by blast
next
  case (load create env k)
  then have "\<forall>i\<in>set (PreloadIndexes k). \<forall>t. create i = Some t \<longrightarrow> t \<notin> set (tb_open b) \<or> map_of (tb_tabs b) i \<noteq> None"
    by (auto simp: ran_def)
  with load assms(2) show ?thesis by (auto simp: preloadTabs_def intro: preload_ok)
next
  case (launch env)
  then show ?thesis using start_tabs_ok assms(2) by blast
next
  case exit
  then show ?thesis using assms(2) by (simp add: no_browser_def tabs_ok_def books_ok_def)
qed (use assms(2) in \<open>simp_all add: detach_def consumeRetarget_def revealWhenLoaded_def\<close>)

text \<open>In every state that can be reached the bookkeeping is consistent: each page has one tab and each tab
  one page, no two pages share a tab, the tabs of a running browser are open, and the tab the control
  session is moved to is an open one.\<close>

theorem tabs_stay_consistent:
  assumes "tab_step\<^sup>*\<^sup>* no_tabs b"
  shows "tabs_ok b"
  using assms
proof (induction rule: rtranclp_induct)
  case base
  show ?case by (simp add: no_tabs_def tabs_ok_def books_ok_def table_of_def targets_ok_def)
qed (rule tab_step_ok)

subsection \<open>Inserts while pages are navigated\<close>

definition navigates :: "Config \<Rightarrow> bool" where
  \<comment> \<open>one tab for all pages, except while an insert runs\<close>
  "navigates cfg \<longleftrightarrow> \<not> k_IsolateSessions (c_Kiosk cfg) \<and> k_PageSwitch (c_Kiosk cfg) \<noteq> ''tabs''"

definition page_exists :: "Config \<Rightarrow> int \<Rightarrow> bool" where
  "page_exists cfg i \<longleftrightarrow> 0 \<le> i \<and> i < int (PageCount (c_Kiosk cfg))"

definition on_screen :: "target \<Rightarrow> Tabs \<Rightarrow> bool" where
  \<comment> \<open>the browser runs, and the control session is connected to the tab in front\<close>
  "on_screen t b \<longleftrightarrow> t \<noteq> '''' \<and> tb_running b \<and> tb_navigated b \<and> tb_activeTarget b = t \<and> tb_control b = Some t \<and>
     tb_front b = t \<and> t \<in> set (tb_open b)"

definition lists :: "devToolsTarget list \<Rightarrow> target \<Rightarrow> bool" where
  "lists targets t \<longleftrightarrow> (\<exists>d\<in>set targets. dt_ID d = t \<and> page_target d)"

definition reconnect :: "devToolsTarget list \<Rightarrow> Config \<Rightarrow> Tabs \<Rightarrow> Tabs" where
  \<comment> \<open>the monitor loop after its control session was closed\<close>
  "reconnect targets cfg b = attach targets (c_Kiosk cfg) (detach b)"

lemma pick_preferred: "lists targets t \<Longrightarrow> t \<noteq> '''' \<Longrightarrow> pickDevToolsTarget targets t = Some t"
proof -
  assume "lists targets t" "t \<noteq> ''''"
  then obtain d where "find (\<lambda>d. dt_ID d = t \<and> page_target d) targets = Some d"
    by (cases "find (\<lambda>d. dt_ID d = t \<and> page_target d) targets") (auto simp: lists_def find_none)
  with \<open>t \<noteq> ''''\<close> show ?thesis
    using find_found [of "\<lambda>d. dt_ID d = t \<and> page_target d" targets d] by (simp add: pickDevToolsTarget_def)
qed

lemma few_tabs_stay: "int (length (tb_use b)) \<le> tab_limit cfg b \<Longrightarrow> evictTabs cfg keep b = Some ([], b)"
  by (simp add: evictTabs_def) (subst evict_loop_unfold, simp)

lemma two_tabs_stay: "navigates cfg \<Longrightarrow> length (tb_use b) \<le> 2 \<Longrightarrow> evictTabs cfg keep b = Some ([], b)"
  by (rule few_tabs_stay) (auto simp: tab_limit_def navigates_def)

lemmas reconnect_simps = reconnect_def detach_def consumeRetarget_def attach_def bindControlTarget_def Let_def

lemma insert_shown:
  assumes "navigates cfg" "page_exists cfg i" "on_screen t b" "\<not> tb_insertTab b" "tb_active b \<noteq> i"
    and "te_allowed env" "te_dial env" "te_create env = Some n" "n \<noteq> ''''" "n \<notin> set (tb_open b)"
  shows "show_page env cfg i True b = Some (True,
    b\<lparr>tb_active := i, tb_tabs := [(tb_active b, t), (i, n)],
      tb_url := [(tb_active b, active_url (c_Kiosk cfg) (tb_active b)), (i, active_url (c_Kiosk cfg) i)],
      tb_use := [tb_active b, i], tb_pendingBlank := [n], tb_insertBase := tb_active b, tb_revealTarget := n,
      tb_activeTarget := n, tb_retarget := True, tb_control := None, tb_insertTab := True, tb_open := tb_open b @ [n]\<rparr>)"
proof -
  let ?k = "c_Kiosk cfg"
  let ?b = "b\<lparr>tb_active := i, tb_tabs := [(tb_active b, t)], tb_url := [(tb_active b, active_url ?k (tb_active b))],
    tb_use := [tb_active b], tb_pendingBlank := [], tb_insertBase := tb_active b\<rparr>"
  have p: "prepared cfg i True b = (True, ?b)"
    using assms(1,3-5) by (simp add: prepared_def opens_insert_def navigates_def keepTabForInsert_def on_screen_def)
  have page: "tab_of_page env i ?b = Some (n, True, open_tab n ?b)"
    using assms(5,8,9) by (simp add: tab_of_page_def look_def)
  have "switchTab env cfg i ?b = Some (True, (?b\<lparr>tb_tabs := [(tb_active b, t), (i, n)],
      tb_url := [(tb_active b, active_url ?k (tb_active b)), (i, active_url ?k i)],
      tb_use := [tb_active b, i], tb_pendingBlank := [n], tb_revealTarget := n, tb_open := tb_open b @ [n],
      tb_activeTarget := n, tb_retarget := True, tb_control := None\<rparr>))"
    using assms(1,3,5,7) two_tabs_stay [OF assms(1)]
    by (simp add: switchTab_def page on_screen_def enter_tab_def touchTab_def open_tab_def closeTargets_def look_def Let_def)
  then show ?thesis
    using assms(1-3,5,6)
    by (simp add: show_page_eq [OF _ _ _ p] page_exists_def on_screen_def navigates_def show_in_tab_def Let_def)
qed

definition insert_on_screen :: "Config \<Rightarrow> int \<Rightarrow> int \<Rightarrow> target \<Rightarrow> target \<Rightarrow> Tabs \<Rightarrow> bool" where
  \<comment> \<open>page \<open>i\<close> is shown as an insert in tab \<open>n\<close>, over page \<open>base\<close> in tab \<open>t\<close>\<close>
  "insert_on_screen cfg base i t n b \<longleftrightarrow>
     tb_active b = i \<and> i \<noteq> base \<and> tb_insertTab b \<and> tb_insertBase b = base \<and> t \<noteq> n \<and> t \<noteq> '''' \<and> t \<in> set (tb_open b) \<and>
     tb_tabs b = [(base, t), (i, n)] \<and> tb_use b = [base, i] \<and>
     tb_url b = [(base, active_url (c_Kiosk cfg) base), (i, active_url (c_Kiosk cfg) i)] \<and> tb_pendingBlank b = [] \<and>
     on_screen n b"

lemma insert_connected:
  assumes "navigates cfg" "page_exists cfg i" "on_screen t b" "\<not> tb_insertTab b" "tb_active b \<noteq> i"
    and "te_allowed env" "te_dial env" "te_create env = Some n" "n \<noteq> ''''" "n \<notin> set (tb_open b)"
    and "show_page env cfg i True b = Some (ok, b1)" "lists targets n"
    and "b2 = revealWhenLoaded n True (reconnect targets cfg b1)"
  shows "ok" "insert_on_screen cfg (tb_active b) i t n b2" "tb_open b2 = tb_open b @ [n]"
    "tb_loads b2 = tb_loads b @ [(n, active_url (c_Kiosk cfg) i)]"
proof -
  note s = insert_shown [OF assms(1-10)]
  have "t \<noteq> n" using assms(3,10) by (auto simp: on_screen_def)
  note eq = trans [OF s [symmetric] assms(11), unfolded option.inject prod.inject]
  show "ok" using eq by simp
  note b1 = conjunct2 [OF eq, symmetric]
  show "insert_on_screen cfg (tb_active b) i t n b2" "tb_open b2 = tb_open b @ [n]"
    "tb_loads b2 = tb_loads b @ [(n, active_url (c_Kiosk cfg) i)]"
    using \<open>t \<noteq> n\<close> assms(3,5,9) pick_preferred [OF assms(12,9)] unfolding assms(13) b1
    by (simp_all add: reconnect_simps revealWhenLoaded_def pendingReveal_def insert_on_screen_def on_screen_def)
qed

lemma insert_left_shown:
  assumes "navigates cfg" "page_exists cfg base" "insert_on_screen cfg base i t n b"
    and "te_allowed env" "te_dial env" "te_activate env"
  shows "show_page env cfg base False b = Some (True,
    b\<lparr>tb_active := base, tb_front := t, tb_use := [base], tb_revealTarget := '''', tb_activeTarget := t, tb_retarget := True,
      tb_control := None, tb_insertTab := False, tb_tabs := [(base, t)], tb_url := [(base, active_url (c_Kiosk cfg) base)],
      tb_open := filter (\<lambda>s. s \<noteq> n) (tb_open b)\<rparr>)"
proof -
  let ?k = "c_Kiosk cfg"
  from assms(3) have ne: "base \<noteq> i" "n \<noteq> t" "t \<noteq> ''''" "n \<noteq> ''''" by (auto simp: insert_on_screen_def on_screen_def)
  note f = assms(3) [unfolded insert_on_screen_def on_screen_def]
  let ?b = "b\<lparr>tb_active := base\<rparr>"
  have p: "prepared cfg base False b = (True, ?b)"
    using f by (simp add: prepared_def opens_insert_def)
  have page: "tab_of_page env base ?b = Some (t, False, ?b\<lparr>tb_front := t\<rparr>)"
    using f ne assms(6) by (simp add: tab_of_page_def look_def)
  have "switchTab env cfg base ?b = Some (True, ?b\<lparr>tb_front := t, tb_use := [i, base], tb_revealTarget := '''',
      tb_activeTarget := t, tb_retarget := True, tb_control := None\<rparr>)"
    using f ne assms(1,5) two_tabs_stay [OF assms(1)]
    by (simp add: switchTab_def page enter_tab_def touchTab_def closeTargets_def look_def Let_def)
  then show ?thesis
    using assms(1,2,4,5) f ne
    by (simp add: show_page_eq [OF _ _ _ p] page_exists_def navigates_def show_in_tab_def closeOtherTabs_def look_def
        closeTargets_def Let_def)
qed

lemma insert_left:
  assumes "navigates cfg" "page_exists cfg base" "insert_on_screen cfg base i t n b"
    and "te_allowed env" "te_dial env" "te_activate env"
    and "show_page env cfg base False b = Some (ok, b1)" "lists targets t"
    and "b2 = reconnect targets cfg b1"
  shows "ok" "on_screen t b2" "\<not> tb_insertTab b2" "tb_active b2 = base" "tb_tabs b2 = [(base, t)]"
    "tb_open b2 = filter (\<lambda>s. s \<noteq> n) (tb_open b)" "tb_loads b2 = tb_loads b"
proof -
  note f = assms(3) [unfolded insert_on_screen_def on_screen_def]
  note eq = trans [OF insert_left_shown [OF assms(1-6), symmetric] assms(7), unfolded option.inject prod.inject]
  show "ok" using eq by simp
  note b1 = conjunct2 [OF eq, symmetric]
  have "t \<noteq> ''''" using f by simp
  then show "on_screen t b2" "\<not> tb_insertTab b2" "tb_active b2 = base" "tb_tabs b2 = [(base, t)]"
    "tb_open b2 = filter (\<lambda>s. s \<noteq> n) (tb_open b)" "tb_loads b2 = tb_loads b"
    using f pick_preferred [OF assms(8)] unfolding assms(9) b1 by (simp_all add: reconnect_simps on_screen_def)
qed

text \<open>An insert leaves the page underneath loaded: while pages are navigated, the insert opens in a tab of
  its own, and when it ends the page underneath is in front again, in the same tab and without having
  been loaded again, the tab of the insert is closed, and exactly the tabs of before are open.\<close>

theorem insert_keeps_page_loaded:
  assumes "navigates cfg" "page_exists cfg base" "page_exists cfg i" "i \<noteq> base"
    and "on_screen t b" "tb_active b = base" "\<not> tb_insertTab b"
    and "te_allowed env" "te_dial env" "te_create env = Some n" "n \<noteq> ''''" "n \<notin> set (tb_open b)"
    and "te_allowed env'" "te_dial env'" "te_activate env'"
    and "show_page env cfg i True b = Some (ok, b1)" "lists targets n"
    and "b2 = revealWhenLoaded n True (reconnect targets cfg b1)"
    and "show_page env' cfg base False b2 = Some (ok', b3)" "lists targets' t"
    and "b4 = reconnect targets' cfg b3"
  shows "ok \<and> tb_front b2 = n \<and> tb_loads b2 = tb_loads b @ [(n, active_url (c_Kiosk cfg) i)] \<and>
    ok' \<and> on_screen t b4 \<and> tb_active b4 = base \<and> \<not> tb_insertTab b4 \<and> tb_tabs b4 = [(base, t)] \<and>
    tb_loads b4 = tb_loads b2 \<and> tb_open b4 = tb_open b"
proof -
  have b: "tb_active b \<noteq> i" using assms(4,6) by simp
  note c = insert_connected [OF assms(1,3,5,7) b assms(8-12,16-18)]
  have "insert_on_screen cfg base i t n b2" using c(2) assms(6) by simp
  note l = insert_left [OF assms(1,2) this assms(13-15,19-21)]
  have "filter (\<lambda>s. s \<noteq> n) (tb_open b @ [n]) = tb_open b" using assms(12) by (auto intro: filter_True)
  then show ?thesis
    using c l by (simp add: insert_on_screen_def on_screen_def)
qed

text \<open>When the switch back from an insert fails and the tab on screen is navigated instead,
  \<^verbatim>\<open>closeOtherTabs\<close> records the tab underneath as the tab of its page, although the other one is on
  screen. The next insert forgets it: after that insert it is open, loaded and in no record, until the
  browser is restarted.\<close>

lemma failed_return_leaves_tab:
  assumes "navigates cfg" "page_exists cfg base" "insert_on_screen cfg base i t n b"
    and "te_allowed env" "\<not> te_dial env" "te_navigate env"
    and "show_page env cfg base False b = Some (ok, b1)"
  shows "ok" "on_screen n b1" "tb_tabs b1 = [(base, t)]" "tb_open b1 = tb_open b" "tb_active b1 = base" "\<not> tb_insertTab b1"
    "tb_loads b1 = tb_loads b @ [(n, active_url (c_Kiosk cfg) base)]"
proof -
  let ?k = "c_Kiosk cfg"
  from assms(3) have ne: "base \<noteq> i" "n \<noteq> t" "t \<noteq> ''''" "n \<noteq> ''''" by (auto simp: insert_on_screen_def on_screen_def)
  note f = assms(3) [unfolded insert_on_screen_def on_screen_def]
  have p: "prepared cfg base False b = (True, b\<lparr>tb_active := base\<rparr>)"
    using f by (simp add: prepared_def opens_insert_def)
  have "show_page env cfg base False b = Some (True,
      b\<lparr>tb_active := base, tb_loads := tb_loads b @ [(n, active_url ?k base)], tb_insertTab := False,
        tb_tabs := [(base, t)], tb_url := [(base, active_url ?k base)], tb_use := [base]\<rparr>)"
    using assms(1,2,4-6) f ne
    by (simp add: show_page_eq [OF _ _ _ p] page_exists_def navigates_def show_in_tab_def switchTab_def
        navigate_or_restart_def navigateDevTools_def closeOtherTabs_def look_def Let_def)
  note s = trans [OF this [symmetric] assms(7), unfolded option.inject prod.inject]
  show "ok" using s by simp
  note b1 = conjunct2 [OF s, symmetric]
  show "on_screen n b1" "tb_tabs b1 = [(base, t)]" "tb_open b1 = tb_open b" "tb_active b1 = base" "\<not> tb_insertTab b1"
    "tb_loads b1 = tb_loads b @ [(n, active_url ?k base)]"
    unfolding b1 using f by (simp_all add: on_screen_def)
qed

theorem failed_return_leaks_tab:
  assumes "navigates cfg" "page_exists cfg base" "insert_on_screen cfg base i t n b"
    and "te_allowed env" "\<not> te_dial env" "te_navigate env"
    and "show_page env cfg base False b = Some (ok, b1)"
    and "page_exists cfg j" "j \<noteq> base"
    and "te_allowed env2" "te_dial env2" "te_create env2 = Some m" "m \<noteq> ''''" "m \<notin> set (tb_open b1)"
    and "te_allowed env3" "te_dial env3" "te_activate env3"
    and "show_page env2 cfg j True b1 = Some (ok2, b2)" "lists targets m"
    and "b3 = revealWhenLoaded m True (reconnect targets cfg b2)"
    and "show_page env3 cfg base False b3 = Some (ok3, b4)" "lists targets' n"
    and "b5 = reconnect targets' cfg b4"
  shows "on_screen n b5 \<and> tb_tabs b5 = [(base, n)] \<and> t \<noteq> n \<and> t \<in> set (tb_open b5)"
proof -
  note f = failed_return_leaves_tab [OF assms(1-7)]
  note r = insert_keeps_page_loaded [OF assms(1,2,8,9) f(2,5,6) assms(10-23)]
  have "t \<noteq> n" "t \<in> set (tb_open b)" using assms(3) by (auto simp: insert_on_screen_def)
  then show ?thesis using r f(4) by simp
qed

subsection \<open>Examples\<close>

definition demo_tabs :: Tabs where
  \<comment> \<open>two pages, the first one on screen in tab a, with nothing else open\<close>
  "demo_tabs = no_tabs\<lparr>tb_running := True, tb_tabs := [(0, ''a'')], tb_url := [(0, ''http://a'')], tb_use := [0],
     tb_activeTarget := ''a'', tb_control := Some ''a'', tb_navigated := True, tb_open := [''a''], tb_front := ''a'',
     tb_loads := [(''a'', ''http://a'')]\<rparr>"

definition demo_pages :: Config where
  "demo_pages = zero_config\<lparr>c_Kiosk := zero_kiosk\<lparr>
     k_Pages := [zero_page\<lparr>pg_URL := ''http://a''\<rparr>, zero_page\<lparr>pg_URL := ''http://b''\<rparr>]\<rparr>\<rparr>"

definition demo_tab_env :: "target \<Rightarrow> tab_env" where
  "demo_tab_env t = \<lparr>te_allowed = True, te_dial = True, te_activate = True, te_create = Some t, te_navigate = True,
     te_restart = Some t\<rparr>"

definition demo_target :: "target \<Rightarrow> devToolsTarget" where
  "demo_target t = \<lparr>dt_ID = t, dt_Type = ''page'', dt_WebSocketDebuggerURL = ''ws://'' @ t\<rparr>"

lemma demo_pages_facts: "navigates demo_pages" "PageCount (c_Kiosk demo_pages) = 2" "tab_limit demo_pages demo_tabs = 3"
  by code_simp+

lemma demo_tabs_facts: "books_ok demo_tabs" "on_screen ''a'' demo_tabs" "\<not> tb_insertTab demo_tabs" "tb_active demo_tabs = 0"
  "tb_open demo_tabs = [''a'']"
  by (simp_all add: demo_tabs_def no_tabs_def books_ok_def table_of_def targets_ok_def on_screen_def)

definition crowded_tabs :: Tabs where
  "crowded_tabs = demo_tabs\<lparr>tb_tabs := [(0, ''a''), (3, ''d''), (1, ''b''), (2, ''c'')],
     tb_url := [(0, ''''), (1, ''''), (2, ''''), (3, '''')], tb_use := [3, 0, 2, 1]\<rparr>"

lemma evictTabs_ends_witness:
  "\<exists>b'. evictTabs demo_pages 3 crowded_tabs = Some ([''c''], b') \<and> tb_use b' = [3, 0, 1]"
proof -
  have "books_ok crowded_tabs"
    by (auto simp: crowded_tabs_def books_ok_def table_of_def targets_ok_def)
  from evictTabs_ends [OF this, of demo_pages 3] obtain closing b' where
    ev: "evictTabs demo_pages 3 crowded_tabs = Some (closing, b')"
    and use: "tb_use b' = without_first (nat (int (length (tb_use crowded_tabs)) - tab_limit demo_pages crowded_tabs))
      (insert 3 (set (kept_pages demo_pages crowded_tabs))) (tb_use crowded_tabs)" by blast
  have "kept_pages demo_pages crowded_tabs = [0]" "tab_limit demo_pages crowded_tabs = 3" by code_simp+
  then have "tb_use b' = [3, 0, 1]" using use by (simp add: crowded_tabs_def numeral_2_eq_2)
  moreover have "map_option fst (evictTabs demo_pages 3 crowded_tabs) = Some [''c'']" by code_simp
  ultimately show ?thesis using ev by simp
qed

lemma tabs_stay_consistent_witness:
  "\<exists>b. tab_step\<^sup>*\<^sup>* no_tabs b \<and> tb_tabs b = [(0, ''a'')] \<and> tabs_ok b"
proof -
  let ?env = "demo_tab_env ''a''"
  let ?b1 = "snd (start_tabs ?env no_tabs)"
  let ?b2 = "attach [demo_target ''a''] (c_Kiosk demo_pages) ?b1"
  have "tab_step no_tabs ?b1"
    by (rule tab_step.launch) (simp_all add: fresh_env_def demo_tab_env_def no_tabs_def)
  moreover have "tab_step ?b1 ?b2"
    by (rule tab_step.connect) (simp_all add: start_tabs_def demo_tab_env_def new_browser_def demo_target_def)
  ultimately have r: "tab_step\<^sup>*\<^sup>* no_tabs ?b2" by (metis rtranclp.simps)
  moreover have "tb_tabs ?b2 = [(0, ''a'')]" by code_simp
  ultimately show ?thesis using tabs_stay_consistent [OF r] by blast
qed

lemma insert_keeps_page_loaded_witness:
  "\<exists>b1 b3. show_page (demo_tab_env ''n'') demo_pages 1 True demo_tabs = Some (True, b1) \<and>
     show_page (demo_tab_env ''m'') demo_pages 0 False
       (revealWhenLoaded ''n'' True (reconnect [demo_target ''a'', demo_target ''n''] demo_pages b1)) = Some (True, b3) \<and>
     tb_loads (reconnect [demo_target ''a'', demo_target ''n''] demo_pages b3) =
       [(''a'', ''http://a''), (''n'', ''http://b'')]"
proof -
  let ?ts = "[demo_target ''a'', demo_target ''n'']"
  obtain ok b1 where b1: "show_page (demo_tab_env ''n'') demo_pages 1 True demo_tabs = Some (ok, b1)"
    using insert_shown [of demo_pages 1 "''a''" demo_tabs "demo_tab_env ''n''" "''n''"] demo_pages_facts demo_tabs_facts
    by (auto simp: page_exists_def demo_tab_env_def)
  let ?b2 = "revealWhenLoaded ''n'' True (reconnect ?ts demo_pages b1)"
  have l: "lists ?ts ''a''" "lists ?ts ''n''" by (auto simp: lists_def demo_target_def page_target_def)
  have "insert_on_screen demo_pages (tb_active demo_tabs) 1 ''a'' ''n'' ?b2"
    using demo_pages_facts demo_tabs_facts
    by (intro insert_connected(2) [OF demo_pages_facts(1) _ demo_tabs_facts(2,3) _ _ _ _ _ _ b1 l(2) refl])
      (simp_all add: page_exists_def demo_tab_env_def)
  from insert_left_shown [OF demo_pages_facts(1) _ this, of "demo_tab_env ''m''"] obtain ok' b3 where
    b3: "show_page (demo_tab_env ''m'') demo_pages 0 False ?b2 = Some (ok', b3)"
    using demo_pages_facts demo_tabs_facts by (auto simp: page_exists_def demo_tab_env_def)
  have url: "active_url (c_Kiosk demo_pages) 1 = ''http://b''" by code_simp
  from insert_keeps_page_loaded [OF demo_pages_facts(1) _ _ _ demo_tabs_facts(2,4,3) _ _ _ _ _ _ _ _ b1 l(2) refl b3 l(1) refl]
  show ?thesis using b1 b3 demo_pages_facts demo_tabs_facts url
    by (auto simp: page_exists_def demo_tab_env_def demo_tabs_def)
qed

end
