(* ===== verification/Spec2Isabelle.thy ===== *)
theory Spec2Isabelle
  imports Mqtt_Client Config_Program Config_Conflicts Scheduler_Props Signals Workflow_Props Page_Scripts
    Updater_Props System_Actions Supervisor_Props Admin_Config_Props Tabs_Props
begin

text \<open>
  KioskMate runs a browser in kiosk mode on a wall display. One process holds the configuration
  (\<^verbatim>\<open>internal/config\<close>), the browser supervisor with its page scheduler (\<^verbatim>\<open>internal/supervisor\<close>), the
  workflow engine (\<^verbatim>\<open>internal/workflow\<close>), the MQTT integration (\<^verbatim>\<open>internal/mqttclient\<close>,
  \<^verbatim>\<open>internal/integration\<close>), the admin server (\<^verbatim>\<open>internal/admin\<close>), hardware control and the updater.
  MQTT messages and touches are recorded in a signal store (\<^verbatim>\<open>internal/signals\<close>) that wakes the
  scheduler; the scheduler decides which page is on screen and whether the display is on.

  Theories, in the order of their imports:

  \<^item> \<open>Go_Prelude\<close>, \<open>Go_Time\<close>: what the code uses of the Go language and library, as functions: 64-bit
    integers, byte strings (trimming, splitting, case, decimal numbers), slices, and \<^verbatim>\<open>time.Time\<close> as
    nanoseconds with a time zone as a function from seconds to an offset.
  \<^item> \<open>Mqtt_Packet\<close>, \<open>Mqtt_Payload\<close>, \<open>Mqtt_Client\<close>: \<^verbatim>\<open>mqttclient/packet.go\<close> and \<^verbatim>\<open>client.go\<close>. A
    connection is the list of bytes still to arrive, with the deadlines that interrupt them, and the
    bytes written. Dialing, TLS and files are fields of the record \<open>net\<close>.
  \<^item> \<open>Config_Types\<close>: one record per struct of the configuration.
  \<^item> \<open>Config_Clock\<close>: \<^verbatim>\<open>sun.go\<close> and the clocks of \<^verbatim>\<open>inserts.go\<close> and \<^verbatim>\<open>conflicts.go\<close>. Time zone and the
    times of sunrise and sunset are the fields of the record \<open>sky\<close>.
  \<^item> \<open>Config_Pages\<close>: page look-up, identifiers, \<^verbatim>\<open>normalizeKioskPages\<close>, \<^verbatim>\<open>migrateLegacySequence\<close>.
  \<^item> \<open>Config_Rules\<close>: the validation of workflow rules and inserts.
  \<^item> \<open>Config_Inserts\<close>, \<open>Config_Active\<close>, \<open>Config_Program\<close>: the calendar of page inserts in \<^verbatim>\<open>inserts.go\<close>:
    which runs overlap a stretch of time, which one is on screen, when this changes next, and the
    timeline of a day.
  \<^item> \<open>Signals\<close>: \<^verbatim>\<open>signals.go\<close>.
  \<^item> \<open>Scheduler\<close>, \<open>Scheduler_Props\<close>: the scheduler of \<^verbatim>\<open>supervisor/browser.go\<close> with the overrides of
    \<^verbatim>\<open>runtime.go\<close>; the answers of browser and display are the record \<open>results\<close>.
  \<^item> \<open>Config_Conflicts\<close>: the warnings of \<^verbatim>\<open>conflicts.go\<close>, related to the rules the scheduler activates.

  Interfaces are locales: \<open>framing\<close> (a self-delimiting code, interpreted on lengths and on packets),
  \<open>day_calendar\<close> (a zone whose days follow one another, interpreted on fixed offsets),
  \<open>topic_values\<close> (a store that remembers the last value per topic, interpreted on the signal store).

  Bounds: the day loop of \<^verbatim>\<open>InsertSlots\<close> runs on fuel (\<open>day_fuel\<close>); the locale \<open>day_calendar\<close> shows
  that every day begins at least twelve hours after the one before, so the fuel suffices. Products
  of a setting and a unit of time wrap at 64 bits as in Go; instants themselves are unbounded.
\<close>

end
